theory Spec2Isabelle
  imports Main
begin

section \<open>Strings\<close>

text \<open>
  JavaScript strings are modelled as \<^typ>\<open>string\<close>, the text in UTF-8: an ASCII character
  is one \<^typ>\<open>char\<close>, the em dash U+2014 of the description separator is three. The
  platform's \<open>toLowerCase\<close>, \<open>trim\<close> and the regular-expression class \<open>\s\<close> are modelled on
  the ASCII range (letters A to Z; tab, line feed, vertical tab, form feed, carriage
  return, space); every other character passes through them unchanged.
\<close>

definition is_ws :: "char \<Rightarrow> bool" where
  "is_ws c = (c \<in> {CHR 0x09, CHR 0x0A, CHR 0x0B, CHR 0x0C, CHR 0x0D, CHR '' ''})"

definition trim :: "string \<Rightarrow> string" where
  "trim s = rev (dropWhile is_ws (rev (dropWhile is_ws s)))"

definition lower_char :: "char \<Rightarrow> char" where
  "lower_char c =
     (case map_of (zip ''ABCDEFGHIJKLMNOPQRSTUVWXYZ'' ''abcdefghijklmnopqrstuvwxyz'') c of
        Some d \<Rightarrow> d
      | None \<Rightarrow> c)"

definition toLowerCase :: "string \<Rightarrow> string" where
  "toLowerCase s = map lower_char s"

text \<open>\<^verbatim>\<open>s.replace(/\s+/g, ' ')\<close>: every maximal run of whitespace becomes one space.\<close>

fun collapse_ws :: "string \<Rightarrow> string" where
  "collapse_ws [] = []"
| "collapse_ws (c # cs) =
     (if is_ws c then
        (case cs of
           [] \<Rightarrow> [CHR '' '']
         | d # _ \<Rightarrow> if is_ws d then collapse_ws cs else CHR '' '' # collapse_ws cs)
      else c # collapse_ws cs)"

text \<open>\<^verbatim>\<open>t.includes(w)\<close>: \<open>w\<close> occurs in \<open>t\<close> as a contiguous substring.\<close>

fun includes_str :: "string \<Rightarrow> string \<Rightarrow> bool" where
  "includes_str [] w = (w = [])"
| "includes_str (c # cs) w = (take (length w) (c # cs) = w \<or> includes_str cs w)"

text \<open>\<^verbatim>\<open>s.startsWith(w)\<close>.\<close>

definition startsWith :: "string \<Rightarrow> string \<Rightarrow> bool" where
  "startsWith s w = (take (length w) s = w)"

text \<open>
  \<^verbatim>\<open>s.split(sep)\<close> for a non-empty separator: the pieces between the occurrences of
  \<open>sep\<close>, read from the left; a string without the separator is its only piece.
\<close>

function split_from :: "string \<Rightarrow> string \<Rightarrow> string \<Rightarrow> string list" where
  "split_from sep acc s =
     (case s of
        [] \<Rightarrow> [rev acc]
      | c # cs \<Rightarrow>
          if sep \<noteq> [] \<and> take (length sep) s = sep
          then rev acc # split_from sep [] (drop (length sep) s)
          else split_from sep (c # acc) cs)"
  by pat_completeness auto
termination
  by (relation "measure (\<lambda>(sep, acc, s). length s)") auto

declare split_from.simps [simp del]

definition split_str :: "string \<Rightarrow> string \<Rightarrow> string list" where
  "split_str s sep = split_from sep [] s"

text \<open>\<^verbatim>\<open>xs.join(sep)\<close>.\<close>

fun join_str :: "string list \<Rightarrow> string \<Rightarrow> string" where
  "join_str [] sep = []"
| "join_str [x] sep = x"
| "join_str (x # y # ys) sep = x @ sep @ join_str (y # ys) sep"

text \<open>The em dash U+2014, in UTF-8, and the separator \<^verbatim>\<open>' -- '\<close> of the descriptions.\<close>

definition em_dash :: string where
  "em_dash = [CHR 0xE2, CHR 0x80, CHR 0x94]"

definition dash_sep :: string where
  "dash_sep = '' '' @ em_dash @ '' ''"

text \<open>\<^verbatim>\<open>[a, b].filter(Boolean).join(' -- ')\<close>: the non-empty ones, joined by the dash.\<close>

definition join_nonempty :: "string list \<Rightarrow> string" where
  "join_nonempty xs = join_str (filter (\<lambda>x. x \<noteq> []) xs) dash_sep"

text \<open>Decimal digits of a natural number, as \<^verbatim>\<open>String(n)\<close> prints an array index.\<close>

fun show_nat :: "nat \<Rightarrow> string" where
  "show_nat n =
     (if n < 10 then [''0123456789'' ! n]
      else show_nat (n div 10) @ [''0123456789'' ! (n mod 10)])"

declare show_nat.simps [simp del]

section \<open>JavaScript values\<close>

text \<open>
  The values that \<^verbatim>\<open>JSON.parse\<close>, the XML parser and property reads produce. A number is
  carried as the text \<^verbatim>\<open>String()\<close> renders it as, which is all the scraper ever does with
  one besides testing it for truth. An object is the list of its own properties, each key
  once.

  Of what a value inherits from its prototype, one member has a name that the scraper
  reads: a string has the method \<^verbatim>\<open>link\<close>, so \<^verbatim>\<open>e.link\<close> is a function when the entry \<open>e\<close> of a
  list is a string. That function is the value \<open>String_link\<close>. The other inherited members
  (\<^verbatim>\<open>constructor\<close>, \<^verbatim>\<open>toString\<close>, the methods of arrays) are not modelled, nor are the
  \<^verbatim>\<open>length\<close> and the characters of a string read as properties: the scraper reads none of
  them by name, and a path of the configuration is taken to name own properties.
\<close>

datatype jv =
    Undefined
  | Null
  | Bool bool
  | Num string
  | Str string
  | Arr "jv list"
  | Obj "(string \<times> jv) list"
  | String_link

datatype err =
    TransportError
  | HttpError nat
  | SyntaxError
  | TypeError
  | LocatorError

fun truthy :: "jv \<Rightarrow> bool" where
  "truthy Undefined = False"
| "truthy Null = False"
| "truthy (Bool b) = b"
| "truthy (Num n) = (n \<noteq> ''0'' \<and> n \<noteq> ''-0'' \<and> n \<noteq> ''NaN'')"
| "truthy (Str s) = (s \<noteq> [])"
| "truthy (Arr xs) = True"
| "truthy (Obj kvs) = True"
| "truthy String_link = True"

text \<open>\<^verbatim>\<open>a || b\<close>.\<close>

definition or_else :: "jv \<Rightarrow> jv \<Rightarrow> jv" where
  "or_else a b = (if truthy a then a else b)"

text \<open>
  \<^verbatim>\<open>String(v)\<close>, which is also what \<^verbatim>\<open>v + ''\<close> and a template literal produce. A built-in
  function prints as Node prints it.
\<close>

fun to_str :: "jv \<Rightarrow> string" where
  "to_str Undefined = ''undefined''"
| "to_str Null = ''null''"
| "to_str (Bool b) = (if b then ''true'' else ''false'')"
| "to_str (Num n) = n"
| "to_str (Str s) = s"
| "to_str (Arr xs) =
     join_str (map (\<lambda>x. case x of Undefined \<Rightarrow> [] | Null \<Rightarrow> [] | _ \<Rightarrow> to_str x) xs) '',''"
| "to_str (Obj kvs) = ''[object Object]''"
| "to_str String_link = ''function link() { [native code] }''"

text \<open>\<^verbatim>\<open>const safe = (v) => (typeof v === 'string' ? v.trim() : (v ?? '') + '');\<close>\<close>

fun safe :: "jv \<Rightarrow> string" where
  "safe (Str s) = trim s"
| "safe Undefined = []"
| "safe Null = []"
| "safe v = to_str v"

text \<open>\<^verbatim>\<open>const norm = (s) => safe(s).toLowerCase().replace(/\s+/g, ' ').trim();\<close>\<close>

definition norm :: "string \<Rightarrow> string" where
  "norm s = trim (collapse_ws (toLowerCase (safe (Str s))))"

text \<open>
  The index that a property key denotes in an array of length \<open>n\<close>: the key is the
  canonical decimal of a position below \<open>n\<close>.
\<close>

definition array_index :: "nat \<Rightarrow> string \<Rightarrow> nat option" where
  "array_index n k = find (\<lambda>i. show_nat i = k) [0..<n]"

text \<open>
  \<^verbatim>\<open>k in o\<close>, for \<open>o\<close> an array, an object or a function (on anything else it raises).
\<close>

fun has_key :: "jv \<Rightarrow> string \<Rightarrow> bool" where
  "has_key (Obj kvs) k = (map_of kvs k \<noteq> None)"
| "has_key (Arr xs) k = (array_index (length xs) k \<noteq> None \<or> k = ''length'')"
| "has_key String_link k = (k = ''name'' \<or> k = ''length'')"
| "has_key v k = False"

text \<open>\<^verbatim>\<open>o[k]\<close> where \<open>o\<close> is neither \<^verbatim>\<open>null\<close> nor \<^verbatim>\<open>undefined\<close>.\<close>

fun read_prop :: "jv \<Rightarrow> string \<Rightarrow> jv" where
  "read_prop (Obj kvs) k = (case map_of kvs k of Some v \<Rightarrow> v | None \<Rightarrow> Undefined)"
| "read_prop (Arr xs) k =
     (case array_index (length xs) k of
        Some i \<Rightarrow> xs ! i
      | None \<Rightarrow> if k = ''length'' then Num (show_nat (length xs)) else Undefined)"
| "read_prop (Str s) k = (if k = ''link'' then String_link else Undefined)"
| "read_prop String_link k =
     (if k = ''name'' then Str ''link'' else if k = ''length'' then Num ''1'' else Undefined)"
| "read_prop v k = Undefined"

text \<open>\<^verbatim>\<open>o.k\<close>: a \<^verbatim>\<open>TypeError\<close> on \<^verbatim>\<open>null\<close> and \<^verbatim>\<open>undefined\<close>.\<close>

definition get :: "jv \<Rightarrow> string \<Rightarrow> err + jv" where
  "get o' k = (if o' = Undefined \<or> o' = Null then Inl TypeError else Inr (read_prop o' k))"

text \<open>\<^verbatim>\<open>o?.k\<close>: \<^verbatim>\<open>undefined\<close> on \<^verbatim>\<open>null\<close> and \<^verbatim>\<open>undefined\<close>.\<close>

definition opt_get :: "jv \<Rightarrow> string \<Rightarrow> jv" where
  "opt_get o' k = (if o' = Undefined \<or> o' = Null then Undefined else read_prop o' k)"

definition isArray :: "jv \<Rightarrow> bool" where
  "isArray v = (case v of Arr xs \<Rightarrow> True | _ \<Rightarrow> False)"

definition elems :: "jv \<Rightarrow> jv list" where
  "elems v = (case v of Arr xs \<Rightarrow> xs | _ \<Rightarrow> [])"

text \<open>Sequencing of computations that may raise.\<close>

definition and_then :: "err + 'a \<Rightarrow> ('a \<Rightarrow> err + 'b) \<Rightarrow> err + 'b" where
  "and_then m f = (case m of Inl e \<Rightarrow> Inl e | Inr x \<Rightarrow> f x)"

text \<open>
  \<^verbatim>\<open>
  const pick  = (obj, pathStr) => {
    if (!pathStr) return undefined;
    return pathStr.split('.').reduce((o,k)=> (o && (k in o) ? o[k] : undefined), obj);
  };
  \<close>
  An absent path is the empty string here (both are falsy). \<^verbatim>\<open>k in o\<close> raises a
  \<^verbatim>\<open>TypeError\<close> when \<open>o\<close> is a truthy primitive (a non-empty string, a number, \<^verbatim>\<open>true\<close>).
\<close>

definition pick_step :: "err + jv \<Rightarrow> string \<Rightarrow> err + jv" where
  "pick_step acc k =
     and_then acc (\<lambda>o'.
       if \<not> truthy o' then Inr Undefined
       else (case o' of
               Arr xs \<Rightarrow> Inr (if has_key o' k then read_prop o' k else Undefined)
             | Obj kvs \<Rightarrow> Inr (if has_key o' k then read_prop o' k else Undefined)
             | String_link \<Rightarrow> Inr (if has_key o' k then read_prop o' k else Undefined)
             | _ \<Rightarrow> Inl TypeError))"

definition pick :: "jv \<Rightarrow> string \<Rightarrow> err + jv" where
  "pick obj pathStr =
     (if pathStr = [] then Inr Undefined
      else foldl pick_step (Inr obj) (split_str pathStr ''.''))"

section \<open>The platform\<close>

text \<open>
  What the scraper asks of the JavaScript runtime is a parameter of the model:
  \<^item> \<open>URL_href href base\<close> is \<^verbatim>\<open>new URL(href, base).href\<close>, with \<open>None\<close> where the
    constructor raises; the base is optional (\<^verbatim>\<open>new URL(href)\<close>);
  \<^item> \<open>Date_parse s\<close> is the time value of \<^verbatim>\<open>new Date(s)\<close> in milliseconds, with \<open>None\<close> for
    an invalid date (\<^verbatim>\<open>NaN\<close>);
  \<^item> \<open>Date_now\<close> is the time value of \<^verbatim>\<open>new Date()\<close>, the current run time;
  \<^item> \<open>toUTCString t\<close> is \<^verbatim>\<open>toUTCString()\<close> of a valid date.
\<close>

record platform =
  URL_href :: "string \<Rightarrow> string option \<Rightarrow> string option"
  Date_parse :: "string \<Rightarrow> int option"
  Date_now :: int
  toUTCString :: "int \<Rightarrow> string"

text \<open>
  \<^verbatim>\<open>const toAbs = (href, base) => { try { return new URL(href, base).href; } catch { return href || base; } };\<close>
  on strings.
\<close>

definition toAbs :: "platform \<Rightarrow> string \<Rightarrow> string \<Rightarrow> string" where
  "toAbs P href base =
     (case URL_href P href (Some base) of
        Some u \<Rightarrow> u
      | None \<Rightarrow> if href \<noteq> [] then href else base)"

text \<open>
  The same function on arbitrary values, as the feed extractor calls it: the constructor
  converts its arguments to strings, the fallback returns them as they are.
\<close>

definition toAbs_val :: "platform \<Rightarrow> jv \<Rightarrow> jv \<Rightarrow> jv" where
  "toAbs_val P href base =
     (case URL_href P (to_str href) (if base = Undefined then None else Some (to_str base)) of
        Some u \<Rightarrow> Str u
      | None \<Rightarrow> or_else href base)"

text \<open>A string is an absolute URL when the constructor accepts it without a base.\<close>

definition absolute_url :: "platform \<Rightarrow> string \<Rightarrow> bool" where
  "absolute_url P s = (URL_href P s None \<noteq> None)"

text \<open>
  \<^verbatim>\<open>const rfc822 = (d) => (d ? new Date(d) : new Date()).toUTCString();\<close>
  \<^verbatim>\<open>toUTCString()\<close> of an invalid date is the string \<^verbatim>\<open>Invalid Date\<close>.
\<close>

definition rfc822 :: "platform \<Rightarrow> string \<Rightarrow> string" where
  "rfc822 P d =
     (if d \<noteq> [] then
        (case Date_parse P d of
           Some t \<Rightarrow> toUTCString P t
         | None \<Rightarrow> ''Invalid Date'')
      else toUTCString P (Date_now P))"

subsection \<open>A fragment of the runtime, for running the model\<close>

text \<open>
  A fragment of the URL parser: \<^verbatim>\<open>http\<close> and \<^verbatim>\<open>https\<close> URLs whose host is made of
  non-empty labels of lower-case letters and whose path is made of letters, digits and
  \<^verbatim>\<open>/ _ - .\<close> with no \<^verbatim>\<open>.\<close> or \<^verbatim>\<open>..\<close> segment, and references to them that are such a URL,
  such a path starting with one slash, or empty (the base itself). On these the serialization is the input, with
  the path \<^verbatim>\<open>/\<close> if there is none. The fragment answers \<open>None\<close> everywhere else, which is
  right where the constructor raises (a reference that is not a URL against a base that
  is not one) and says nothing of the rest.
\<close>

definition host_ok :: "string \<Rightarrow> bool" where
  "host_ok h =
     (list_all (\<lambda>c. c \<in> set ''abcdefghijklmnopqrstuvwxyz.'') h \<and>
      list_all (\<lambda>l. l \<noteq> []) (split_str h ''.''))"

definition path_ok :: "string \<Rightarrow> bool" where
  "path_ok p =
     (list_all (\<lambda>c. c \<in> set
        ''abcdefghijklmnopqrstuvwxyzABCDEFGHIJKLMNOPQRSTUVWXYZ0123456789/_-.'') p \<and>
      list_all (\<lambda>g. g \<noteq> ''.'' \<and> g \<noteq> ''..'') (split_str p ''/''))"

definition parse_http :: "string \<Rightarrow> (string \<times> string \<times> string) option" where
  "parse_http s =
     (let scheme = (if startsWith s ''https://'' then ''https''
                    else if startsWith s ''http://'' then ''http'' else []);
          r = drop (length scheme + 3) s;
          h = takeWhile (\<lambda>c. c \<noteq> CHR ''/'') r;
          p = dropWhile (\<lambda>c. c \<noteq> CHR ''/'') r
      in if scheme \<noteq> [] \<and> host_ok h \<and> path_ok p
         then Some (scheme, h, if p = [] then ''/'' else p)
         else None)"

definition serialize_http :: "string \<times> string \<times> string \<Rightarrow> string" where
  "serialize_http u = (case u of (scheme, h, p) \<Rightarrow> scheme @ ''://'' @ h @ p)"

definition http_href :: "string \<Rightarrow> string option \<Rightarrow> string option" where
  "http_href href base =
     (case base of
        None \<Rightarrow> map_option serialize_http (parse_http href)
      | Some b \<Rightarrow>
          (case parse_http b of
             None \<Rightarrow> None
           | Some (scheme, h, bp) \<Rightarrow>
               (case parse_http href of
                  Some u \<Rightarrow> Some (serialize_http u)
                | None \<Rightarrow>
                    if href = [] then Some (serialize_http (scheme, h, bp))
                    else if startsWith href ''/'' \<and> \<not> startsWith href ''//'' \<and> path_ok href
                    then Some (serialize_http (scheme, h, href))
                    else None)))"

text \<open>
  A fragment of the date parser: the date-only form \<^verbatim>\<open>YYYY-MM-DD\<close> of the language
  standard, read as midnight UTC. It answers \<open>None\<close> everywhere else, which is right for a
  string with no digit in it and says nothing of the rest.
\<close>

definition digit_val :: "char \<Rightarrow> nat option" where
  "digit_val c = find (\<lambda>i. ''0123456789'' ! i = c) [0..<10]"

definition number_val :: "string \<Rightarrow> nat option" where
  "number_val cs =
     (if cs \<noteq> [] \<and> list_all (\<lambda>c. digit_val c \<noteq> None) cs
      then Some (foldl (\<lambda>n c. 10 * n + (case digit_val c of Some v \<Rightarrow> v | None \<Rightarrow> 0)) 0 cs)
      else None)"

definition leap_year :: "int \<Rightarrow> bool" where
  "leap_year y = (y mod 4 = 0 \<and> (y mod 100 \<noteq> 0 \<or> y mod 400 = 0))"

definition days_in_month :: "int \<Rightarrow> int \<Rightarrow> int" where
  "days_in_month y m =
     (if m = 2 then (if leap_year y then 29 else 28)
      else if m \<in> {4, 6, 9, 11} then 30 else 31)"

text \<open>Days from 1970-01-01 to a date of the proleptic Gregorian calendar, and back.\<close>

definition days_from_civil :: "int \<Rightarrow> int \<Rightarrow> int \<Rightarrow> int" where
  "days_from_civil y m d =
     (let y' = (if m \<le> 2 then y - 1 else y);
          era = y' div 400;
          yoe = y' - era * 400;
          doy = (153 * (if m > 2 then m - 3 else m + 9) + 2) div 5 + d - 1;
          doe = yoe * 365 + yoe div 4 - yoe div 100 + doy
      in era * 146097 + doe - 719468)"

definition civil_from_days :: "int \<Rightarrow> int \<times> int \<times> int" where
  "civil_from_days z =
     (let z' = z + 719468;
          era = z' div 146097;
          doe = z' - era * 146097;
          yoe = (doe - doe div 1460 + doe div 36524 - doe div 146096) div 365;
          doy = doe - (365 * yoe + yoe div 4 - yoe div 100);
          mp = (5 * doy + 2) div 153;
          d = doy - (153 * mp + 2) div 5 + 1;
          m = (if mp < 10 then mp + 3 else mp - 9);
          y = yoe + era * 400 + (if m \<le> 2 then 1 else 0)
      in (y, m, d))"

definition iso_date_parse :: "string \<Rightarrow> int option" where
  "iso_date_parse s =
     (if length s = 10 \<and> s ! 4 = CHR ''-'' \<and> s ! 7 = CHR ''-'' then
        (case (number_val (take 4 s), number_val (take 2 (drop 5 s)), number_val (drop 8 s)) of
           (Some y, Some m, Some d) \<Rightarrow>
             if 1 \<le> m \<and> m \<le> 12 \<and> 1 \<le> d \<and> int d \<le> days_in_month (int y) (int m)
             then Some (days_from_civil (int y) (int m) (int d) * 86400000)
             else None
         | _ \<Rightarrow> None)
      else None)"

text \<open>
  \<^verbatim>\<open>toUTCString()\<close> for the years 0 to 9999:
  \<^verbatim>\<open>Wed, 01 May 2024 00:00:00 GMT\<close>.
\<close>

definition pad :: "nat \<Rightarrow> nat \<Rightarrow> string" where
  "pad w n = replicate (w - length (show_nat n)) (CHR ''0'') @ show_nat n"

definition utc_string :: "int \<Rightarrow> string" where
  "utc_string t =
     (let days = t div 86400000;
          ms = t mod 86400000;
          wd = [''Sun'', ''Mon'', ''Tue'', ''Wed'', ''Thu'', ''Fri'', ''Sat''] ! nat ((days + 4) mod 7)
      in case civil_from_days days of
           (y, m, d) \<Rightarrow>
             wd @ '', '' @ pad 2 (nat d) @ '' '' @
             [''Jan'', ''Feb'', ''Mar'', ''Apr'', ''May'', ''Jun'',
              ''Jul'', ''Aug'', ''Sep'', ''Oct'', ''Nov'', ''Dec''] ! nat (m - 1) @ '' '' @
             pad 4 (nat y) @ '' '' @
             pad 2 (nat (ms div 3600000)) @ '':'' @
             pad 2 (nat (ms div 60000 mod 60)) @ '':'' @
             pad 2 (nat (ms div 1000 mod 60)) @ '' GMT'')"

text \<open>The fragment as a platform, for a run at time \<open>now\<close>.\<close>

definition runtime :: "int \<Rightarrow> platform" where
  "runtime now =
     \<lparr>URL_href = http_href, Date_parse = iso_date_parse, Date_now = now,
      toUTCString = utc_string\<rparr>"

section \<open>Source configurations\<close>

text \<open>
  One record of \<^verbatim>\<open>sites.json\<close>. The fields carry the prefix \<open>c_\<close>; an absent string field
  is the empty string and an absent \<^verbatim>\<open>max\<close> is \<open>0\<close>, which the scraper cannot tell from
  absence either (it tests them with \<^verbatim>\<open>||\<close> and \<^verbatim>\<open>?:\<close>). The locator of the source's mode
  (\<^verbatim>\<open>url\<close>, \<^verbatim>\<open>api\<close>, \<^verbatim>\<open>ics\<close> or \<^verbatim>\<open>rss\<close>) is present.
\<close>

record filters =
  flt_include :: "string list option"
  flt_exclude :: "string list option"

record field_map =
  map_path :: string
  map_title :: string
  map_link :: string
  map_date :: string
  map_venue :: string
  map_image :: string

record cfg =
  c_key :: string
  c_mode :: string
  c_url :: string
  c_api :: string
  c_ics :: string
  c_rss :: string
  c_item :: string
  c_title :: string
  c_link :: string
  c_date :: string
  c_image :: string
  c_town :: string
  c_venue :: string
  c_waitMs :: "nat option"
  c_max :: int
  c_jsonldFirst :: bool
  c_filters :: "filters option"
  c_map :: "field_map option"

text \<open>\<^verbatim>\<open>cfg.map?.f\<close> for a field \<open>f\<close> of the map.\<close>

definition map_field :: "cfg \<Rightarrow> (field_map \<Rightarrow> string) \<Rightarrow> string" where
  "map_field c f = (case c_map c of None \<Rightarrow> [] | Some m \<Rightarrow> f m)"

definition DEFAULT_item :: string where
  "DEFAULT_item = ''li.mec-event-article, .mec-event-list li, .tribe-events-calendar-list__event, article, .event, .event-card, .event-item, li.event, li.EventList-item, .card, .listing, .tile''"

definition DEFAULT_title :: string where
  "DEFAULT_title = ''.mec-event-title a, .entry-title a, .entry-title, h1, h2, h3, .title, .event-title, .card-title, [itemprop='name']''"

definition DEFAULT_link :: string where
  "DEFAULT_link = ''.mec-event-title a, a[href]''"

definition DEFAULT_date :: string where
  "DEFAULT_date = ''.mec-start-date, .tribe-event-date-start, time, [datetime], .date, .event-date, .card-date, [class*='date'], [class*='time']''"

definition DEFAULT_image :: string where
  "DEFAULT_image = ''img, [data-src], [data-original], [data-lazy], [data-image], [style*='background-image']''"

text \<open>
  \<^verbatim>\<open>
  function applyDefaults(cfg) {
    if (cfg.mode === 'dom') {
      cfg.item  = cfg.item  || DEFAULT_SELECTORS.item;
      ...
    }
    if (cfg.waitMs == null) cfg.waitMs = 2200;
    if (cfg.filters) { cfg._filter = (txt) => { ... }; } else { cfg._filter = () => true; }
  }
  \<close>
  The closure \<^verbatim>\<open>cfg._filter\<close> is the function \<open>cfg_filter\<close> below.
\<close>

definition applyDefaults :: "cfg \<Rightarrow> cfg" where
  "applyDefaults c =
     (let c1 = (if c_mode c = ''dom'' then
                  c\<lparr>c_item := (if c_item c \<noteq> [] then c_item c else DEFAULT_item),
                    c_title := (if c_title c \<noteq> [] then c_title c else DEFAULT_title),
                    c_link := (if c_link c \<noteq> [] then c_link c else DEFAULT_link),
                    c_date := (if c_date c \<noteq> [] then c_date c else DEFAULT_date),
                    c_image := (if c_image c \<noteq> [] then c_image c else DEFAULT_image)\<rparr>
                else c)
      in (if c_waitMs c1 = None then c1\<lparr>c_waitMs := Some 2200\<rparr> else c1))"

text \<open>
  \<^verbatim>\<open>
  cfg._filter = (txt) => {
    const t = (txt || '').toLowerCase();
    if (cfg.filters.exclude && cfg.filters.exclude.some(w => t.includes(w.toLowerCase()))) return false;
    if (cfg.filters.include && !cfg.filters.include.some(w => t.includes(w.toLowerCase()))) return false;
    return true;
  };
  \<close>
  and \<^verbatim>\<open>() => true\<close> when the configuration has no \<^verbatim>\<open>filters\<close>. A list of terms that is
  present is truthy, also when it is empty.
\<close>

definition some_term :: "string list \<Rightarrow> string \<Rightarrow> bool" where
  "some_term ws t = list_ex (\<lambda>w. includes_str t (toLowerCase w)) ws"

definition cfg_filter :: "cfg \<Rightarrow> string \<Rightarrow> bool" where
  "cfg_filter c txt =
     (case c_filters c of
        None \<Rightarrow> True
      | Some f \<Rightarrow>
          (let t = toLowerCase txt in
           if (case flt_exclude f of Some ex \<Rightarrow> some_term ex t | None \<Rightarrow> False) then False
           else if (case flt_include f of Some inc \<Rightarrow> \<not> some_term inc t | None \<Rightarrow> False) then False
           else True))"

text \<open>\<^verbatim>\<open>(cfg.town ? `[${cfg.town}] ` : '') + title\<close>.\<close>

definition town_prefix :: "cfg \<Rightarrow> string \<Rightarrow> string" where
  "town_prefix c t = (if c_town c \<noteq> [] then ''['' @ c_town c @ ''] '' else []) @ t"

text \<open>\<^verbatim>\<open>a || b\<close> on strings.\<close>

definition or_str :: "string \<Rightarrow> string \<Rightarrow> string" where
  "or_str a b = (if a \<noteq> [] then a else b)"

section \<open>The normalized event record\<close>

record event =
  title :: string
  link :: string
  guid :: string
  pubDate :: string
  description :: string
  image :: string
  town :: string
  venue :: string

section \<open>Fetched resources\<close>

text \<open>
  What \<^verbatim>\<open>fetch\<close> gives: the request is rejected (no connection), or a response arrives
  with a status and a body. \<^verbatim>\<open>res.ok\<close> holds for the statuses 200 to 299.
\<close>

datatype 'a response = Rejected | Response nat 'a

definition res_ok :: "nat \<Rightarrow> bool" where
  "res_ok status = (200 \<le> status \<and> status \<le> 299)"

text \<open>
  The body of every extractor's loop computes the same local values for an item
  (\<^verbatim>\<open>title\<close>, \<^verbatim>\<open>link\<close>, the date text, the description, the image, \<^verbatim>\<open>textBlob\<close>), then tests
  the filter and pushes a record:
  \<^verbatim>\<open>
  if (!cfg._filter(textBlob)) continue;
  out.push({ title: (cfg.town ? `[${cfg.town}] ` : '') + title, link, guid: ...,
    pubDate: rfc822(date), description: ..., image: ..., town: cfg.town || '', venue: ... });
  \<close>
  The record \<open>draft\<close> holds the local values, with the expressions that the push gives
  for \<^verbatim>\<open>guid\<close> and \<^verbatim>\<open>venue\<close>.
\<close>

record draft =
  d_title :: string
  d_link :: string
  d_date :: string
  d_desc :: string
  d_image :: string
  d_venue :: string
  d_guid :: string
  d_blob :: string

definition push :: "platform \<Rightarrow> cfg \<Rightarrow> draft \<Rightarrow> event" where
  "push P c d =
     \<lparr>title = town_prefix c (d_title d),
      link = d_link d,
      guid = d_guid d,
      pubDate = rfc822 P (d_date d),
      description = d_desc d,
      image = d_image d,
      town = c_town c,
      venue = d_venue d\<rparr>"

definition emit :: "platform \<Rightarrow> cfg \<Rightarrow> draft \<Rightarrow> event option" where
  "emit P c d = (if \<not> cfg_filter c (d_blob d) then None else Some (push P c d))"

text \<open>\<^verbatim>\<open>link + '#' + norm(title) + '#' + norm(date)\<close>.\<close>

definition guid_of :: "string \<Rightarrow> string \<Rightarrow> string \<Rightarrow> string" where
  "guid_of link' title' date' = link' @ ''#'' @ norm title' @ ''#'' @ norm date'"

section \<open>The ICS calendar extractor\<close>

text \<open>
  \<^verbatim>\<open>
  const get = (k) => (block.match(new RegExp(`${k}:(.*)`)) || [, ''])[1].trim();
  \<close>
  The expression has no anchor: it matches at the first place of the block where the
  key and a colon stand, wherever on its line, and captures up to the end of that line
  (\<^verbatim>\<open>.\<close> stops at a line feed or a carriage return; the line separators U+2028 and
  U+2029, at which it stops too, lie outside the ASCII range that the model covers).
\<close>

fun find_after :: "string \<Rightarrow> string \<Rightarrow> string option" where
  "find_after w [] = (if w = [] then Some [] else None)"
| "find_after w (c # cs) =
     (if take (length w) (c # cs) = w then Some (drop (length w) (c # cs))
      else find_after w cs)"

definition line_end :: "char \<Rightarrow> bool" where
  "line_end c = (c = CHR 0x0A \<or> c = CHR 0x0D)"

definition ics_get :: "string \<Rightarrow> string \<Rightarrow> string" where
  "ics_get block k =
     (case find_after (k @ '':'') block of
        None \<Rightarrow> []
      | Some rest \<Rightarrow> trim (takeWhile (\<lambda>c. \<not> line_end c) rest))"

text \<open>
  \<^verbatim>\<open>
  const events = text.split('BEGIN:VEVENT').slice(1).map(block => {
    const summary = get('SUMMARY');
    const url     = get('URL') || cfg.ics;
    const dtstart = get('DTSTART') || '';
    const venue   = get('LOCATION') || cfg.venue || '';
    return { summary, url, dtstart, venue };
  });
  \<close>
\<close>

record vevent =
  ev_summary :: string
  ev_url :: string
  ev_dtstart :: string
  ev_venue :: string

definition ics_event :: "cfg \<Rightarrow> string \<Rightarrow> vevent" where
  "ics_event c block =
     \<lparr>ev_summary = ics_get block ''SUMMARY'',
      ev_url = or_str (ics_get block ''URL'') (c_ics c),
      ev_dtstart = or_str (ics_get block ''DTSTART'') [],
      ev_venue = or_str (or_str (ics_get block ''LOCATION'') (c_venue c)) []\<rparr>"

definition ics_events :: "cfg \<Rightarrow> string \<Rightarrow> vevent list" where
  "ics_events c text = map (ics_event c) (drop 1 (split_str text ''BEGIN:VEVENT''))"

text \<open>
  \<^verbatim>\<open>
  for (const ev of events) {
    const title = safe(ev.summary);
    const link  = toAbs(ev.url || cfg.ics, cfg.ics);
    const date  = safe(ev.dtstart);
    const desc  = [cfg.venue || ev.venue || '', date].filter(Boolean).join(' -- ');
    const textBlob = `${title} ${desc}`;
    if (!cfg._filter(textBlob)) continue;
    out.push({ title: (cfg.town ? `[${cfg.town}] ` : '') + title, link,
      guid: link + '#' + norm(title) + '#' + norm(date), pubDate: rfc822(date),
      description: desc, image: '', town: cfg.town || '', venue: cfg.venue || '' });
  }
  \<close>
  (the dash of the source is the em dash). Each event gives one record or none.
\<close>

definition ics_draft :: "platform \<Rightarrow> cfg \<Rightarrow> vevent \<Rightarrow> draft" where
  "ics_draft P c ev =
     (let title' = trim (ev_summary ev);
          link' = toAbs P (or_str (ev_url ev) (c_ics c)) (c_ics c);
          date' = trim (ev_dtstart ev);
          desc = join_nonempty [or_str (or_str (c_venue c) (ev_venue ev)) [], date']
      in \<lparr>d_title = title', d_link = link', d_date = date', d_desc = desc, d_image = [],
          d_venue = c_venue c, d_guid = guid_of link' title' date',
          d_blob = title' @ '' '' @ desc\<rparr>)"

definition ics_item :: "platform \<Rightarrow> cfg \<Rightarrow> vevent \<Rightarrow> event option" where
  "ics_item P c ev = emit P c (ics_draft P c ev)"

text \<open>
  \<^verbatim>\<open>
  const res = await fetch(cfg.ics, { headers: { 'user-agent': UA_DESKTOP } });
  if (!res.ok) throw new Error(`ICS ${res.status} ${cfg.ics}`);
  const text = await res.text();
  \<close>
\<close>

definition scrapeICS :: "platform \<Rightarrow> cfg \<Rightarrow> string response \<Rightarrow> err + event list" where
  "scrapeICS P c res =
     (case res of
        Rejected \<Rightarrow> Inl TransportError
      | Response status text \<Rightarrow>
          if \<not> res_ok status then Inl (HttpError status)
          else Inr (List.map_filter (ics_item P c) (ics_events c text)))"

section \<open>The JSON API extractor\<close>

text \<open>\<^verbatim>\<open>a || b || ... || z\<close>: the first truthy operand, the last one if there is none.\<close>

fun or_chain :: "jv list \<Rightarrow> jv" where
  "or_chain [] = Undefined"
| "or_chain [a] = a"
| "or_chain (a # b # bs) = or_else a (or_chain (b # bs))"

text \<open>
  \<^verbatim>\<open>e.k1 || e.k2 || ... || tail\<close>: reading a property of \<^verbatim>\<open>null\<close> raises, and the first
  read is always made.
\<close>

definition props_or :: "jv \<Rightarrow> string list \<Rightarrow> jv list \<Rightarrow> err + jv" where
  "props_or e ks tail =
     (if e = Undefined \<or> e = Null then Inl TypeError
      else Inr (or_chain (map (read_prop e) ks @ tail)))"

text \<open>
  \<^verbatim>\<open>cfg.map?.f ? pick(e, cfg.map.f) : dflt\<close>, where \<open>dflt\<close> is evaluated only when the map
  has no path for the field.
\<close>

definition mapped :: "cfg \<Rightarrow> (field_map \<Rightarrow> string) \<Rightarrow> jv \<Rightarrow> err + jv \<Rightarrow> err + jv" where
  "mapped c f e dflt = (if map_field c f \<noteq> [] then pick e (map_field c f) else dflt)"

text \<open>
  \<^verbatim>\<open>
  const title = safe(cfg.map?.title ? pick(e, cfg.map.title) : (e.title || e.name));
  const link  = toAbs(safe(cfg.map?.link ? pick(e, cfg.map.link) : (e.url || e.link)) || cfg.api, cfg.api);
  const date  = safe(cfg.map?.date ? pick(e, cfg.map.date) : (e.start_date || e.start || e.date || ''));
  const venue = safe(cfg.map?.venue ? pick(e, cfg.map.venue) : (e?.venue?.name || e.venue || cfg.venue || ''));
  let img = '';
  if (cfg.map?.image) img = safe(pick(e, cfg.map.image) || '');
  else img = safe(e.image || e.featured_image || (Array.isArray(e.images) ? e.images[0] : ''));
  img = toAbs(img, link);
  const textBlob = `${title} ${venue}`;
  if (!cfg._filter(textBlob)) continue;
  out.push({ title: (cfg.town ? `[${cfg.town}] ` : '') + title, link,
    guid: link + '#' + norm(title) + '#' + norm(date), pubDate: rfc822(date),
    description: [venue, date].filter(Boolean).join(' -- '), image: img,
    town: cfg.town || '', venue: cfg.venue || venue || '' });
  \<close>
\<close>

definition first_of :: "jv \<Rightarrow> jv" where
  "first_of v = (case v of Arr (x # xs) \<Rightarrow> x | _ \<Rightarrow> Undefined)"

definition json_image :: "cfg \<Rightarrow> jv \<Rightarrow> err + jv" where
  "json_image c e =
     (if map_field c map_image \<noteq> [] then
        and_then (pick e (map_field c map_image)) (\<lambda>v. Inr (or_else v (Str [])))
      else
        and_then (get e ''images'') (\<lambda>imgs.
          props_or e [''image'', ''featured_image'']
            [if isArray imgs then first_of imgs else Str []]))"

definition json_draft :: "platform \<Rightarrow> cfg \<Rightarrow> jv \<Rightarrow> err + draft" where
  "json_draft P c e =
     and_then (mapped c map_title e (props_or e [''title'', ''name''] [])) (\<lambda>tv.
     and_then (mapped c map_link e (props_or e [''url'', ''link''] [])) (\<lambda>lv.
     and_then (mapped c map_date e (props_or e [''start_date'', ''start'', ''date''] [Str []])) (\<lambda>dv.
     and_then (mapped c map_venue e
                 (and_then (get e ''venue'') (\<lambda>v.
                    Inr (or_chain [opt_get v ''name'', v, Str (c_venue c), Str []])))) (\<lambda>vv.
     and_then (json_image c e) (\<lambda>iv.
       let title' = safe tv;
           link' = toAbs P (or_str (safe lv) (c_api c)) (c_api c);
           date' = safe dv;
           venue' = safe vv;
           img = toAbs P (safe iv) link'
       in Inr \<lparr>d_title = title', d_link = link', d_date = date',
                d_desc = join_nonempty [venue', date'], d_image = img,
                d_venue = or_str (or_str (c_venue c) venue') [],
                d_guid = guid_of link' title' date',
                d_blob = title' @ '' '' @ venue'\<rparr>)))))"

definition json_item :: "platform \<Rightarrow> cfg \<Rightarrow> jv \<Rightarrow> err + event option" where
  "json_item P c e = and_then (json_draft P c e) (\<lambda>d. Inr (emit P c d))"

text \<open>The loop over the list: the first item that raises ends the extraction.\<close>

fun json_items :: "platform \<Rightarrow> cfg \<Rightarrow> jv list \<Rightarrow> err + event list" where
  "json_items P c [] = Inr []"
| "json_items P c (e # es) =
     and_then (json_item P c e) (\<lambda>r.
     and_then (json_items P c es) (\<lambda>rs.
       Inr (case r of None \<Rightarrow> rs | Some x \<Rightarrow> x # rs)))"

text \<open>
  \<^verbatim>\<open>
  const list = Array.isArray(pick(data, cfg.map?.path))
    ? pick(data, cfg.map.path)
    : (Array.isArray(data) ? data : []);
  \<close>
\<close>

definition json_list :: "cfg \<Rightarrow> jv \<Rightarrow> err + jv list" where
  "json_list c data =
     and_then (pick data (map_field c map_path)) (\<lambda>p.
       Inr (if isArray p then elems p else if isArray data then elems data else []))"

text \<open>
  \<^verbatim>\<open>
  const res = await fetch(cfg.api, { headers: { ... 'accept': 'application/json' } });
  if (!res.ok) throw new Error(`JSON ${res.status} ${cfg.api}`);
  const data = await res.json();
  \<close>
  The body is the value that \<^verbatim>\<open>res.json()\<close> parses, \<open>None\<close> when it is not JSON.
\<close>

definition scrapeJSON :: "platform \<Rightarrow> cfg \<Rightarrow> jv option response \<Rightarrow> err + event list" where
  "scrapeJSON P c res =
     (case res of
        Rejected \<Rightarrow> Inl TransportError
      | Response status body \<Rightarrow>
          if \<not> res_ok status then Inl (HttpError status)
          else (case body of
                  None \<Rightarrow> Inl SyntaxError
                | Some data \<Rightarrow> and_then (json_list c data) (json_items P c)))"

section \<open>The structured-data (JSON-LD) extractor\<close>

text \<open>
  \<^verbatim>\<open>
  for (const raw of scripts) {
    try {
      const json = JSON.parse(raw);
      const arr = [];
      if (Array.isArray(json)) arr.push(...json);
      else {
        arr.push(json);
        if (Array.isArray(json['@graph'])) arr.push(...json['@graph']);
      }
      for (const node of arr) {
        if (!node) continue;
        if (node['@type'] === 'Event') events.push(node);
        if (Array.isArray(node.event)) node.event.forEach(e => { if (e['@type'] === 'Event') events.push(e); });
      }
    } catch {}
  }
  \<close>
  A script is given by the value it parses to, \<open>None\<close> when it is not JSON. Whatever
  raises inside the \<^verbatim>\<open>try\<close> ends the work on that script and keeps the events pushed so
  far: \<^verbatim>\<open>json['@graph']\<close> raises when the script is \<^verbatim>\<open>null\<close>, \<^verbatim>\<open>e['@type']\<close> raises when an
  entry of \<^verbatim>\<open>node.event\<close> is \<^verbatim>\<open>null\<close>.
\<close>

definition is_event :: "jv \<Rightarrow> bool" where
  "is_event v = (read_prop v ''@type'' = Str ''Event'')"

text \<open>The events pushed by the \<^verbatim>\<open>forEach\<close>, and whether it ran to its end.\<close>

fun ld_each :: "jv list \<Rightarrow> jv list \<times> bool" where
  "ld_each [] = ([], True)"
| "ld_each (e # es) =
     (if e = Null \<or> e = Undefined then ([], False)
      else (case ld_each es of (r, done) \<Rightarrow> ((if is_event e then [e] else []) @ r, done)))"

fun ld_scan :: "jv list \<Rightarrow> jv list" where
  "ld_scan [] = []"
| "ld_scan (node # nodes) =
     (if \<not> truthy node then ld_scan nodes
      else
        (let own = (if is_event node then [node] else []);
             ev = read_prop node ''event''
         in if isArray ev then
              (case ld_each (elems ev) of
                 (r, done) \<Rightarrow> own @ r @ (if done then ld_scan nodes else []))
            else own @ ld_scan nodes))"

definition ld_block :: "jv option \<Rightarrow> jv list" where
  "ld_block raw =
     (case raw of
        None \<Rightarrow> []
      | Some json \<Rightarrow>
          if isArray json then ld_scan (elems json)
          else if json = Null \<or> json = Undefined then []
          else ld_scan (json # (if isArray (read_prop json ''@graph'')
                                then elems (read_prop json ''@graph'') else [])))"

text \<open>
  \<^verbatim>\<open>
  let img = '';
  const ri = e.image;
  if (typeof ri === 'string') img = ri;
  else if (ri && typeof ri === 'object' && ri.url) img = ri.url;
  else if (Array.isArray(ri) && ri.length) img = typeof ri[0] === 'string' ? ri[0] : (ri[0]?.url || '');
  \<close>
  \<^verbatim>\<open>typeof\<close> is \<^verbatim>\<open>'object'\<close> for objects and arrays (and \<^verbatim>\<open>null\<close>, which is not truthy).
\<close>

definition is_string :: "jv \<Rightarrow> bool" where
  "is_string v = (case v of Str s \<Rightarrow> True | _ \<Rightarrow> False)"

definition ld_image :: "jv \<Rightarrow> jv" where
  "ld_image ri =
     (if is_string ri then ri
      else if (case ri of Obj kvs \<Rightarrow> True | Arr xs \<Rightarrow> True | _ \<Rightarrow> False) \<and>
              truthy (read_prop ri ''url'') then read_prop ri ''url''
      else if isArray ri \<and> elems ri \<noteq> [] then
        (if is_string (first_of ri) then first_of ri
         else or_else (opt_get (first_of ri) ''url'') (Str []))
      else Str [])"

text \<open>
  \<^verbatim>\<open>
  const title = safe(e.name);
  const url   = toAbs(safe(e.url) || cfg.url, cfg.url);
  const start = safe(e.startDate || e.startTime);
  const venue = safe(e?.location?.name || cfg.venue);
  ...
  img = toAbs(safe(img), cfg.url);
  const textBlob = `${title} ${venue}`;
  if (!cfg._filter(textBlob)) continue;
  out.push({ title: ..., link: url, guid: url + '#' + norm(title) + '#' + norm(start),
    pubDate: rfc822(start), description: [venue, start].filter(Boolean).join(' -- '),
    image: img, town: cfg.town || '', venue: cfg.venue || venue || '' });
  \<close>
  The events collected above are objects, so no read of a property raises here.
\<close>

definition ld_draft :: "platform \<Rightarrow> cfg \<Rightarrow> jv \<Rightarrow> draft" where
  "ld_draft P c e =
     (let title' = safe (read_prop e ''name'');
          url = toAbs P (or_str (safe (read_prop e ''url'')) (c_url c)) (c_url c);
          start = safe (or_else (read_prop e ''startDate'') (read_prop e ''startTime''));
          venue' = safe (or_else (opt_get (opt_get e ''location'') ''name'') (Str (c_venue c)));
          img = toAbs P (safe (ld_image (read_prop e ''image''))) (c_url c)
      in \<lparr>d_title = title', d_link = url, d_date = start,
          d_desc = join_nonempty [venue', start], d_image = img,
          d_venue = or_str (or_str (c_venue c) venue') [],
          d_guid = guid_of url title' start,
          d_blob = title' @ '' '' @ venue'\<rparr>)"

text \<open>
  The page gives the scripts of type \<^verbatim>\<open>application/ld+json\<close> after the navigation and
  the settle delay.
\<close>

definition scrapeJSONLD :: "platform \<Rightarrow> cfg \<Rightarrow> jv option list \<Rightarrow> event list" where
  "scrapeJSONLD P c scripts =
     List.map_filter (\<lambda>e. emit P c (ld_draft P c e)) (concat (map ld_block scripts))"

section \<open>The RSS and Atom extractor\<close>

text \<open>
  \<^verbatim>\<open>html.match(/<img[^>]+src=["']([^"']+)["']/i)\<close>, the first group of the match. At a
  place where \<^verbatim>\<open><img\<close> stands, \<^verbatim>\<open>[^>]+\<close> takes at least one character and no \<^verbatim>\<open>>\<close>, as
  many as it can while the rest still matches; the group is a non-empty run without
  quotation marks that a quotation mark follows.
\<close>

definition quote :: "char \<Rightarrow> bool" where
  "quote c = (c = CHR 0x22 \<or> c = CHR 0x27)"

definition src_at :: "string \<Rightarrow> string option" where
  "src_at t =
     (if toLowerCase (take 4 t) = ''src='' \<and> list_ex quote (take 1 (drop 4 t)) then
        (let cap = takeWhile (\<lambda>c. \<not> quote c) (drop 5 t)
         in if cap \<noteq> [] \<and> drop (5 + length cap) t \<noteq> [] then Some cap else None)
      else None)"

definition img_tag_src :: "string \<Rightarrow> string option" where
  "img_tag_src t =
     (let run = takeWhile (\<lambda>c. c \<noteq> CHR ''>'') t
      in case filter (\<lambda>j. src_at (drop j t) \<noteq> None) (rev [1..<Suc (length run)]) of
           [] \<Rightarrow> None
         | j # js \<Rightarrow> src_at (drop j t))"

fun img_src :: "string \<Rightarrow> string" where
  "img_src [] = []"
| "img_src (c # cs) =
     (if toLowerCase (take 4 (c # cs)) = ''<img'' then
        (case img_tag_src (drop 4 (c # cs)) of
           Some u \<Rightarrow> u
         | None \<Rightarrow> img_src cs)
      else img_src cs)"

text \<open>
  \<^verbatim>\<open>
  const link =
    e.link?.['@_href'] ||
    (Array.isArray(e.link) ? (e.link.find(l => l['@_href'])?.['@_href'] || e.link[0]) : e.link) ||
    e.guid || cfg.rss;
  \<close>
  \<^verbatim>\<open>l['@_href']\<close> raises on an entry of the list that is \<^verbatim>\<open>null\<close>.
\<close>

fun find_href :: "jv list \<Rightarrow> err + jv" where
  "find_href [] = Inr Undefined"
| "find_href (l # ls) =
     (if l = Null \<or> l = Undefined then Inl TypeError
      else if truthy (read_prop l ''@_href'') then Inr l
      else find_href ls)"

definition rss_link :: "cfg \<Rightarrow> jv \<Rightarrow> err + jv" where
  "rss_link c e =
     and_then (get e ''link'') (\<lambda>l.
       if truthy (opt_get l ''@_href'') then Inr (opt_get l ''@_href'')
       else
         and_then (if isArray l
                   then and_then (find_href (elems l)) (\<lambda>f.
                          Inr (or_else (opt_get f ''@_href'') (first_of l)))
                   else Inr l) (\<lambda>m.
           Inr (or_chain [m, read_prop e ''guid'', Str (c_rss c)])))"

text \<open>\<^verbatim>\<open>e.k?.['#text'] || e.k\<close>, for each key of the list in turn.\<close>

definition text_or_self :: "jv \<Rightarrow> string list \<Rightarrow> jv list" where
  "text_or_self e ks = concat (map (\<lambda>k. [opt_get (read_prop e k) ''#text'', read_prop e k]) ks)"

text \<open>
  \<^verbatim>\<open>
  let img =
    e['media:content']?.['@_url'] ||
    (Array.isArray(e['media:content']) ? e['media:content'][0]?.['@_url'] : '') ||
    (e.enclosure && e.enclosure['@_type'] && (''+e.enclosure['@_type']).startsWith('image/')
       ? e.enclosure['@_url'] : (e.enclosure?.['@_url'] || '')) ||
    (() => {
      const html = (e['content:encoded']?.['#text'] || e['content:encoded'] || desc || '') + '';
      const m = html.match(/<img[^>]+src=["']([^"']+)["']/i);
      return m ? m[1] : '';
    })();
  \<close>
\<close>

definition rss_image :: "jv \<Rightarrow> string \<Rightarrow> jv" where
  "rss_image e desc =
     (let mc = read_prop e ''media:content'';
          en = read_prop e ''enclosure''
      in or_chain
           [opt_get mc ''@_url'',
            (if isArray mc then opt_get (first_of mc) ''@_url'' else Str []),
            (if truthy en \<and> truthy (read_prop en ''@_type'') \<and>
                startsWith (to_str (read_prop en ''@_type'')) ''image/''
             then read_prop en ''@_url''
             else or_else (opt_get en ''@_url'') (Str [])),
            Str (img_src (to_str (or_chain
              (text_or_self e [''content:encoded''] @ [Str desc, Str []]))))])"

text \<open>
  \<^verbatim>\<open>
  const title = safe(e.title?.['#text'] || e.title || e['media:title'] || '');
  const desc = safe(e['content:encoded']?.['#text'] || e['content:encoded'] || e.description?.['#text']
    || e.description || e.summary?.['#text'] || e.summary || '');
  const pub  = safe(e.pubDate || e.updated || e.published || new Date().toUTCString());
  const prettyTitle = (cfg.town ? `[${cfg.town}] ` : '') + title;
  const prettyDesc  = [cfg.venue, desc].filter(Boolean).join(' -- ');
  const imageAbs    = img ? toAbs(img, link) : '';
  const textBlob = `${title} ${prettyDesc}`;
  if (!cfg._filter(textBlob)) continue;
  out.push({ title: prettyTitle, link: toAbs(link, cfg.rss), guid: (link || cfg.rss) + '#' + norm(title),
    pubDate: rfc822(pub), description: prettyDesc, image: imageAbs,
    town: cfg.town || '', venue: cfg.venue || '' });
  \<close>
  The link and the image of an entry can be values that are not strings; a field of the
  record that is not a string is carried as \<^verbatim>\<open>String()\<close> renders it, which is how the feed
  and the de-duplication read it.
\<close>

definition rss_draft :: "platform \<Rightarrow> cfg \<Rightarrow> jv \<Rightarrow> err + draft" where
  "rss_draft P c e =
     and_then (rss_link c e) (\<lambda>link'.
       let title' = safe (or_chain (text_or_self e [''title''] @ [read_prop e ''media:title'', Str []]));
           desc = safe (or_chain (text_or_self e [''content:encoded'', ''description'', ''summary'']
                    @ [Str []]));
           pub = safe (or_chain [read_prop e ''pubDate'', read_prop e ''updated'',
                    read_prop e ''published'', Str (toUTCString P (Date_now P))]);
           img = rss_image e desc;
           prettyDesc = join_nonempty [c_venue c, desc];
           imageAbs = (if truthy img then toAbs_val P img link' else Str [])
       in Inr \<lparr>d_title = title',
                d_link = to_str (toAbs_val P link' (Str (c_rss c))),
                d_date = pub,
                d_desc = prettyDesc,
                d_image = to_str imageAbs,
                d_venue = c_venue c,
                d_guid = to_str (or_else link' (Str (c_rss c))) @ ''#'' @ norm title',
                d_blob = title' @ '' '' @ prettyDesc\<rparr>)"

fun rss_items :: "platform \<Rightarrow> cfg \<Rightarrow> jv list \<Rightarrow> err + event list" where
  "rss_items P c [] = Inr []"
| "rss_items P c (e # es) =
     and_then (rss_draft P c e) (\<lambda>d.
     and_then (rss_items P c es) (\<lambda>rs.
       Inr (case emit P c d of None \<Rightarrow> rs | Some x \<Rightarrow> x # rs)))"

text \<open>
  \<^verbatim>\<open>
  const parsed  = parser.parse(xml);
  const channel = parsed.rss?.channel || parsed.feed || {};
  const entries = channel.item || channel.entry || [];
  const arr     = Array.isArray(entries) ? entries : [entries];
  \<close>
  The body of the response is the value that the XML parser gives for it.
\<close>

definition rss_entries :: "jv \<Rightarrow> err + jv list" where
  "rss_entries parsed =
     and_then (get parsed ''rss'') (\<lambda>r.
       let channel = or_chain [opt_get r ''channel'', read_prop parsed ''feed'', Obj []];
           entries = or_chain [read_prop channel ''item'', read_prop channel ''entry'', Arr []]
       in Inr (if isArray entries then elems entries else [entries]))"

definition scrapeRSS :: "platform \<Rightarrow> cfg \<Rightarrow> jv response \<Rightarrow> err + event list" where
  "scrapeRSS P c res =
     (case res of
        Rejected \<Rightarrow> Inl TransportError
      | Response status parsed \<Rightarrow>
          if \<not> res_ok status then Inl (HttpError status)
          else and_then (rss_entries parsed) (rss_items P c))"

section \<open>The selector resolver\<close>

text \<open>
  \<^verbatim>\<open>
  async function firstExistingSelector(page, candidates, timeoutMs = 8000) {
    if (!candidates) return null;
    const list = candidates.split(',').map(s => s.trim()).filter(Boolean);
    const start = Date.now();
    for (;;) {
      for (const sel of list) {
        try {
          const count = await page.locator(sel).count();
          if (count > 0) return sel;
        } catch {}
      }
      if (Date.now() - start > timeoutMs) return null;
      await sleep(250);
    }
  }
  \<close>
  The live page is what the resolver observes of it: \<open>probe r sel\<close> is the answer of
  \<^verbatim>\<open>page.locator(sel).count()\<close> in round \<open>r\<close> of the loop (\<open>None\<close> when it raises), and
  \<open>elapsed r\<close> is \<^verbatim>\<open>Date.now() - start\<close> as read at the end of round \<open>r\<close>. The loop need not
  end, so its result is optional: \<open>None\<close> is a resolver that never returns,
  \<open>Some None\<close> is the answer \<^verbatim>\<open>null\<close>.
\<close>

record live =
  probe :: "nat \<Rightarrow> string \<Rightarrow> nat option"
  elapsed :: "nat \<Rightarrow> int"

definition candidate_list :: "string \<Rightarrow> string list" where
  "candidate_list candidates = filter (\<lambda>s. s \<noteq> []) (map trim (split_str candidates '',''))"

definition matches :: "live \<Rightarrow> nat \<Rightarrow> string \<Rightarrow> bool" where
  "matches pg r sel = (case probe pg r sel of Some n \<Rightarrow> 0 < n | None \<Rightarrow> False)"

partial_function (option) poll :: "live \<Rightarrow> string list \<Rightarrow> int \<Rightarrow> nat \<Rightarrow> string option option" where
  "poll pg list timeoutMs r =
     (case find (matches pg r) list of
        Some sel \<Rightarrow> Some (Some sel)
      | None \<Rightarrow> if elapsed pg r > timeoutMs then Some None else poll pg list timeoutMs (Suc r))"

declare poll.simps [code]

definition firstExistingSelector :: "live \<Rightarrow> string \<Rightarrow> int \<Rightarrow> string option option" where
  "firstExistingSelector pg candidates timeoutMs =
     (if candidates = [] then Some None
      else poll pg (candidate_list candidates) timeoutMs 0)"

section \<open>The DOM extractor\<close>

text \<open>
  An element handle is what the extractor reads of it. For an item, \<^verbatim>\<open>el.$(sel)\<close> gives
  a handle or \<^verbatim>\<open>null\<close>. Of a handle, the extractor reads
  \<^item> the property \<^verbatim>\<open>innerText\<close> through \<^verbatim>\<open>getProperty\<close> and \<^verbatim>\<open>jsonValue\<close> (\<open>text_prop\<close>),
  \<^item> the text through \<^verbatim>\<open>innerText()\<close> (\<open>inner_text\<close>),
  \<^item> attributes through \<^verbatim>\<open>getAttribute\<close>, \<^verbatim>\<open>null\<close> for an attribute that is not there.
  The two reads of the text are guarded by \<^verbatim>\<open>try\<close> in the source, and \<open>None\<close> stands for a
  read that raises. The calls that the source does not guard (\<^verbatim>\<open>$\<close>, \<^verbatim>\<open>getAttribute\<close>, the
  navigation) are taken to return: when one raises, so does the extractor, and the
  source contributes nothing.
\<close>

record handle =
  text_prop :: "jv option"
  inner_text :: "string option"
  attr :: "string \<Rightarrow> string option"

type_synonym element = "string \<Rightarrow> handle option"

text \<open>
  \<^verbatim>\<open>
  async function innerTextSafe(handle) {
    if (!handle) return '';
    try { return safe(await (await handle.getProperty('innerText')).jsonValue()); }
    catch { return ''; }
  }
  \<close>
\<close>

definition innerTextSafe :: "handle option \<Rightarrow> string" where
  "innerTextSafe h =
     (case h of
        None \<Rightarrow> []
      | Some n \<Rightarrow> (case text_prop n of None \<Rightarrow> [] | Some v \<Rightarrow> safe v))"

text \<open>\<^verbatim>\<open>cfg.title.split(',').map(s => s.trim())\<close>: the selectors of a field, empty ones kept.\<close>

definition selectors :: "string \<Rightarrow> string list" where
  "selectors s = map trim (split_str s '','')"

text \<open>
  \<^verbatim>\<open>
  let title = '';
  for (const tSel of cfg.title.split(',').map(s => s.trim())) {
    const tEl = await el.$(tSel);
    title = await innerTextSafe(tEl);
    if (title) break;
  }
  \<close>
\<close>

fun dom_title :: "element \<Rightarrow> string list \<Rightarrow> string" where
  "dom_title el [] = []"
| "dom_title el (tSel # sels) =
     (let title' = innerTextSafe (el tSel) in if title' \<noteq> [] then title' else dom_title el sels)"

text \<open>
  \<^verbatim>\<open>
  let href = '';
  for (const aSel of cfg.link.split(',').map(s => s.trim())) {
    const aEl = await el.$(aSel);
    if (aEl) {
      href = safe(await aEl.getAttribute('href'));
      if (href) break;
    }
  }
  if (href && href.startsWith('/')) href = toAbs(href, cfg.url);
  \<close>
\<close>

definition safe_attr :: "handle \<Rightarrow> string \<Rightarrow> string" where
  "safe_attr h a = (case attr h a of None \<Rightarrow> [] | Some s \<Rightarrow> trim s)"

fun dom_href :: "element \<Rightarrow> string list \<Rightarrow> string" where
  "dom_href el [] = []"
| "dom_href el (aSel # sels) =
     (case el aSel of
        None \<Rightarrow> dom_href el sels
      | Some aEl \<Rightarrow>
          (let href = safe_attr aEl ''href'' in if href \<noteq> [] then href else dom_href el sels))"

definition dom_link :: "platform \<Rightarrow> cfg \<Rightarrow> element \<Rightarrow> string" where
  "dom_link P c el =
     (let href = dom_href el (selectors (c_link c))
      in if href \<noteq> [] \<and> startsWith href ''/'' then toAbs P href (c_url c) else href)"

text \<open>
  \<^verbatim>\<open>
  let date = '';
  for (const dSel of cfg.date.split(',').map(s => s.trim())) {
    const dEl = await el.$(dSel);
    if (dEl) { try { date = safe(await dEl.innerText()); } catch {} if (date) break; }
  }
  \<close>
\<close>

fun dom_date :: "element \<Rightarrow> string list \<Rightarrow> string" where
  "dom_date el [] = []"
| "dom_date el (dSel # sels) =
     (case el dSel of
        None \<Rightarrow> dom_date el sels
      | Some dEl \<Rightarrow>
          (let date' = (case inner_text dEl of None \<Rightarrow> [] | Some s \<Rightarrow> trim s)
           in if date' \<noteq> [] then date' else dom_date el sels))"

text \<open>
  \<^verbatim>\<open>
  const pickFirstFromSrcset = (srcset) => {
    if (!srcset) return '';
    const first = srcset.split(',')[0] || '';
    return first.trim().split(/\s+/)[0] || '';
  };
  \<close>
\<close>

definition pickFirstFromSrcset :: "string \<Rightarrow> string" where
  "pickFirstFromSrcset srcset =
     (if srcset = [] then []
      else takeWhile (\<lambda>c. \<not> is_ws c) (trim (case split_str srcset '','' of [] \<Rightarrow> [] | x # xs \<Rightarrow> x)))"

text \<open>
  \<^verbatim>\<open>styleAttr.match(/background-image:\s*url\((['"]?)([^'")]+)\1\)/i)\<close>, the second group of
  the match: after \<^verbatim>\<open>background-image:\<close>, white space and \<^verbatim>\<open>url(\<close>, an optional quotation
  mark, a non-empty run without quotation marks and closing parentheses, the same
  quotation mark again if there was one, and the closing parenthesis.
\<close>

definition bg_url_at :: "string \<Rightarrow> string option" where
  "bg_url_at t =
     (let u = dropWhile is_ws t in
      if toLowerCase (take 4 u) = ''url('' then
        (let q = takeWhile quote (take 1 (drop 4 u));
             body = drop (4 + length q) u;
             cap = takeWhile (\<lambda>c. \<not> quote c \<and> c \<noteq> CHR '')'') body
         in if cap \<noteq> [] \<and> take (length q + 1) (drop (length cap) body) = q @ '')''
            then Some cap else None)
      else None)"

fun bg_url :: "string \<Rightarrow> string" where
  "bg_url [] = []"
| "bg_url (c # cs) =
     (if toLowerCase (take 17 (c # cs)) = ''background-image:'' then
        (case bg_url_at (drop 17 (c # cs)) of
           Some u \<Rightarrow> u
         | None \<Rightarrow> bg_url cs)
      else bg_url cs)"

text \<open>
  \<^verbatim>\<open>
  let imageUrl = '';
  for (const iSel of cfg.image.split(',').map(s => s.trim())) {
    const iEl = await el.$(iSel);
    if (!iEl) continue;
    const cand = await Promise.all([ iEl.getAttribute('src'), iEl.getAttribute('data-src'),
      iEl.getAttribute('data-original'), iEl.getAttribute('data-lazy'),
      iEl.getAttribute('data-image'), iEl.getAttribute('srcset'), iEl.getAttribute('style') ]);
    let [src, dataSrc, dataOrig, dataLazy, dataImage, srcset, styleAttr] = cand.map(x => safe(x));
    if (!src && srcset) src = pickFirstFromSrcset(srcset);
    if (!src && styleAttr) {
      const m = styleAttr.match(/background-image:\s*url\((['"]?)([^'")]+)\1\)/i);
      if (m && m[2]) src = m[2];
    }
    imageUrl = toAbs(src || dataSrc || dataOrig || dataLazy || dataImage || '', cfg.url);
    if (imageUrl) break;
  }
  \<close>
\<close>

definition handle_image :: "platform \<Rightarrow> cfg \<Rightarrow> handle \<Rightarrow> string" where
  "handle_image P c iEl =
     (let src0 = safe_attr iEl ''src'';
          src1 = (if src0 = [] \<and> safe_attr iEl ''srcset'' \<noteq> []
                  then pickFirstFromSrcset (safe_attr iEl ''srcset'') else src0);
          src2 = (if src1 = [] \<and> safe_attr iEl ''style'' \<noteq> [] \<and> bg_url (safe_attr iEl ''style'') \<noteq> []
                  then bg_url (safe_attr iEl ''style'') else src1)
      in toAbs P
           (or_str src2 (or_str (safe_attr iEl ''data-src'') (or_str (safe_attr iEl ''data-original'')
              (or_str (safe_attr iEl ''data-lazy'') (or_str (safe_attr iEl ''data-image'') [])))))
           (c_url c))"

fun dom_image :: "platform \<Rightarrow> cfg \<Rightarrow> element \<Rightarrow> string list \<Rightarrow> string" where
  "dom_image P c el [] = []"
| "dom_image P c el (iSel # sels) =
     (case el iSel of
        None \<Rightarrow> dom_image P c el sels
      | Some iEl \<Rightarrow>
          (let imageUrl = handle_image P c iEl
           in if imageUrl \<noteq> [] then imageUrl else dom_image P c el sels))"

text \<open>
  \<^verbatim>\<open>
  if (!title && !href) continue;
  const textBlob = `${title} ${date} ${cfg.venue || ''}`;
  if (!cfg._filter(textBlob)) continue;
  if (!imageUrl && href) imageUrl = await fetchDetailImage(href);
  out.push({ title: (cfg.town ? `[${cfg.town}] ` : '') + title, link: href || cfg.url,
    guid: (href || cfg.url) + '#' + norm(title) + '#' + norm(date), pubDate: rfc822(date),
    description: [cfg.venue, date].filter(Boolean).join(' -- '), image: imageUrl || '',
    town: cfg.town || '', venue: cfg.venue || '' });
  \<close>
  \<open>fetched\<close> is what \<^verbatim>\<open>fetchDetailImage\<close> answers for a link: the image that it mines from
  the page behind it, the empty string when there is none or the fetch fails (it never
  raises). The result for a card is \<open>None\<close> when the card is passed over.
\<close>

definition dom_draft :: "platform \<Rightarrow> cfg \<Rightarrow> (string \<Rightarrow> string) \<Rightarrow> element \<Rightarrow> draft option" where
  "dom_draft P c fetched el =
     (let title' = dom_title el (selectors (c_title c));
          href = dom_link P c el;
          date' = dom_date el (selectors (c_date c));
          imageUrl = dom_image P c el (selectors (c_image c))
      in if title' = [] \<and> href = [] then None
         else Some
           \<lparr>d_title = title',
            d_link = or_str href (c_url c),
            d_date = date',
            d_desc = join_nonempty [c_venue c, date'],
            d_image = (if imageUrl = [] \<and> href \<noteq> [] then fetched href else imageUrl),
            d_venue = c_venue c,
            d_guid = guid_of (or_str href (c_url c)) title' date',
            d_blob = title' @ '' '' @ date' @ '' '' @ c_venue c\<rparr>)"

definition dom_item :: "platform \<Rightarrow> cfg \<Rightarrow> (string \<Rightarrow> string) \<Rightarrow> element \<Rightarrow> event option" where
  "dom_item P c fetched el =
     (case dom_draft P c fetched el of None \<Rightarrow> None | Some d \<Rightarrow> emit P c d)"

text \<open>
  \<^verbatim>\<open>
  const cards = await page.locator(itemSel).elementHandles();
  const take = Math.min(cards.length, cfg.max || 220);
  const out = [];
  for (let i = 0; i < take; i++) { const el = cards[i]; ... }
  \<close>
\<close>

definition dom_take :: "cfg \<Rightarrow> element list \<Rightarrow> nat" where
  "dom_take c cards = nat (min (int (length cards)) (if c_max c \<noteq> 0 then c_max c else 220))"

definition dom_cards :: "platform \<Rightarrow> cfg \<Rightarrow> (string \<Rightarrow> string) \<Rightarrow> element list \<Rightarrow> event list" where
  "dom_cards P c fetched cards =
     List.map_filter (dom_item P c fetched) (take (dom_take c cards) cards)"

text \<open>
  The page as the extractor meets it once the navigation, the cookie banners, the
  scrolling and the load-more click are behind it:
  \<^item> \<open>cf_block\<close>: the text of the body shows the block page of the content network;
  \<^item> \<open>ld_scripts\<close>: the structured-data scripts, for a configuration with \<^verbatim>\<open>jsonldFirst\<close>;
  \<^item> \<open>live1\<close>: the page under the first resolution of the item selector;
  \<^item> \<open>handles sel\<close>: the element handles of \<^verbatim>\<open>page.locator(sel)\<close>;
  \<^item> \<open>detail\<close>: the answers of \<^verbatim>\<open>fetchDetailImage\<close>;
  \<^item> \<open>live2\<close>: the page after the reload that follows an empty result.
  \<^verbatim>\<open>
  if (/Checking your browser|cf-error|enable cookies/i.test(bodyText)) { ...; return []; }
  if (cfg.jsonldFirst) {
    const jsonldItems = await scrapeJSONLD(page, cfg);
    if (jsonldItems.length > 0) return jsonldItems;
  }
  const itemSel = await firstExistingSelector(page, cfg.item, 8000);
  if (!itemSel) { await saveDebug(page, cfg, 'no-selector'); return []; }
  ...
  if (out.length === 0) {
    await page.reload(...); ...
    const again = await firstExistingSelector(page, cfg.item, 4000);
    if (!again) { await saveDebug(page, cfg, 'empty'); return []; }
  }
  return out;
  \<close>
  The result is \<open>None\<close> when a resolution of the selector never returns.
\<close>

record page =
  cf_block :: bool
  ld_scripts :: "jv option list"
  live1 :: live
  handles :: "string \<Rightarrow> element list"
  detail :: "string \<Rightarrow> string"
  live2 :: live

definition scrapeDOM :: "platform \<Rightarrow> cfg \<Rightarrow> page \<Rightarrow> event list option" where
  "scrapeDOM P c pg =
     (if cf_block pg then Some []
      else if c_jsonldFirst c \<and> scrapeJSONLD P c (ld_scripts pg) \<noteq> []
      then Some (scrapeJSONLD P c (ld_scripts pg))
      else
        (case firstExistingSelector (live1 pg) (c_item c) 8000 of
           None \<Rightarrow> None
         | Some None \<Rightarrow> Some []
         | Some (Some itemSel) \<Rightarrow>
             (let out = dom_cards P c (detail pg) (handles pg itemSel)
              in if out = [] then
                   (case firstExistingSelector (live2 pg) (c_item c) 4000 of
                      None \<Rightarrow> None
                    | Some again \<Rightarrow> Some [])
                 else Some out)))"

section \<open>Merge and de-duplication\<close>

text \<open>
  \<^verbatim>\<open>
  const seen  = new Set();
  const dedup = [];
  for (const it of items) {
    const k = norm(it.title) + '|' + norm(it.description) + '|' + norm(it.link);
    if (seen.has(k)) continue;
    seen.add(k);
    dedup.push(it);
  }
  \<close>
  The loop state is the pair of the set \<open>seen\<close> and the list \<open>dedup\<close>.
\<close>

definition dedup_key :: "event \<Rightarrow> string" where
  "dedup_key it = norm (title it) @ ''|'' @ norm (description it) @ ''|'' @ norm (link it)"

definition dedup_step :: "string set \<times> event list \<Rightarrow> event \<Rightarrow> string set \<times> event list" where
  "dedup_step st it =
     (let k = dedup_key it in
      if k \<in> fst st then st else (insert k (fst st), snd st @ [it]))"

definition dedup :: "event list \<Rightarrow> event list" where
  "dedup items = snd (foldl dedup_step ({}, []) items)"

text \<open>The records of a list whose key is new: neither in \<open>seen\<close> nor met earlier in the list.\<close>

fun firsts :: "string set \<Rightarrow> event list \<Rightarrow> event list" where
  "firsts seen [] = []"
| "firsts seen (it # items) =
     (if dedup_key it \<in> seen then firsts seen items
      else it # firsts (insert (dedup_key it) seen) items)"

section \<open>The feed\<close>

text \<open>
  \<^verbatim>\<open>const rss = buildRSS(dedup.slice(0, 500));\<close>: the records that reach the feed.
\<close>

definition feed_items :: "event list \<Rightarrow> event list" where
  "feed_items items = take 500 (dedup items)"

text \<open>Three records; the third repeats the first up to letter case and spacing.\<close>

definition example_items :: "event list" where
  "example_items =
     [\<lparr>title = ''Jazz Night'', link = ''https://x.example/e/1'', guid = ''g1'', pubDate = ''d1'',
        description = ''The Hall'', image = [], town = [], venue = []\<rparr>,
      \<lparr>title = ''Trivia'', link = ''https://x.example/e/2'', guid = ''g2'', pubDate = ''d2'',
        description = ''The Hall'', image = [], town = [], venue = []\<rparr>,
      \<lparr>title = ''  JAZZ   night '', link = ''https://X.example/e/1'', guid = ''g3'',
        pubDate = ''d3'', description = ''the  hall'', image = [], town = [], venue = []\<rparr>]"

section \<open>Drafts of a whole list\<close>

text \<open>
  The drafts of the items of a list, when none of them raises: the extractors whose items
  can raise stop at the first one that does.
\<close>

fun collect :: "('a \<Rightarrow> err + 'b) \<Rightarrow> 'a list \<Rightarrow> err + 'b list" where
  "collect f [] = Inr []"
| "collect f (x # xs) =
     and_then (f x) (\<lambda>y. and_then (collect f xs) (\<lambda>ys. Inr (y # ys)))"

section \<open>The earlier revision\<close>

text \<open>
  The file \<^verbatim>\<open>src/scraper.mjs\<close> holds an earlier revision of the pipeline. Two of its
  functions differ from the ones above in what they do, and are modelled here under
  their own names.

  Its JSON extractor has no \<^verbatim>\<open>map\<close>, no filter and no image, and its records have five
  fields:
  \<^verbatim>\<open>
  const list = Array.isArray(data?.events) ? data.events : (Array.isArray(data) ? data : []);
  return list.map(e => {
    const title = safe(e.title || e.name);
    const link  = toAbs(safe(e.url || e.link) || cfg.api, cfg.api);
    const date  = safe(e.start_date || e.start || e.date || '');
    const venue = safe(e?.venue?.name || e.venue || cfg.venue || '');
    return { title: (cfg.town ? `[${cfg.town}] ` : '') + title, link,
      guid: link + '#' + norm(title) + '#' + norm(date), pubDate: rfc822(date),
      description: [venue, date].filter(Boolean).join(' -- ') };
  });
  \<close>
\<close>

record event_mjs =
  title_mjs :: string
  link_mjs :: string
  guid_mjs :: string
  pubDate_mjs :: string
  description_mjs :: string

definition json_list_mjs :: "jv \<Rightarrow> jv list" where
  "json_list_mjs data =
     (if isArray (opt_get data ''events'') then elems (opt_get data ''events'')
      else if isArray data then elems data else [])"

definition json_entry_mjs :: "platform \<Rightarrow> cfg \<Rightarrow> jv \<Rightarrow> err + event_mjs" where
  "json_entry_mjs P c e =
     and_then (props_or e [''title'', ''name''] []) (\<lambda>tv.
     and_then (props_or e [''url'', ''link''] []) (\<lambda>lv.
     and_then (props_or e [''start_date'', ''start'', ''date''] [Str []]) (\<lambda>dv.
     and_then (get e ''venue'') (\<lambda>v.
       let title' = safe tv;
           link' = toAbs P (or_str (safe lv) (c_api c)) (c_api c);
           date' = safe dv;
           venue' = safe (or_chain [opt_get v ''name'', v, Str (c_venue c), Str []])
       in Inr \<lparr>title_mjs = town_prefix c title',
                link_mjs = link',
                guid_mjs = guid_of link' title' date',
                pubDate_mjs = rfc822 P date',
                description_mjs = join_nonempty [venue', date']\<rparr>))))"

definition scrapeJSON_mjs :: "platform \<Rightarrow> cfg \<Rightarrow> jv option response \<Rightarrow> err + event_mjs list" where
  "scrapeJSON_mjs P c res =
     (case res of
        Rejected \<Rightarrow> Inl TransportError
      | Response status body \<Rightarrow>
          if \<not> res_ok status then Inl (HttpError status)
          else (case body of
                  None \<Rightarrow> Inl SyntaxError
                | Some data \<Rightarrow> collect (json_entry_mjs P c) (json_list_mjs data)))"

text \<open>
  Its selector resolver has neither the test of the candidate string nor the \<^verbatim>\<open>try\<close>
  around the probe:
  \<^verbatim>\<open>
  async function firstExistingSelector(page, candidates, timeoutMs=6000) {
    const list = candidates.split(',').map(s => s.trim()).filter(Boolean);
    const start = Date.now();
    for (;;) {
      for (const sel of list) {
        const count = await page.locator(sel).count();
        if (count > 0) return sel;
      }
      if (Date.now() - start > timeoutMs) return null;
      await sleep(250);
    }
  }
  \<close>
  So a probe that raises ends the resolver with that error, and so does a candidate
  string that is absent (\<open>None\<close>; the empty string is split like any other). The probes of
  a round run in list order up to the first one that matches or raises.
\<close>

fun probe_all :: "live \<Rightarrow> nat \<Rightarrow> string list \<Rightarrow> err + string option" where
  "probe_all pg r [] = Inr None"
| "probe_all pg r (sel # sels) =
     (case probe pg r sel of
        None \<Rightarrow> Inl LocatorError
      | Some count \<Rightarrow> if 0 < count then Inr (Some sel) else probe_all pg r sels)"

partial_function (option) poll_mjs ::
  "live \<Rightarrow> string list \<Rightarrow> int \<Rightarrow> nat \<Rightarrow> (err + string option) option" where
  "poll_mjs pg list timeoutMs r =
     (case probe_all pg r list of
        Inl e \<Rightarrow> Some (Inl e)
      | Inr found \<Rightarrow>
          if found \<noteq> None then Some (Inr found)
          else if elapsed pg r > timeoutMs then Some (Inr None)
          else poll_mjs pg list timeoutMs (Suc r))"

declare poll_mjs.simps [code]

definition firstExistingSelector_mjs ::
  "live \<Rightarrow> string option \<Rightarrow> int \<Rightarrow> (err + string option) option" where
  "firstExistingSelector_mjs pg candidates timeoutMs =
     (case candidates of
        None \<Rightarrow> Some (Inl TypeError)
      | Some cs \<Rightarrow> poll_mjs pg (candidate_list cs) timeoutMs 0)"

section \<open>The statements of the specification that differ from the code\<close>

text \<open>
  The filter as the specification words it: a record is kept iff its blob contains no
  exclude term and, when include is non-empty, contains at least one include term.
\<close>

definition spec_keep :: "cfg \<Rightarrow> string \<Rightarrow> bool" where
  "spec_keep c blob =
     (let f = (case c_filters c of Some f \<Rightarrow> f
               | None \<Rightarrow> \<lparr>flt_include = None, flt_exclude = None\<rparr>);
          ex = (case flt_exclude f of Some ws \<Rightarrow> ws | None \<Rightarrow> []);
          inc = (case flt_include f of Some ws \<Rightarrow> ws | None \<Rightarrow> [])
      in \<not> some_term ex (toLowerCase blob) \<and> (inc = [] \<or> some_term inc (toLowerCase blob)))"

text \<open>
  The cap of the DOM extractor as the specification words it: an item without title and
  link is not counted toward \<^verbatim>\<open>max\<close>, so the cap bounds the items that survive.
\<close>

definition spec_dom_cards ::
  "platform \<Rightarrow> cfg \<Rightarrow> (string \<Rightarrow> string) \<Rightarrow> element list \<Rightarrow> event list" where
  "spec_dom_cards P c fetched cards =
     (let kept = filter (\<lambda>el. dom_draft P c fetched el \<noteq> None) cards
      in List.map_filter (dom_item P c fetched)
           (take (nat (if c_max c \<noteq> 0 then c_max c else 220)) kept))"

text \<open>
  The field of an ICS block as the specification words it: the value after the colon of
  the first line that starts with the key.
\<close>

definition lines :: "string \<Rightarrow> string list" where
  "lines s = concat (map (\<lambda>l. split_str l [CHR 0x0D]) (split_str s [CHR 0x0A]))"

definition spec_ics_get :: "string \<Rightarrow> string \<Rightarrow> string" where
  "spec_ics_get block k =
     (case find (\<lambda>l. startsWith l (k @ '':'')) (lines block) of
        None \<Rightarrow> []
      | Some l \<Rightarrow> trim (drop (length k + 1) l))"

section \<open>Examples\<close>

text \<open>A configuration with nothing set, and the sources of the examples.\<close>

definition site :: cfg where
  "site =
     \<lparr>c_key = ''example'', c_mode = [], c_url = [], c_api = [], c_ics = [], c_rss = [],
      c_item = [], c_title = [], c_link = [], c_date = [], c_image = [], c_town = [],
      c_venue = [], c_waitMs = None, c_max = 0, c_jsonldFirst = False, c_filters = None,
      c_map = None\<rparr>"

definition no_map :: field_map where
  "no_map = \<lparr>map_path = [], map_title = [], map_link = [], map_date = [], map_venue = [],
     map_image = []\<rparr>"

text \<open>
  The JSON source of the specification's scenario:
  \<^verbatim>\<open>{"events":[{"name":"Jazz Night","url":"/e/1","start_date":"2024-05-01","venue":{"name":"The Hall"}}]}\<close>
\<close>

definition jazz_api :: cfg where
  "jazz_api = site\<lparr>c_mode := ''json'', c_api := ''https://api.example/v1/events'',
     c_town := ''Roswell''\<rparr>"

definition jazz_event :: jv where
  "jazz_event =
     Obj [(''name'', Str ''Jazz Night''), (''url'', Str ''/e/1''),
          (''start_date'', Str ''2024-05-01''), (''venue'', Obj [(''name'', Str ''The Hall'')])]"

definition jazz_body :: jv where
  "jazz_body = Obj [(''events'', Arr [jazz_event])]"

text \<open>An event whose date is announced later: \<^verbatim>\<open>[{"title":"Jazz Night","start_date":"TBA"}]\<close>.\<close>

definition tba_body :: jv where
  "tba_body = Arr [Obj [(''title'', Str ''Jazz Night''), (''start_date'', Str ''TBA'')]]"

text \<open>The filters of the specification's example, and a present but empty include list.\<close>

definition jazz_filters :: cfg where
  "jazz_filters = site\<lparr>c_filters := Some \<lparr>flt_include = Some [''jazz''], flt_exclude = Some [''bingo'']\<rparr>\<rparr>"

definition empty_include :: cfg where
  "empty_include = site\<lparr>c_filters := Some \<lparr>flt_include = Some [], flt_exclude = None\<rparr>\<rparr>"

text \<open>A JSON source that includes on a term of the date.\<close>

definition may_only :: cfg where
  "may_only = jazz_api\<lparr>c_map := Some (no_map\<lparr>map_path := ''events''\<rparr>),
     c_filters := Some \<lparr>flt_include = Some [''2024-05''], flt_exclude = None\<rparr>\<rparr>"

text \<open>
  A feed with one entry:
  \<^verbatim>\<open><item><title>Jazz Night</title><link>https://x.example/e/1</link><pubDate>2024-05-01</pubDate></item>\<close>
\<close>

definition jazz_feed :: jv where
  "jazz_feed =
     Obj [(''rss'', Obj [(''channel'', Obj [(''item'',
       Obj [(''title'', Str ''Jazz Night''), (''link'', Str ''https://x.example/e/1''),
            (''pubDate'', Str ''2024-05-01'')])])])]"

definition feed_site :: cfg where
  "feed_site = site\<lparr>c_mode := ''rss'', c_rss := ''https://x.example/feed''\<rparr>"

text \<open>
  A listing page \<^verbatim>\<open>https://x.example/list\<close> with three cards: an empty one, one whose link
  is \<^verbatim>\<open>/events/42\<close>, one whose link is \<^verbatim>\<open>events/43\<close>.
\<close>

definition text_handle :: "string \<Rightarrow> handle" where
  "text_handle s = \<lparr>text_prop = Some (Str s), inner_text = Some s, attr = (\<lambda>a. None)\<rparr>"

definition link_handle :: "string \<Rightarrow> handle" where
  "link_handle h =
     \<lparr>text_prop = Some (Str []), inner_text = Some [],
      attr = (\<lambda>a. if a = ''href'' then Some h else None)\<rparr>"

definition event_card :: "string \<Rightarrow> string \<Rightarrow> element" where
  "event_card t h =
     (\<lambda>sel. if sel = ''h2'' then Some (text_handle t)
            else if sel = ''a'' then Some (link_handle h)
            else None)"

definition empty_card :: element where
  "empty_card = (\<lambda>sel. None)"

definition listing :: cfg where
  "listing = site\<lparr>c_mode := ''dom'', c_url := ''https://x.example/list'', c_item := ''li'',
     c_title := ''h2'', c_link := ''a'', c_date := ''time'', c_image := ''img''\<rparr>"

definition no_detail :: "string \<Rightarrow> string" where
  "no_detail u = []"

text \<open>
  A calendar \<^verbatim>\<open>https://cal.example/feed.ics\<close> with one event, and a block in which the text
  \<^verbatim>\<open>URL:\<close> stands inside the description, before the line of the \<^verbatim>\<open>URL\<close> field.
\<close>

definition newline :: string where
  "newline = [CHR 0x0D, CHR 0x0A]"

definition trivia_block :: string where
  "trivia_block =
     newline @ ''SUMMARY:Trivia'' @ newline @ ''DTSTART:20240601T190000'' @ newline @
     ''END:VEVENT'' @ newline @ ''END:VCALENDAR'' @ newline"

definition trivia_calendar :: string where
  "trivia_calendar =
     ''BEGIN:VCALENDAR'' @ newline @ ''VERSION:2.0'' @ newline @ ''BEGIN:VEVENT'' @ trivia_block"

definition calendar_site :: cfg where
  "calendar_site = site\<lparr>c_mode := ''ics'', c_ics := ''https://cal.example/feed.ics''\<rparr>"

definition described_block :: string where
  "described_block =
     newline @ ''SUMMARY:Trivia'' @ newline @
     ''DESCRIPTION:Tickets at URL:https://tickets.example/buy'' @ newline @
     ''URL:https://cal.example/trivia'' @ newline @ ''END:VEVENT'' @ newline"

text \<open>A live page with every probe that raises replaced by one that answers zero.\<close>

definition quiet :: "live \<Rightarrow> live" where
  "quiet pg = pg\<lparr>probe := (\<lambda>r sel. case probe pg r sel of None \<Rightarrow> Some 0 | Some n \<Rightarrow> Some n)\<rparr>"

text \<open>
  A live page on which \<^verbatim>\<open>h2\<close> appears in the third round of polling, the selector
  \<^verbatim>\<open>li[\<close> always raises and nothing else ever matches; a round takes 250 ms.
\<close>

definition slow_page :: live where
  "slow_page =
     \<lparr>probe = (\<lambda>r sel. if sel = ''li['' then None
                        else if sel = ''h2'' \<and> 2 \<le> r then Some 3 else Some 0),
      elapsed = (\<lambda>r. 250 * int r)\<rparr>"

section \<open>Properties of the de-duplication loop\<close>

lemma foldl_dedup_step:
  "foldl dedup_step (seen, out) items =
     (seen \<union> dedup_key ` set items, out @ firsts seen items)"
proof (induction items arbitrary: seen out)
  case Nil
  show ?case by simp
next
  case (Cons it items)
  show ?case
  proof (cases "dedup_key it \<in> seen")
    case True
    then have "dedup_step (seen, out) it = (seen, out)"
      by (simp add: dedup_step_def)
    with True Cons.IH [of seen out] show ?thesis
      by (auto simp: insert_absorb)
  next
    case False
    then have "dedup_step (seen, out) it = (insert (dedup_key it) seen, out @ [it])"
      by (simp add: dedup_step_def)
    with False Cons.IH [of "insert (dedup_key it) seen" "out @ [it]"] show ?thesis
      by auto
  qed
qed

lemma dedup_firsts: "dedup items = firsts {} items"
  by (simp add: dedup_def foldl_dedup_step)

lemma firsts_keys_notin: "it \<in> set (firsts seen items) \<Longrightarrow> dedup_key it \<notin> seen"
  by (induction items arbitrary: seen) (auto split: if_splits)

lemma firsts_distinct: "distinct (map dedup_key (firsts seen items))"
proof (induction items arbitrary: seen)
  case Nil
  show ?case by simp
next
  case (Cons it items)
  have "dedup_key it \<notin> dedup_key ` set (firsts (insert (dedup_key it) seen) items)"
  proof
    assume "dedup_key it \<in> dedup_key ` set (firsts (insert (dedup_key it) seen) items)"
    then obtain x where x: "x \<in> set (firsts (insert (dedup_key it) seen) items)"
      and k: "dedup_key x = dedup_key it"
      by auto
    from firsts_keys_notin [OF x] k show False by simp
  qed
  with Cons.IH show ?case by simp
qed

lemma firsts_length: "length (firsts seen items) \<le> length items"
  by (induction items arbitrary: seen) (auto simp: le_SucI)

text \<open>A list that the loop leaves whole: its keys are new and pairwise distinct.\<close>

lemma firsts_id:
  "distinct (map dedup_key items) \<Longrightarrow> dedup_key ` set items \<inter> seen = {}
     \<Longrightarrow> firsts seen items = items"
  by (induction items arbitrary: seen) auto

lemma firsts_idem: "firsts {} (firsts {} items) = firsts {} items"
  by (rule firsts_id) (simp_all add: firsts_distinct)

text \<open>Position \<open>i\<close> survives exactly when no earlier position (nor \<open>seen\<close>) has its key.\<close>

lemma firsts_filter:
  "firsts seen items =
     filter (\<lambda>it. dedup_key it \<notin> seen) (map (\<lambda>i. items ! i)
       (filter (\<lambda>i. \<forall>j<i. dedup_key (items ! j) \<noteq> dedup_key (items ! i)) [0..<length items]))"
proof (induction items arbitrary: seen rule: rev_induct)
  case Nil
  show ?case by simp
next
  case (snoc it items)
  have app: "firsts s (xs @ [x]) =
      firsts s xs @ (if dedup_key x \<in> s \<union> dedup_key ` set xs then [] else [x])" for s xs x
    by (induction xs arbitrary: s) auto
  have old: "filter (\<lambda>i. \<forall>j<i. dedup_key ((items @ [it]) ! j) \<noteq> dedup_key ((items @ [it]) ! i))
        [0..<length items] =
      filter (\<lambda>i. \<forall>j<i. dedup_key (items ! j) \<noteq> dedup_key (items ! i)) [0..<length items]"
    by (rule filter_cong) (auto simp: nth_append)
  have mp: "map (\<lambda>i. (items @ [it]) ! i) (filter P [0..<length items]) =
      map (\<lambda>i. items ! i) (filter P [0..<length items])" for P
    by (rule map_cong) (auto simp: nth_append)
  have new: "(\<forall>j<length items. dedup_key ((items @ [it]) ! j) \<noteq> dedup_key it) \<longleftrightarrow>
      dedup_key it \<notin> dedup_key ` set items"
  proof
    assume a: "\<forall>j<length items. dedup_key ((items @ [it]) ! j) \<noteq> dedup_key it"
    show "dedup_key it \<notin> dedup_key ` set items"
    proof
      assume "dedup_key it \<in> dedup_key ` set items"
      then obtain j where "j < length items" "dedup_key (items ! j) = dedup_key it"
        by (auto simp: in_set_conv_nth)
      with a show False by (simp add: nth_append)
    qed
  next
    assume n: "dedup_key it \<notin> dedup_key ` set items"
    show "\<forall>j<length items. dedup_key ((items @ [it]) ! j) \<noteq> dedup_key it"
    proof (intro allI impI)
      fix j assume j: "j < length items"
      then have "items ! j \<in> set items" by simp
      with n have "dedup_key (items ! j) \<noteq> dedup_key it" by (metis imageI)
      with j show "dedup_key ((items @ [it]) ! j) \<noteq> dedup_key it"
        by (simp add: nth_append)
    qed
  qed
  show ?case
    using snoc.IH [of seen] by (simp add: app old mp new)
qed

section \<open>Claims\<close>

text \<open>
  C3. De-duplication is a reduction by key, the key being made of the normalized title,
  description and link: running it twice is running it once, it never lengthens the
  list, no two retained records agree on normalized title, description and link, and the
  record retained for a key is the first one in source order (position \<open>i\<close> of the input
  is retained exactly when no earlier position has the same key).
\<close>

theorem dedup_set_reduction:
  "dedup (dedup L) = dedup L \<and>
   length (dedup L) \<le> length L \<and>
   (\<forall>i j. i < j \<and> j < length (dedup L) \<longrightarrow>
      \<not> (norm (title (dedup L ! i)) = norm (title (dedup L ! j)) \<and>
         norm (description (dedup L ! i)) = norm (description (dedup L ! j)) \<and>
         norm (link (dedup L ! i)) = norm (link (dedup L ! j)))) \<and>
   dedup L = map (\<lambda>i. L ! i)
     (filter (\<lambda>i. \<forall>j<i. dedup_key (L ! j) \<noteq> dedup_key (L ! i)) [0..<length L])"
proof -
  have idem: "dedup (dedup L) = dedup L"
    by (simp add: dedup_firsts firsts_idem)
  have len: "length (dedup L) \<le> length L"
    by (simp add: dedup_firsts firsts_length)
  have dist: "distinct (map dedup_key (dedup L))"
    by (simp add: dedup_firsts firsts_distinct)
  have pair: "\<not> (norm (title (dedup L ! i)) = norm (title (dedup L ! j)) \<and>
         norm (description (dedup L ! i)) = norm (description (dedup L ! j)) \<and>
         norm (link (dedup L ! i)) = norm (link (dedup L ! j)))"
    if "i < j" "j < length (dedup L)" for i j
  proof
    assume eq: "norm (title (dedup L ! i)) = norm (title (dedup L ! j)) \<and>
         norm (description (dedup L ! i)) = norm (description (dedup L ! j)) \<and>
         norm (link (dedup L ! i)) = norm (link (dedup L ! j))"
    then have "dedup_key (dedup L ! i) = dedup_key (dedup L ! j)"
      by (simp add: dedup_key_def)
    with that have "map dedup_key (dedup L) ! i = map dedup_key (dedup L) ! j"
      by simp
    with dist that show False
      by (simp add: distinct_conv_nth)
  qed
  have first: "dedup L = map (\<lambda>i. L ! i)
     (filter (\<lambda>i. \<forall>j<i. dedup_key (L ! j) \<noteq> dedup_key (L ! i)) [0..<length L])"
    using firsts_filter [of "{}" L] by (simp add: dedup_firsts)
  from idem len pair first show ?thesis by blast
qed

theorem dedup_set_reduction_witness:
  "(0::nat) < 1 \<and> 1 < length (dedup example_items) \<and>
   \<not> (norm (title (dedup example_items ! 0)) = norm (title (dedup example_items ! 1)) \<and>
      norm (description (dedup example_items ! 0)) = norm (description (dedup example_items ! 1)) \<and>
      norm (link (dedup example_items ! 0)) = norm (link (dedup example_items ! 1))) \<and>
   dedup_key (example_items ! 2) = dedup_key (example_items ! 0) \<and>
   dedup example_items = [example_items ! 0, example_items ! 1] \<and>
   dedup (dedup example_items) = dedup example_items"
proof -
  have e: "dedup example_items = [example_items ! 0, example_items ! 1]"
    by code_simp
  have k: "dedup_key (example_items ! 2) = dedup_key (example_items ! 0)"
    by code_simp
  have len: "1 < length (dedup example_items)"
    by (simp add: e)
  from dedup_set_reduction [of example_items]
  have "\<not> (norm (title (dedup example_items ! 0)) = norm (title (dedup example_items ! 1)) \<and>
      norm (description (dedup example_items ! 0)) = norm (description (dedup example_items ! 1)) \<and>
      norm (link (dedup example_items ! 0)) = norm (link (dedup example_items ! 1)))"
    and "dedup (dedup example_items) = dedup example_items"
    using len by blast+
  with len e k show ?thesis by blast
qed


section \<open>URL resolution\<close>

text \<open>
  C10. \<open>toAbs\<close> always returns a string (it is a total function into strings, with no
  error result): the resolved URL when the URL constructor succeeds, and when it raises
  the reference if that is non-empty, else the base. So when the constructor raises and
  neither the reference nor the base is an absolute URL, what is stored in the record is
  not an absolute URL.
\<close>

theorem toAbs_total:
  "(\<forall>u. URL_href P href (Some base) = Some u \<longrightarrow> toAbs P href base = u) \<and>
   (URL_href P href (Some base) = None \<longrightarrow>
      toAbs P href base = (if href \<noteq> [] then href else base)) \<and>
   (URL_href P href (Some base) = None \<and> \<not> absolute_url P href \<and> \<not> absolute_url P base \<longrightarrow>
      \<not> absolute_url P (toAbs P href base))"
  by (simp add: toAbs_def)

theorem toAbs_total_witness:
  "URL_href (runtime 0) ''/events/42'' (Some ''https://x.example/list'') =
     Some ''https://x.example/events/42'' \<and>
   toAbs (runtime 0) ''/events/42'' ''https://x.example/list'' = ''https://x.example/events/42'' \<and>
   URL_href (runtime 0) ''not a url'' (Some ''also bad'') = None \<and>
   \<not> absolute_url (runtime 0) ''not a url'' \<and> \<not> absolute_url (runtime 0) ''also bad'' \<and>
   toAbs (runtime 0) ''not a url'' ''also bad'' = ''not a url'' \<and>
   toAbs (runtime 0) [] ''also bad'' = ''also bad'' \<and>
   \<not> absolute_url (runtime 0) (toAbs (runtime 0) ''not a url'' ''also bad'')"
proof -
  have a: "URL_href (runtime 0) ''/events/42'' (Some ''https://x.example/list'') =
      Some ''https://x.example/events/42''"
    by code_simp
  have b: "URL_href (runtime 0) ''not a url'' (Some ''also bad'') = None"
    by code_simp
  have c: "\<not> absolute_url (runtime 0) ''not a url''" "\<not> absolute_url (runtime 0) ''also bad''"
    by code_simp+
  have d: "URL_href (runtime 0) [] (Some ''also bad'') = None"
    by code_simp
  from toAbs_total [of "runtime 0" "''/events/42''" "''https://x.example/list''"] a
  have 1: "toAbs (runtime 0) ''/events/42'' ''https://x.example/list'' =
      ''https://x.example/events/42''"
    by blast
  from toAbs_total [of "runtime 0" "''not a url''" "''also bad''"] b c
  have 2: "toAbs (runtime 0) ''not a url'' ''also bad'' = ''not a url''"
    and 3: "\<not> absolute_url (runtime 0) (toAbs (runtime 0) ''not a url'' ''also bad'')"
    by auto
  from toAbs_total [of "runtime 0" "[]" "''also bad''"] d
  have 4: "toAbs (runtime 0) [] ''also bad'' = ''also bad''"
    by auto
  from a b c 1 2 3 4 show ?thesis by blast
qed

section \<open>Publication dates\<close>

lemma rfc822_cases:
  "rfc822 P [] = toUTCString P (Date_now P) \<and>
   (d \<noteq> [] \<and> Date_parse P d = None \<longrightarrow> rfc822 P d = ''Invalid Date'') \<and>
   (d \<noteq> [] \<and> Date_parse P d = Some t \<longrightarrow> rfc822 P d = toUTCString P t)"
  by (simp add: rfc822_def)

text \<open>
  C2. When the date of the source is absent, the publication date is the current run
  time; when it is present and does not parse, the publication date is the text
  \<^verbatim>\<open>Invalid Date\<close>, not the current run time. The JSON source
  \<^verbatim>\<open>[{"title":"Jazz Night","start_date":"TBA"}]\<close> gives a record with that publication
  date, at whatever time the scraper runs.
\<close>

theorem pubDate_of_unparseable_date:
  "\<forall>now.
     map_sum id (map pubDate)
       (scrapeJSON (runtime now) (site\<lparr>c_api := ''https://api.example/events''\<rparr>)
          (Response 200 (Some tba_body))) = Inr [''Invalid Date''] \<and>
     rfc822 (runtime now) ''TBA'' = ''Invalid Date'' \<and>
     rfc822 (runtime now) [] = utc_string now"
proof (intro allI conjI)
  fix now
  show "map_sum id (map pubDate)
       (scrapeJSON (runtime now) (site\<lparr>c_api := ''https://api.example/events''\<rparr>)
          (Response 200 (Some tba_body))) = Inr [''Invalid Date'']"
    by code_simp
  show "rfc822 (runtime now) ''TBA'' = ''Invalid Date''"
    by code_simp
  show "rfc822 (runtime now) [] = utc_string now"
    by (simp add: rfc822_def runtime_def)
qed


section \<open>Filters\<close>

lemma cfg_filter_iff:
  "cfg_filter c blob \<longleftrightarrow>
     (case c_filters c of
        None \<Rightarrow> True
      | Some f \<Rightarrow>
          (\<forall>ex. flt_exclude f = Some ex \<longrightarrow> \<not> some_term ex (toLowerCase blob)) \<and>
          (\<forall>inc. flt_include f = Some inc \<longrightarrow> some_term inc (toLowerCase blob)))"
  by (auto simp: cfg_filter_def Let_def split: option.splits)

lemma emit_iff: "emit P c d \<noteq> None \<longleftrightarrow> cfg_filter c (d_blob d)"
  by (simp add: emit_def)

lemma map_filter_emit:
  "List.map_filter (emit P c) ds = map (push P c) (filter (\<lambda>d. cfg_filter c (d_blob d)) ds)"
  by (induction ds) (simp_all add: emit_def)

lemma map_filter_comp:
  "List.map_filter (\<lambda>x. g (f x)) xs = List.map_filter g (map f xs)"
  by (induction xs) (simp_all split: option.splits)

lemma map_filter_bind:
  "List.map_filter (\<lambda>x. case f x of None \<Rightarrow> None | Some y \<Rightarrow> g y) xs =
     List.map_filter g (List.map_filter f xs)"
  by (induction xs) (simp_all split: option.splits)

lemma json_items_collect:
  "json_items P c es =
     and_then (collect (json_draft P c) es) (\<lambda>ds. Inr (List.map_filter (emit P c) ds))"
  by (induction es) (simp_all add: and_then_def json_item_def split: sum.splits option.splits)

lemma rss_items_collect:
  "rss_items P c es =
     and_then (collect (rss_draft P c) es) (\<lambda>ds. Inr (List.map_filter (emit P c) ds))"
  by (induction es) (simp_all add: and_then_def split: sum.splits option.splits)

lemma dom_cards_drafts:
  "dom_cards P c fetched cards =
     List.map_filter (emit P c)
       (List.map_filter (dom_draft P c fetched) (take (dom_take c cards) cards))"
  unfolding dom_cards_def dom_item_def by (rule map_filter_bind)

lemma json_draft_blob:
  "json_draft P c e = Inr d \<Longrightarrow>
     \<exists>v. d_blob d = d_title d @ '' '' @ v \<and> d_desc d = join_nonempty [v, d_date d]"
  by (auto simp: json_draft_def and_then_def Let_def split: sum.splits)

text \<open>
  C4. In every extraction mode the records emitted are those of the items whose text
  blob passes the filter, in order. A blob passes a source without filters; with
  filters, it passes iff it contains no exclude term and, when an include list is
  present (even an empty one), contains an include term, the terms and the blob
  compared in lower case. The blob is the title, the date text and the configured venue
  in DOM mode; the title and the venue (of which the description is the join with the
  date) in JSON-LD and JSON modes; the title and the description in ICS and RSS modes.
\<close>

theorem filter_keeps:
  "(cfg_filter c blob \<longleftrightarrow>
      (case c_filters c of
         None \<Rightarrow> True
       | Some f \<Rightarrow>
           (\<forall>ex. flt_exclude f = Some ex \<longrightarrow> \<not> some_term ex (toLowerCase blob)) \<and>
           (\<forall>inc. flt_include f = Some inc \<longrightarrow> some_term inc (toLowerCase blob)))) \<and>
   dom_cards P c fetched cards =
     map (push P c) (filter (\<lambda>d. cfg_filter c (d_blob d))
       (List.map_filter (dom_draft P c fetched) (take (dom_take c cards) cards))) \<and>
   scrapeJSONLD P c scripts =
     map (push P c) (filter (\<lambda>d. cfg_filter c (d_blob d))
       (map (ld_draft P c) (concat (map ld_block scripts)))) \<and>
   json_items P c es =
     and_then (collect (json_draft P c) es)
       (\<lambda>ds. Inr (map (push P c) (filter (\<lambda>d. cfg_filter c (d_blob d)) ds))) \<and>
   List.map_filter (ics_item P c) evs =
     map (push P c) (filter (\<lambda>d. cfg_filter c (d_blob d)) (map (ics_draft P c) evs)) \<and>
   rss_items P c es =
     and_then (collect (rss_draft P c) es)
       (\<lambda>ds. Inr (map (push P c) (filter (\<lambda>d. cfg_filter c (d_blob d)) ds))) \<and>
   (\<forall>d. dom_draft P c fetched el = Some d \<longrightarrow>
      d_blob d = d_title d @ '' '' @ d_date d @ '' '' @ c_venue c) \<and>
   (\<exists>v. d_blob (ld_draft P c e) = d_title (ld_draft P c e) @ '' '' @ v \<and>
      d_desc (ld_draft P c e) = join_nonempty [v, d_date (ld_draft P c e)]) \<and>
   (\<forall>d. json_draft P c e = Inr d \<longrightarrow>
      (\<exists>v. d_blob d = d_title d @ '' '' @ v \<and> d_desc d = join_nonempty [v, d_date d])) \<and>
   d_blob (ics_draft P c ev) = d_title (ics_draft P c ev) @ '' '' @ d_desc (ics_draft P c ev) \<and>
   (\<forall>d. rss_draft P c e = Inr d \<longrightarrow> d_blob d = d_title d @ '' '' @ d_desc d)"
proof (intro conjI)
  show "cfg_filter c blob \<longleftrightarrow>
      (case c_filters c of
         None \<Rightarrow> True
       | Some f \<Rightarrow>
           (\<forall>ex. flt_exclude f = Some ex \<longrightarrow> \<not> some_term ex (toLowerCase blob)) \<and>
           (\<forall>inc. flt_include f = Some inc \<longrightarrow> some_term inc (toLowerCase blob)))"
    by (rule cfg_filter_iff)
  show "dom_cards P c fetched cards =
     map (push P c) (filter (\<lambda>d. cfg_filter c (d_blob d))
       (List.map_filter (dom_draft P c fetched) (take (dom_take c cards) cards)))"
    by (simp add: dom_cards_drafts map_filter_emit)
  show "scrapeJSONLD P c scripts =
     map (push P c) (filter (\<lambda>d. cfg_filter c (d_blob d))
       (map (ld_draft P c) (concat (map ld_block scripts))))"
    unfolding scrapeJSONLD_def
    by (simp only: map_filter_comp [of "emit P c" "ld_draft P c"] map_filter_emit)
  show "json_items P c es =
     and_then (collect (json_draft P c) es)
       (\<lambda>ds. Inr (map (push P c) (filter (\<lambda>d. cfg_filter c (d_blob d)) ds)))"
    by (simp add: json_items_collect map_filter_emit)
  show "List.map_filter (ics_item P c) evs =
     map (push P c) (filter (\<lambda>d. cfg_filter c (d_blob d)) (map (ics_draft P c) evs))"
    unfolding ics_item_def
    by (simp only: map_filter_comp [of "emit P c" "ics_draft P c"] map_filter_emit)
  show "rss_items P c es =
     and_then (collect (rss_draft P c) es)
       (\<lambda>ds. Inr (map (push P c) (filter (\<lambda>d. cfg_filter c (d_blob d)) ds)))"
    by (simp add: rss_items_collect map_filter_emit)
  show "\<forall>d. dom_draft P c fetched el = Some d \<longrightarrow>
      d_blob d = d_title d @ '' '' @ d_date d @ '' '' @ c_venue c"
    by (auto simp: dom_draft_def Let_def split: if_splits)
  show "\<exists>v. d_blob (ld_draft P c e) = d_title (ld_draft P c e) @ '' '' @ v \<and>
      d_desc (ld_draft P c e) = join_nonempty [v, d_date (ld_draft P c e)]"
    by (simp add: ld_draft_def Let_def)
  show "\<forall>d. json_draft P c e = Inr d \<longrightarrow>
      (\<exists>v. d_blob d = d_title d @ '' '' @ v \<and> d_desc d = join_nonempty [v, d_date d])"
    using json_draft_blob by blast
  show "d_blob (ics_draft P c ev) = d_title (ics_draft P c ev) @ '' '' @ d_desc (ics_draft P c ev)"
    by (simp add: ics_draft_def Let_def)
  show "\<forall>d. rss_draft P c e = Inr d \<longrightarrow> d_blob d = d_title d @ '' '' @ d_desc d"
    by (auto simp: rss_draft_def and_then_def Let_def split: sum.splits)
qed

theorem filter_keeps_witness:
  "c_filters jazz_filters = Some \<lparr>flt_include = Some [''jazz''], flt_exclude = Some [''bingo'']\<rparr> \<and>
   some_term [''bingo''] (toLowerCase ''Jazz Bingo Night'') \<and>
   \<not> cfg_filter jazz_filters ''Jazz Bingo Night'' \<and>
   \<not> some_term [''jazz''] (toLowerCase ''Trivia'') \<and>
   \<not> cfg_filter jazz_filters ''Trivia'' \<and>
   cfg_filter jazz_filters ''JAZZ night'' \<and>
   cfg_filter site ''Trivia'' \<and>
   c_filters empty_include = Some \<lparr>flt_include = Some [], flt_exclude = None\<rparr> \<and>
   \<not> cfg_filter empty_include ''Jazz Night''"
proof -
  have f: "c_filters jazz_filters =
      Some \<lparr>flt_include = Some [''jazz''], flt_exclude = Some [''bingo'']\<rparr>"
    by (simp add: jazz_filters_def site_def)
  have g: "c_filters site = None"
    by (simp add: site_def)
  have h: "c_filters empty_include = Some \<lparr>flt_include = Some [], flt_exclude = None\<rparr>"
    by (simp add: empty_include_def site_def)
  have s1: "some_term [''bingo''] (toLowerCase ''Jazz Bingo Night'')"
    by code_simp
  have s2: "\<not> some_term [''jazz''] (toLowerCase ''Trivia'')"
    by code_simp
  have s3: "some_term [''jazz''] (toLowerCase ''JAZZ night'')"
    "\<not> some_term [''bingo''] (toLowerCase ''JAZZ night'')"
    by code_simp+
  have s4: "\<not> some_term [] (toLowerCase ''Jazz Night'')"
    by (simp add: some_term_def)
  have k: "cfg_filter c blob \<longleftrightarrow>
      (case c_filters c of
         None \<Rightarrow> True
       | Some f \<Rightarrow>
           (\<forall>ex. flt_exclude f = Some ex \<longrightarrow> \<not> some_term ex (toLowerCase blob)) \<and>
           (\<forall>inc. flt_include f = Some inc \<longrightarrow> some_term inc (toLowerCase blob)))" for c blob
    using filter_keeps [where c = c and blob = blob] by (rule conjunct1)
  have 1: "\<not> cfg_filter jazz_filters ''Jazz Bingo Night''"
    by (simp add: k f s1)
  have 2: "\<not> cfg_filter jazz_filters ''Trivia''"
    by (simp add: k f s2)
  have 3: "cfg_filter jazz_filters ''JAZZ night''"
    by (simp add: k f s3)
  have 4: "cfg_filter site ''Trivia''"
    by (simp add: k g)
  have 5: "\<not> cfg_filter empty_include ''Jazz Night''"
    by (simp add: k h s4)
  from f h s1 s2 1 2 3 4 5 show ?thesis by blast
qed

text \<open>
  The claim as the specification has it fails on a source whose include list is present
  and empty: the code drops every record, the specification's filter keeps them. It also
  fails on the composition of the blob: a JSON source that includes on a term of the
  date drops a record whose description carries that term.
\<close>

theorem filter_keeps_counterexample:
  "\<not> cfg_filter empty_include ''Jazz Night'' \<and>
   spec_keep empty_include ''Jazz Night'' \<and>
   scrapeJSON (runtime 0) may_only (Response 200 (Some jazz_body)) = Inr [] \<and>
   map_sum id (map (\<lambda>r. includes_str (toLowerCase (description r)) ''2024-05''))
     (scrapeJSON (runtime 0) (may_only\<lparr>c_filters := None\<rparr>) (Response 200 (Some jazz_body))) =
     Inr [True]"
proof (intro conjI)
  show "\<not> cfg_filter empty_include ''Jazz Night''"
    by code_simp
  show "spec_keep empty_include ''Jazz Night''"
    by code_simp
  show "scrapeJSON (runtime 0) may_only (Response 200 (Some jazz_body)) = Inr []"
    by code_simp
  show "map_sum id (map (\<lambda>r. includes_str (toLowerCase (description r)) ''2024-05''))
     (scrapeJSON (runtime 0) (may_only\<lparr>c_filters := None\<rparr>) (Response 200 (Some jazz_body))) =
     Inr [True]"
    by code_simp
qed


section \<open>Record identifiers\<close>

lemma emitted_is_pushed:
  "r \<in> set (List.map_filter (emit P c) ds) \<Longrightarrow> \<exists>d\<in>set ds. r = push P c d"
  by (induction ds) (auto simp: emit_def split: if_splits)

lemma collect_member:
  "collect f xs = Inr ds \<Longrightarrow> d \<in> set ds \<Longrightarrow> \<exists>x\<in>set xs. f x = Inr d"
proof (induction xs arbitrary: ds)
  case Nil
  then show ?case by simp
next
  case (Cons x xs)
  from Cons.prems(1) obtain y ys where y: "f x = Inr y" and ys: "collect f xs = Inr ys"
    and ds: "ds = y # ys"
    by (auto simp: and_then_def split: sum.splits)
  show ?case
  proof (cases "d = y")
    case True
    with y show ?thesis by auto
  next
    case False
    with Cons.prems(2) ds have "d \<in> set ys" by simp
    from Cons.IH [OF ys this] show ?thesis by auto
  qed
qed

text \<open>What a record with the identifier of the four modes looks like.\<close>

lemma push_guid_of:
  "d_guid d = guid_of (d_link d) (d_title d) (d_date d) \<Longrightarrow>
     \<exists>t dt. title (push P c d) = town_prefix c t \<and> pubDate (push P c d) = rfc822 P dt \<and>
       guid (push P c d) = link (push P c d) @ ''#'' @ norm t @ ''#'' @ norm dt"
  by (auto simp: push_def guid_of_def)

lemma dom_draft_guid:
  "dom_draft P c fetched el = Some d \<Longrightarrow> d_guid d = guid_of (d_link d) (d_title d) (d_date d)"
  by (auto simp: dom_draft_def Let_def split: if_splits)

lemma ld_draft_guid:
  "d_guid (ld_draft P c e) =
     guid_of (d_link (ld_draft P c e)) (d_title (ld_draft P c e)) (d_date (ld_draft P c e))"
  by (simp add: ld_draft_def Let_def)

lemma json_draft_guid:
  "json_draft P c e = Inr d \<Longrightarrow> d_guid d = guid_of (d_link d) (d_title d) (d_date d)"
  by (auto simp: json_draft_def and_then_def Let_def split: sum.splits)

lemma ics_draft_guid:
  "d_guid (ics_draft P c ev) =
     guid_of (d_link (ics_draft P c ev)) (d_title (ics_draft P c ev)) (d_date (ics_draft P c ev))"
  by (simp add: ics_draft_def Let_def)

lemma rss_draft_guid:
  "rss_draft P c e = Inr d \<Longrightarrow>
     \<exists>v. rss_link c e = Inr v \<and>
       d_guid d = to_str (or_else v (Str (c_rss c))) @ ''#'' @ norm (d_title d) \<and>
       d_link d = to_str (toAbs_val P v (Str (c_rss c)))"
  by (auto simp: rss_draft_def and_then_def Let_def split: sum.splits)

lemma in_map_filter:
  "d \<in> set (List.map_filter f xs) \<Longrightarrow> \<exists>x\<in>set xs. f x = Some d"
  by (induction xs) (auto split: option.splits)

text \<open>
  C5. In the DOM, JSON-LD, JSON and ICS extractors the identifier of every emitted
  record is its link, \<^verbatim>\<open>#\<close>, the normalized title (the title before the town prefix),
  \<^verbatim>\<open>#\<close>, and the normalized date text from which the publication date is made. In the
  RSS extractor it is the link of the entry as found (before resolution, the feed URL
  when the entry has none), \<^verbatim>\<open>#\<close>, and the normalized title: it has no date part, and
  the link of the record is the resolved one.
\<close>

theorem guid_composition:
  "(\<forall>r\<in>set (dom_cards P c fetched cards).
      \<exists>t d. title r = town_prefix c t \<and> pubDate r = rfc822 P d \<and>
        guid r = link r @ ''#'' @ norm t @ ''#'' @ norm d) \<and>
   (\<forall>r\<in>set (scrapeJSONLD P c scripts).
      \<exists>t d. title r = town_prefix c t \<and> pubDate r = rfc822 P d \<and>
        guid r = link r @ ''#'' @ norm t @ ''#'' @ norm d) \<and>
   (\<forall>out. scrapeJSON P c jres = Inr out \<longrightarrow>
      (\<forall>r\<in>set out.
         \<exists>t d. title r = town_prefix c t \<and> pubDate r = rfc822 P d \<and>
           guid r = link r @ ''#'' @ norm t @ ''#'' @ norm d)) \<and>
   (\<forall>out. scrapeICS P c ires = Inr out \<longrightarrow>
      (\<forall>r\<in>set out.
         \<exists>t d. title r = town_prefix c t \<and> pubDate r = rfc822 P d \<and>
           guid r = link r @ ''#'' @ norm t @ ''#'' @ norm d)) \<and>
   (\<forall>out. scrapeRSS P c rres = Inr out \<longrightarrow>
      (\<forall>r\<in>set out.
         \<exists>t v. title r = town_prefix c t \<and>
           guid r = to_str (or_else v (Str (c_rss c))) @ ''#'' @ norm t \<and>
           link r = to_str (toAbs_val P v (Str (c_rss c)))))"
proof (intro conjI allI impI ballI)
  fix r assume "r \<in> set (dom_cards P c fetched cards)"
  then obtain d where d: "d \<in> set (List.map_filter (dom_draft P c fetched)
      (take (dom_take c cards) cards))" and r: "r = push P c d"
    unfolding dom_cards_drafts by (blast dest: emitted_is_pushed)
  from d obtain el where "dom_draft P c fetched el = Some d"
    by (blast dest: in_map_filter)
  then have "d_guid d = guid_of (d_link d) (d_title d) (d_date d)"
    by (rule dom_draft_guid)
  from push_guid_of [OF this, of P c] r
  show "\<exists>t d. title r = town_prefix c t \<and> pubDate r = rfc822 P d \<and>
      guid r = link r @ ''#'' @ norm t @ ''#'' @ norm d"
    by simp
next
  fix r assume "r \<in> set (scrapeJSONLD P c scripts)"
  then have "r \<in> set (List.map_filter (emit P c)
      (map (ld_draft P c) (concat (map ld_block scripts))))"
    unfolding scrapeJSONLD_def by (simp only: map_filter_comp [of "emit P c" "ld_draft P c"])
  then obtain d where d: "d \<in> set (map (ld_draft P c) (concat (map ld_block scripts)))"
    and r: "r = push P c d"
    by (blast dest: emitted_is_pushed)
  from d have "d_guid d = guid_of (d_link d) (d_title d) (d_date d)"
    by (auto simp: ld_draft_guid)
  from push_guid_of [OF this, of P c] r
  show "\<exists>t d. title r = town_prefix c t \<and> pubDate r = rfc822 P d \<and>
      guid r = link r @ ''#'' @ norm t @ ''#'' @ norm d"
    by simp
next
  fix out r assume out: "scrapeJSON P c jres = Inr out" and "r \<in> set out"
  from out obtain es where "json_items P c es = Inr out"
    by (auto simp: scrapeJSON_def and_then_def split: response.splits if_splits option.splits sum.splits)
  then obtain ds where ds: "collect (json_draft P c) es = Inr ds"
    and o: "out = List.map_filter (emit P c) ds"
    by (auto simp: json_items_collect and_then_def split: sum.splits)
  from o \<open>r \<in> set out\<close> obtain d where d: "d \<in> set ds" and r: "r = push P c d"
    by (blast dest: emitted_is_pushed)
  from collect_member [OF ds d] obtain e where "json_draft P c e = Inr d"
    by blast
  then have "d_guid d = guid_of (d_link d) (d_title d) (d_date d)"
    by (rule json_draft_guid)
  from push_guid_of [OF this, of P c] r
  show "\<exists>t d. title r = town_prefix c t \<and> pubDate r = rfc822 P d \<and>
      guid r = link r @ ''#'' @ norm t @ ''#'' @ norm d"
    by simp
next
  fix out r assume out: "scrapeICS P c ires = Inr out" and "r \<in> set out"
  from out obtain evs where "out = List.map_filter (ics_item P c) evs"
    by (auto simp: scrapeICS_def split: response.splits if_splits)
  then have "out = List.map_filter (emit P c) (map (ics_draft P c) evs)"
    unfolding ics_item_def by (simp only: map_filter_comp [of "emit P c" "ics_draft P c"])
  with \<open>r \<in> set out\<close> obtain d where d: "d \<in> set (map (ics_draft P c) evs)"
    and r: "r = push P c d"
    by (blast dest: emitted_is_pushed)
  from d have "d_guid d = guid_of (d_link d) (d_title d) (d_date d)"
    by (auto simp: ics_draft_guid)
  from push_guid_of [OF this, of P c] r
  show "\<exists>t d. title r = town_prefix c t \<and> pubDate r = rfc822 P d \<and>
      guid r = link r @ ''#'' @ norm t @ ''#'' @ norm d"
    by simp
next
  fix out r assume out: "scrapeRSS P c rres = Inr out" and "r \<in> set out"
  from out obtain es where "rss_items P c es = Inr out"
    by (auto simp: scrapeRSS_def and_then_def split: response.splits if_splits sum.splits)
  then obtain ds where ds: "collect (rss_draft P c) es = Inr ds"
    and o: "out = List.map_filter (emit P c) ds"
    by (auto simp: rss_items_collect and_then_def split: sum.splits)
  from o \<open>r \<in> set out\<close> obtain d where d: "d \<in> set ds" and r: "r = push P c d"
    by (blast dest: emitted_is_pushed)
  from collect_member [OF ds d] obtain e where "rss_draft P c e = Inr d"
    by blast
  from rss_draft_guid [OF this] r
  show "\<exists>t v. title r = town_prefix c t \<and>
      guid r = to_str (or_else v (Str (c_rss c))) @ ''#'' @ norm t \<and>
      link r = to_str (toAbs_val P v (Str (c_rss c)))"
    by (auto simp: push_def)
qed

theorem guid_composition_witness:
  "scrapeICS (runtime 0) calendar_site (Response 200 trivia_calendar) =
     Inr [\<lparr>title = ''Trivia'', link = ''https://cal.example/feed.ics'',
           guid = ''https://cal.example/feed.ics#trivia#20240601t190000'',
           pubDate = rfc822 (runtime 0) ''20240601T190000'',
           description = ''20240601T190000'', image = [], town = [], venue = []\<rparr>] \<and>
   (\<exists>t d. ''Trivia'' = town_prefix calendar_site t \<and>
      ''https://cal.example/feed.ics#trivia#20240601t190000'' =
        ''https://cal.example/feed.ics'' @ ''#'' @ norm t @ ''#'' @ norm d)"
proof -
  have e: "scrapeICS (runtime 0) calendar_site (Response 200 trivia_calendar) =
     Inr [\<lparr>title = ''Trivia'', link = ''https://cal.example/feed.ics'',
           guid = ''https://cal.example/feed.ics#trivia#20240601t190000'',
           pubDate = rfc822 (runtime 0) ''20240601T190000'',
           description = ''20240601T190000'', image = [], town = [], venue = []\<rparr>]"
    by code_simp
  from guid_composition [where P = "runtime 0" and c = calendar_site
      and ires = "Response 200 trivia_calendar"] e
  have "\<exists>t d. ''Trivia'' = town_prefix calendar_site t \<and>
      rfc822 (runtime 0) ''20240601T190000'' = rfc822 (runtime 0) d \<and>
      ''https://cal.example/feed.ics#trivia#20240601t190000'' =
        ''https://cal.example/feed.ics'' @ ''#'' @ norm t @ ''#'' @ norm d"
    by simp
  with e show ?thesis by blast
qed

text \<open>
  The claim as the specification has it fails for the RSS extractor: the identifier of
  the record of the example feed has no date, though the entry has one.
\<close>

theorem guid_composition_counterexample:
  "scrapeRSS (runtime 0) feed_site (Response 200 jazz_feed) =
     Inr [\<lparr>title = ''Jazz Night'', link = ''https://x.example/e/1'',
           guid = ''https://x.example/e/1#jazz night'',
           pubDate = ''Wed, 01 May 2024 00:00:00 GMT'', description = [], image = [],
           town = [], venue = []\<rparr>] \<and>
   ''https://x.example/e/1#jazz night'' \<noteq>
     ''https://x.example/e/1'' @ ''#'' @ norm ''Jazz Night'' @ ''#'' @ norm ''2024-05-01'' \<and>
   \<not> includes_str ''https://x.example/e/1#jazz night'' (norm ''2024-05-01'')"
  by code_simp


section \<open>The cap of the DOM extractor\<close>

lemma dom_take_le: "dom_take c cards \<le> length cards"
  by (simp add: dom_take_def)

lemma length_map_filter_le: "length (List.map_filter f xs) \<le> length xs"
  by (induction xs) (auto split: option.splits)

lemma dom_take_append:
  "(if c_max c \<noteq> 0 then c_max c else 220) \<le> int (length cards) \<Longrightarrow>
     take (dom_take c (cards @ later)) (cards @ later) = take (dom_take c cards) cards"
  by (auto simp: dom_take_def min_def)

lemma mem_map_filter:
  "r \<in> set (List.map_filter f xs) \<longleftrightarrow> (\<exists>x\<in>set xs. f x = Some r)"
  by (induction xs) (auto split: option.splits)

lemma bex_take_nth:
  "(\<exists>x\<in>set (take n xs). Q x) \<longleftrightarrow> (\<exists>i<n. i < length xs \<and> Q (xs ! i))"
proof
  assume "\<exists>x\<in>set (take n xs). Q x"
  then obtain x where "x \<in> set (take n xs)" and q: "Q x"
    by blast
  then obtain i where "i < length (take n xs)" and "take n xs ! i = x"
    by (auto simp: in_set_conv_nth)
  then have "i < n" "i < length xs" "xs ! i = x"
    by simp_all
  with q show "\<exists>i<n. i < length xs \<and> Q (xs ! i)"
    by blast
next
  assume "\<exists>i<n. i < length xs \<and> Q (xs ! i)"
  then obtain i where i: "i < n" "i < length xs" and q: "Q (xs ! i)"
    by blast
  then have "take n xs ! i = xs ! i" and "i < length (take n xs)"
    by simp_all
  then have "xs ! i \<in> set (take n xs)"
    by (metis nth_mem)
  with q show "\<exists>x\<in>set (take n xs). Q x"
    by blast
qed


text \<open>
  C6. In the DOM extractor an item element that yields neither a title nor a link is
  not emitted. The cap \<^verbatim>\<open>max\<close> (220 when absent) bounds the matched elements that are
  examined, not the records that survive: the extractor examines the first
  \<open>min (count, max)\<close> matched elements, and its records are those of the examined
  elements that yield one, in order. So an element that is discarded counts toward the
  cap: the result has at most that many records, and once the page has \<^verbatim>\<open>max\<close> matched
  elements no later element is ever emitted, however many of the first ones were
  discarded.
\<close>

theorem dom_cap_on_elements:
  "(dom_title el (selectors (c_title c)) = [] \<and> dom_link P c el = [] \<longrightarrow>
      dom_item P c fetched el = None) \<and>
   dom_take c cards = nat (min (int (length cards)) (if c_max c \<noteq> 0 then c_max c else 220)) \<and>
   dom_cards P c fetched cards =
     List.map_filter (dom_item P c fetched)
       (take (nat (min (int (length cards)) (if c_max c \<noteq> 0 then c_max c else 220))) cards) \<and>
   (\<forall>r. r \<in> set (dom_cards P c fetched cards) \<longleftrightarrow>
      (\<exists>i<dom_take c cards. dom_item P c fetched (cards ! i) = Some r)) \<and>
   length (dom_cards P c fetched cards) \<le> dom_take c cards \<and>
   int (dom_take c cards) \<le> max 0 (if c_max c \<noteq> 0 then c_max c else 220) \<and>
   ((if c_max c \<noteq> 0 then c_max c else 220) \<le> int (length cards) \<longrightarrow>
      dom_cards P c fetched (cards @ later) = dom_cards P c fetched cards)"
proof (intro conjI impI allI)
  assume "dom_title el (selectors (c_title c)) = [] \<and> dom_link P c el = []"
  then show "dom_item P c fetched el = None"
    by (simp add: dom_item_def dom_draft_def Let_def)
next
  show "dom_take c cards = nat (min (int (length cards)) (if c_max c \<noteq> 0 then c_max c else 220))"
    by (simp add: dom_take_def)
next
  show "dom_cards P c fetched cards =
     List.map_filter (dom_item P c fetched)
       (take (nat (min (int (length cards)) (if c_max c \<noteq> 0 then c_max c else 220))) cards)"
    by (simp add: dom_cards_def dom_take_def)
next
  fix r
  have "r \<in> set (dom_cards P c fetched cards) \<longleftrightarrow>
      (\<exists>x\<in>set (take (dom_take c cards) cards). dom_item P c fetched x = Some r)"
    unfolding dom_cards_def by (rule mem_map_filter)
  also have "\<dots> \<longleftrightarrow> (\<exists>i<dom_take c cards. i < length cards \<and> dom_item P c fetched (cards ! i) = Some r)"
    by (rule bex_take_nth)
  also have "\<dots> \<longleftrightarrow> (\<exists>i<dom_take c cards. dom_item P c fetched (cards ! i) = Some r)"
    using dom_take_le [of c cards] by auto
  finally show "r \<in> set (dom_cards P c fetched cards) \<longleftrightarrow>
      (\<exists>i<dom_take c cards. dom_item P c fetched (cards ! i) = Some r)" .
next
  have "length (dom_cards P c fetched cards) \<le> length (take (dom_take c cards) cards)"
    unfolding dom_cards_def by (rule length_map_filter_le)
  then show "length (dom_cards P c fetched cards) \<le> dom_take c cards"
    by simp
next
  show "int (dom_take c cards) \<le> max 0 (if c_max c \<noteq> 0 then c_max c else 220)"
    by (simp add: dom_take_def)
next
  assume "(if c_max c \<noteq> 0 then c_max c else 220) \<le> int (length cards)"
  then show "dom_cards P c fetched (cards @ later) = dom_cards P c fetched cards"
    unfolding dom_cards_def by (simp only: dom_take_append)
qed

theorem dom_cap_on_elements_witness:
  "dom_title empty_card (selectors (c_title (listing\<lparr>c_max := 1\<rparr>))) = [] \<and>
   dom_link (runtime 0) (listing\<lparr>c_max := 1\<rparr>) empty_card = [] \<and>
   dom_item (runtime 0) (listing\<lparr>c_max := 1\<rparr>) no_detail empty_card = None \<and>
   (if c_max (listing\<lparr>c_max := 1\<rparr>) \<noteq> 0 then c_max (listing\<lparr>c_max := 1\<rparr>) else 220) \<le>
     int (length [empty_card]) \<and>
   dom_cards (runtime 0) (listing\<lparr>c_max := 1\<rparr>) no_detail
     ([empty_card] @ [event_card ''Jazz Night'' ''/events/42'']) =
     dom_cards (runtime 0) (listing\<lparr>c_max := 1\<rparr>) no_detail [empty_card] \<and>
   dom_cards (runtime 0) (listing\<lparr>c_max := 1\<rparr>) no_detail [empty_card] = [] \<and>
   dom_take (listing\<lparr>c_max := 2\<rparr>) [empty_card, event_card ''Jazz Night'' ''/events/42''] = 2 \<and>
   dom_item (runtime 0) (listing\<lparr>c_max := 2\<rparr>) no_detail
     ([empty_card, event_card ''Jazz Night'' ''/events/42''] ! 1) =
     Some \<lparr>title = ''Jazz Night'', link = ''https://x.example/events/42'',
       guid = ''https://x.example/events/42#jazz night#'', pubDate = utc_string 0,
       description = [], image = [], town = [], venue = []\<rparr> \<and>
   \<lparr>title = ''Jazz Night'', link = ''https://x.example/events/42'',
     guid = ''https://x.example/events/42#jazz night#'', pubDate = utc_string 0,
     description = [], image = [], town = [], venue = []\<rparr>
     \<in> set (dom_cards (runtime 0) (listing\<lparr>c_max := 2\<rparr>) no_detail
         [empty_card, event_card ''Jazz Night'' ''/events/42'']) \<and>
   map title (dom_cards (runtime 0) (listing\<lparr>c_max := 2\<rparr>) no_detail
     [empty_card, event_card ''Jazz Night'' ''/events/42'']) = [''Jazz Night'']"
proof -
  have t: "dom_title empty_card (selectors (c_title (listing\<lparr>c_max := 1\<rparr>))) = []"
    by code_simp
  have l: "dom_link (runtime 0) (listing\<lparr>c_max := 1\<rparr>) empty_card = []"
    by code_simp
  have m: "(if c_max (listing\<lparr>c_max := 1\<rparr>) \<noteq> 0 then c_max (listing\<lparr>c_max := 1\<rparr>) else 220) \<le>
     int (length [empty_card])"
    by (simp add: listing_def site_def)
  have n: "dom_cards (runtime 0) (listing\<lparr>c_max := 1\<rparr>) no_detail [empty_card] = []"
    by code_simp
  note inst = dom_cap_on_elements [where P = "runtime 0" and c = "listing\<lparr>c_max := 1\<rparr>"
      and fetched = no_detail and el = empty_card and cards = "[empty_card]"
      and later = "[event_card ''Jazz Night'' ''/events/42'']"]
  from inst t l have 1: "dom_item (runtime 0) (listing\<lparr>c_max := 1\<rparr>) no_detail empty_card = None"
    by blast
  from inst m have 2: "dom_cards (runtime 0) (listing\<lparr>c_max := 1\<rparr>) no_detail
     ([empty_card] @ [event_card ''Jazz Night'' ''/events/42'']) =
     dom_cards (runtime 0) (listing\<lparr>c_max := 1\<rparr>) no_detail [empty_card]"
    by blast
  have k: "dom_take (listing\<lparr>c_max := 2\<rparr>) [empty_card, event_card ''Jazz Night'' ''/events/42''] = 2"
    by (simp add: dom_take_def listing_def site_def)
  have i: "dom_item (runtime 0) (listing\<lparr>c_max := 2\<rparr>) no_detail
     ([empty_card, event_card ''Jazz Night'' ''/events/42''] ! 1) =
     Some \<lparr>title = ''Jazz Night'', link = ''https://x.example/events/42'',
       guid = ''https://x.example/events/42#jazz night#'', pubDate = utc_string 0,
       description = [], image = [], town = [], venue = []\<rparr>"
    by code_simp
  have "\<exists>i<dom_take (listing\<lparr>c_max := 2\<rparr>) [empty_card, event_card ''Jazz Night'' ''/events/42''].
      dom_item (runtime 0) (listing\<lparr>c_max := 2\<rparr>) no_detail
        ([empty_card, event_card ''Jazz Night'' ''/events/42''] ! i) =
      Some \<lparr>title = ''Jazz Night'', link = ''https://x.example/events/42'',
        guid = ''https://x.example/events/42#jazz night#'', pubDate = utc_string 0,
        description = [], image = [], town = [], venue = []\<rparr>"
    unfolding k using i by (intro exI [of _ 1]) simp
  with dom_cap_on_elements [where P = "runtime 0" and c = "listing\<lparr>c_max := 2\<rparr>"
      and fetched = no_detail
      and cards = "[empty_card, event_card ''Jazz Night'' ''/events/42'']"]
  have 3: "\<lparr>title = ''Jazz Night'', link = ''https://x.example/events/42'',
     guid = ''https://x.example/events/42#jazz night#'', pubDate = utc_string 0,
     description = [], image = [], town = [], venue = []\<rparr>
     \<in> set (dom_cards (runtime 0) (listing\<lparr>c_max := 2\<rparr>) no_detail
         [empty_card, event_card ''Jazz Night'' ''/events/42''])"
    by blast
  have 4: "map title (dom_cards (runtime 0) (listing\<lparr>c_max := 2\<rparr>) no_detail
     [empty_card, event_card ''Jazz Night'' ''/events/42'']) = [''Jazz Night'']"
    by code_simp
  show ?thesis
    by (intro conjI t l 1 m 2 n k i 3 4)
qed

text \<open>
  The claim as the specification has it fails on a page whose first card is empty and
  whose second card is an event, under \<^verbatim>\<open>max = 1\<close>: the specification emits the event,
  the code emits nothing.
\<close>

theorem dom_cap_on_elements_counterexample:
  "dom_cards (runtime 0) (listing\<lparr>c_max := 1\<rparr>) no_detail
     [empty_card, event_card ''Jazz Night'' ''/events/42''] = [] \<and>
   map title (spec_dom_cards (runtime 0) (listing\<lparr>c_max := 1\<rparr>) no_detail
     [empty_card, event_card ''Jazz Night'' ''/events/42'']) = [''Jazz Night'']"
  by code_simp


section \<open>Links of the DOM extractor\<close>

lemma dom_cards_member:
  "r \<in> set (dom_cards P c fetched cards) \<Longrightarrow>
     \<exists>el\<in>set (take (dom_take c cards) cards). \<exists>d.
       dom_draft P c fetched el = Some d \<and> r = push P c d"
proof -
  assume "r \<in> set (dom_cards P c fetched cards)"
  then obtain d where d: "d \<in> set (List.map_filter (dom_draft P c fetched)
      (take (dom_take c cards) cards))" and r: "r = push P c d"
    unfolding dom_cards_drafts by (blast dest: emitted_is_pushed)
  from d obtain el where "el \<in> set (take (dom_take c cards) cards)"
    "dom_draft P c fetched el = Some d"
    by (blast dest: in_map_filter)
  with r show ?thesis by blast
qed

lemma dom_draft_link:
  "dom_draft P c fetched el = Some d \<Longrightarrow> d_link d = or_str (dom_link P c el) (c_url c)"
  by (auto simp: dom_draft_def Let_def split: if_splits)

text \<open>
  C7. In the DOM extractor an extracted href that begins with a slash is resolved
  against the source url: the link is the absolute URL that the URL constructor gives
  for it. An href that does not begin with a slash is left as it is, also when it is
  relative. The link of an emitted record is the link so made of the href of its card,
  the source url when there is none. In particular the href \<^verbatim>\<open>/events/42\<close> on the source
  \<^verbatim>\<open>https://x.example/list\<close> gives the link \<^verbatim>\<open>https://x.example/events/42\<close>.
\<close>

theorem dom_link_resolution:
  "(dom_href el (selectors (c_link c)) \<noteq> [] \<and>
    startsWith (dom_href el (selectors (c_link c))) ''/'' \<longrightarrow>
      dom_link P c el = toAbs P (dom_href el (selectors (c_link c))) (c_url c) \<and>
      (\<forall>u. URL_href P (dom_href el (selectors (c_link c))) (Some (c_url c)) = Some u \<longrightarrow>
         dom_link P c el = u)) \<and>
   (\<not> startsWith (dom_href el (selectors (c_link c))) ''/'' \<longrightarrow>
      dom_link P c el = dom_href el (selectors (c_link c))) \<and>
   (\<forall>r\<in>set (dom_cards P c fetched cards).
      \<exists>el\<in>set (take (dom_take c cards) cards). link r = or_str (dom_link P c el) (c_url c))"
proof (intro conjI impI allI ballI)
  assume a: "dom_href el (selectors (c_link c)) \<noteq> [] \<and>
    startsWith (dom_href el (selectors (c_link c))) ''/''"
  then show "dom_link P c el = toAbs P (dom_href el (selectors (c_link c))) (c_url c)"
    by (simp add: dom_link_def Let_def)
  fix u assume "URL_href P (dom_href el (selectors (c_link c))) (Some (c_url c)) = Some u"
  with a show "dom_link P c el = u"
    by (simp add: dom_link_def Let_def toAbs_def)
next
  assume "\<not> startsWith (dom_href el (selectors (c_link c))) ''/''"
  then show "dom_link P c el = dom_href el (selectors (c_link c))"
    by (simp add: dom_link_def Let_def)
next
  fix r assume "r \<in> set (dom_cards P c fetched cards)"
  from dom_cards_member [OF this] obtain el d
    where el: "el \<in> set (take (dom_take c cards) cards)"
      and d: "dom_draft P c fetched el = Some d" and r: "r = push P c d"
    by blast
  from dom_draft_link [OF d] r have "link r = or_str (dom_link P c el) (c_url c)"
    by (simp add: push_def)
  with el show "\<exists>el\<in>set (take (dom_take c cards) cards).
      link r = or_str (dom_link P c el) (c_url c)"
    by blast
qed

theorem dom_link_resolution_witness:
  "dom_href (event_card ''Jazz Night'' ''/events/42'') (selectors (c_link listing)) = ''/events/42'' \<and>
   startsWith ''/events/42'' ''/'' \<and>
   URL_href (runtime 0) ''/events/42'' (Some (c_url listing)) = Some ''https://x.example/events/42'' \<and>
   dom_link (runtime 0) listing (event_card ''Jazz Night'' ''/events/42'') =
     ''https://x.example/events/42'' \<and>
   map link (dom_cards (runtime 0) listing no_detail [event_card ''Jazz Night'' ''/events/42'']) =
     [''https://x.example/events/42'']"
proof -
  have h: "dom_href (event_card ''Jazz Night'' ''/events/42'') (selectors (c_link listing)) =
      ''/events/42''"
    by code_simp
  have s: "startsWith ''/events/42'' ''/''"
    by code_simp
  have u: "URL_href (runtime 0) ''/events/42'' (Some (c_url listing)) =
      Some ''https://x.example/events/42''"
    by code_simp
  have m: "map link (dom_cards (runtime 0) listing no_detail
      [event_card ''Jazz Night'' ''/events/42'']) = [''https://x.example/events/42'']"
    by code_simp
  have k: "dom_href (event_card ''Jazz Night'' ''/events/42'') (selectors (c_link listing)) \<noteq> [] \<and>
      startsWith (dom_href (event_card ''Jazz Night'' ''/events/42'') (selectors (c_link listing))) ''/''"
    by (simp only: h s) simp
  have v: "URL_href (runtime 0)
      (dom_href (event_card ''Jazz Night'' ''/events/42'') (selectors (c_link listing)))
      (Some (c_url listing)) = Some ''https://x.example/events/42''"
    by (simp only: h u)
  from dom_link_resolution [where P = "runtime 0" and c = listing
      and el = "event_card ''Jazz Night'' ''/events/42''"] k v
  have "dom_link (runtime 0) listing (event_card ''Jazz Night'' ''/events/42'') =
      ''https://x.example/events/42''"
    by blast
  with h s u m show ?thesis by blast
qed

text \<open>
  The claim as the specification has it fails on a relative href without a leading
  slash: the card whose link is \<^verbatim>\<open>events/43\<close> is emitted with that link, which is not an
  absolute URL.
\<close>

theorem dom_link_resolution_counterexample:
  "map link (dom_cards (runtime 0) listing no_detail [event_card ''Trivia'' ''events/43'']) =
     [''events/43''] \<and>
   \<not> absolute_url (runtime 0) ''events/43''"
  by code_simp


section \<open>Fields of an ICS block\<close>







text \<open>
  The expression of \<^verbatim>\<open>get\<close> has no line anchor. In a block whose description holds
  \<^verbatim>\<open>URL:\<close> before the line of the \<^verbatim>\<open>URL\<close> field, it takes what follows in the description,
  where the first line that starts with the key carries the link of the event.
\<close>

lemma ics_get_unanchored:
  "ics_get described_block ''URL'' = ''https://tickets.example/buy'' \<and>
   spec_ics_get described_block ''URL'' = ''https://cal.example/trivia''"
  by code_simp





section \<open>The list of events of a JSON source\<close>

lemma jazz_draft:
  assumes "c_map c = Some (no_map\<lparr>map_path := ''events''\<rparr>)"
  shows "json_draft P c jazz_event =
     Inr \<lparr>d_title = ''Jazz Night'',
          d_link = toAbs P ''/e/1'' (c_api c),
          d_date = ''2024-05-01'',
          d_desc = ''The Hall'' @ dash_sep @ ''2024-05-01'',
          d_image = toAbs P [] (toAbs P ''/e/1'' (c_api c)),
          d_venue = or_str (or_str (c_venue c) ''The Hall'') [],
          d_guid = guid_of (toAbs P ''/e/1'' (c_api c)) ''Jazz Night'' ''2024-05-01'',
          d_blob = ''Jazz Night The Hall''\<rparr>"
proof -
  have m: "map_field c map_title = []" "map_field c map_link = []" "map_field c map_date = []"
    "map_field c map_venue = []" "map_field c map_image = []"
    by (simp_all add: map_field_def assms no_map_def)
  have t: "props_or jazz_event [''title'', ''name''] [] = Inr (Str ''Jazz Night'')"
    by code_simp
  have l: "props_or jazz_event [''url'', ''link''] [] = Inr (Str ''/e/1'')"
    by code_simp
  have d: "props_or jazz_event [''start_date'', ''start'', ''date''] [Str []] =
      Inr (Str ''2024-05-01'')"
    by code_simp
  have v: "get jazz_event ''venue'' = Inr (Obj [(''name'', Str ''The Hall'')])"
    by code_simp
  have vn: "opt_get (Obj [(''name'', Str ''The Hall'')]) ''name'' = Str ''The Hall''"
    by code_simp
  have i: "get jazz_event ''images'' = Inr Undefined"
    "props_or jazz_event [''image'', ''featured_image''] [Str []] = Inr (Str [])"
    by code_simp+
  have s: "trim ''Jazz Night'' = ''Jazz Night''" "trim ''/e/1'' = ''/e/1''"
    "trim ''2024-05-01'' = ''2024-05-01''" "trim ''The Hall'' = ''The Hall''"
    "trim [] = []"
    by code_simp+
  have j: "join_nonempty [''The Hall'', ''2024-05-01''] = ''The Hall'' @ dash_sep @ ''2024-05-01''"
    by (simp add: join_nonempty_def)
  have a: "isArray Undefined = False"
    by (simp add: isArray_def)
  show ?thesis
    unfolding json_draft_def mapped_def json_image_def m
    by (simp add: t l d v vn i s j a and_then_def or_str_def or_else_def Let_def)
qed

lemma jazz_list:
  assumes "c_map c = Some (no_map\<lparr>map_path := ''events''\<rparr>)"
  shows "json_list c jazz_body = Inr [jazz_event]"
proof -
  have "map_field c map_path = ''events''"
    by (simp add: map_field_def assms no_map_def)
  moreover have "json_list (site\<lparr>c_map := Some (no_map\<lparr>map_path := ''events''\<rparr>)\<rparr>) jazz_body =
      Inr [jazz_event]"
    by code_simp
  moreover have "map_field (site\<lparr>c_map := Some (no_map\<lparr>map_path := ''events''\<rparr>)\<rparr>) map_path =
      ''events''"
    by (simp add: map_field_def no_map_def)
  ultimately show ?thesis
    by (simp add: json_list_def)
qed

lemma plain_list:
  assumes "c_map c = None"
  shows "json_list c data = Inr (if isArray data then elems data else [])"
  by (simp add: json_list_def map_field_def assms pick_def and_then_def isArray_def)

lemma pick_step_error: "pick_step acc k = Inl e \<Longrightarrow> acc = Inl e \<or> e = TypeError"
  by (auto simp: pick_step_def and_then_def split: sum.splits if_splits jv.splits)

lemma foldl_pick_step_error:
  "foldl pick_step acc ks = Inl e \<Longrightarrow> acc = Inl e \<or> e = TypeError"
proof (induction ks arbitrary: acc)
  case Nil
  then show ?case by simp
next
  case (Cons k ks)
  then have "pick_step acc k = Inl e \<or> e = TypeError"
    by simp
  then show ?case
    using pick_step_error by blast
qed

lemma pick_error: "pick data path = Inl e \<Longrightarrow> e = TypeError"
  using foldl_pick_step_error [of "Inr data" _ e]
  by (auto simp: pick_def split: if_splits)

text \<open>The entry of the scenario in the earlier revision.\<close>

lemma jazz_entry_mjs:
  "json_entry_mjs P c jazz_event =
     Inr \<lparr>title_mjs = town_prefix c ''Jazz Night'',
          link_mjs = toAbs P ''/e/1'' (c_api c),
          guid_mjs = guid_of (toAbs P ''/e/1'' (c_api c)) ''Jazz Night'' ''2024-05-01'',
          pubDate_mjs = rfc822 P ''2024-05-01'',
          description_mjs = ''The Hall'' @ dash_sep @ ''2024-05-01''\<rparr>"
proof -
  have t: "props_or jazz_event [''title'', ''name''] [] = Inr (Str ''Jazz Night'')"
    by code_simp
  have l: "props_or jazz_event [''url'', ''link''] [] = Inr (Str ''/e/1'')"
    by code_simp
  have d: "props_or jazz_event [''start_date'', ''start'', ''date''] [Str []] =
      Inr (Str ''2024-05-01'')"
    by code_simp
  have v: "get jazz_event ''venue'' = Inr (Obj [(''name'', Str ''The Hall'')])"
    by code_simp
  have vn: "opt_get (Obj [(''name'', Str ''The Hall'')]) ''name'' = Str ''The Hall''"
    by code_simp
  have s: "trim ''Jazz Night'' = ''Jazz Night''" "trim ''/e/1'' = ''/e/1''"
    "trim ''2024-05-01'' = ''2024-05-01''" "trim ''The Hall'' = ''The Hall''"
    by code_simp+
  have j: "join_nonempty [''The Hall'', ''2024-05-01''] = ''The Hall'' @ dash_sep @ ''2024-05-01''"
    by (simp add: join_nonempty_def)
  show ?thesis
    unfolding json_entry_mjs_def
    by (simp add: t l d v vn s j and_then_def or_str_def or_else_def Let_def)
qed

lemma jazz_list_mjs: "json_list_mjs jazz_body = [jazz_event]"
  by code_simp

text \<open>
  C1. In the extractor that reads a field map, the list of events of a JSON source is
  what the path \<^verbatim>\<open>map.path\<close> picks in the body when that is a list, else the body when it
  is a list, else empty; a source without \<^verbatim>\<open>map\<close> takes the body or nothing. For the body
  \<^verbatim>\<open>{"events":[{"name":"Jazz Night","url":"/e/1","start_date":"2024-05-01","venue":{"name":"The Hall"}}]}\<close>
  with the town \<^verbatim>\<open>Roswell\<close>, a source whose map has the path \<^verbatim>\<open>events\<close> and nothing else (and
  no filters) emits exactly one record, with the title \<^verbatim>\<open>[Roswell] Jazz Night\<close>, the link
  that the URL constructor gives for \<^verbatim>\<open>/e/1\<close> against the API URL, and the description
  \<^verbatim>\<open>The Hall\<close>, dash, \<^verbatim>\<open>2024-05-01\<close>; a source without \<^verbatim>\<open>map\<close> emits no record for it.
  When walking the path raises, the error is a type error and the extraction fails with
  it.

  In the earlier revision \<^verbatim>\<open>src/scraper.mjs\<close>, which has no \<^verbatim>\<open>map\<close> and no filter, the list is
  the property \<^verbatim>\<open>events\<close> of the body when that is a list, else the body when it is a
  list, else empty; there the same body with the town \<^verbatim>\<open>Roswell\<close> gives exactly one record,
  with that title, link and description.
\<close>

theorem json_event_list:
  "(\<forall>p. pick data (map_field c map_path) = Inr p \<longrightarrow>
      json_list c data =
        Inr (if isArray p then elems p else if isArray data then elems data else [])) \<and>
   (\<forall>e. pick data (map_field c map_path) = Inl e \<longrightarrow>
      e = TypeError \<and> scrapeJSON P c (Response 200 (Some data)) = Inl TypeError) \<and>
   (c_map c = None \<longrightarrow> json_list c data = Inr (if isArray data then elems data else [])) \<and>
   scrapeJSON P c (Response 200 (Some data)) = and_then (json_list c data) (json_items P c) \<and>
   (c_map c = Some (no_map\<lparr>map_path := ''events''\<rparr>) \<and> c_town c = ''Roswell'' \<and>
    c_filters c = None \<and> URL_href P ''/e/1'' (Some (c_api c)) = Some u \<longrightarrow>
      (\<exists>r. scrapeJSON P c (Response 200 (Some jazz_body)) = Inr [r] \<and>
         title r = ''[Roswell] Jazz Night'' \<and> link r = u \<and>
         description r = ''The Hall'' @ dash_sep @ ''2024-05-01'')) \<and>
   (c_map c = None \<longrightarrow> scrapeJSON P c (Response 200 (Some jazz_body)) = Inr []) \<and>
   json_list_mjs data =
     (if isArray (opt_get data ''events'') then elems (opt_get data ''events'')
      else if isArray data then elems data else []) \<and>
   scrapeJSON_mjs P c (Response 200 (Some data)) =
     collect (json_entry_mjs P c) (json_list_mjs data) \<and>
   (c_town c = ''Roswell'' \<and> URL_href P ''/e/1'' (Some (c_api c)) = Some u \<longrightarrow>
      (\<exists>r. scrapeJSON_mjs P c (Response 200 (Some jazz_body)) = Inr [r] \<and>
         title_mjs r = ''[Roswell] Jazz Night'' \<and> link_mjs r = u \<and>
         description_mjs r = ''The Hall'' @ dash_sep @ ''2024-05-01''))"
proof (intro conjI impI allI)
  fix p assume "pick data (map_field c map_path) = Inr p"
  then show "json_list c data =
      Inr (if isArray p then elems p else if isArray data then elems data else [])"
    by (simp add: json_list_def and_then_def)
next
  fix e assume r: "pick data (map_field c map_path) = Inl e"
  then show "e = TypeError"
    by (rule pick_error)
  with r show "scrapeJSON P c (Response 200 (Some data)) = Inl TypeError"
    by (simp add: scrapeJSON_def res_ok_def json_list_def and_then_def)
next
  assume "c_map c = None"
  then show "json_list c data = Inr (if isArray data then elems data else [])"
    by (rule plain_list)
next
  show "scrapeJSON P c (Response 200 (Some data)) = and_then (json_list c data) (json_items P c)"
    by (simp add: scrapeJSON_def res_ok_def)
next
  assume a: "c_map c = Some (no_map\<lparr>map_path := ''events''\<rparr>) \<and> c_town c = ''Roswell'' \<and>
    c_filters c = None \<and> URL_href P ''/e/1'' (Some (c_api c)) = Some u"
  then have f: "cfg_filter c b" for b
    by (simp add: cfg_filter_def)
  from a have l: "toAbs P ''/e/1'' (c_api c) = u"
    by (simp add: toAbs_def)
  from a have t: "town_prefix c ''Jazz Night'' = ''[Roswell] Jazz Night''"
    by (simp add: town_prefix_def)
  from a have "scrapeJSON P c (Response 200 (Some jazz_body)) =
      Inr [push P c \<lparr>d_title = ''Jazz Night'',
          d_link = toAbs P ''/e/1'' (c_api c),
          d_date = ''2024-05-01'',
          d_desc = ''The Hall'' @ dash_sep @ ''2024-05-01'',
          d_image = toAbs P [] (toAbs P ''/e/1'' (c_api c)),
          d_venue = or_str (or_str (c_venue c) ''The Hall'') [],
          d_guid = guid_of (toAbs P ''/e/1'' (c_api c)) ''Jazz Night'' ''2024-05-01'',
          d_blob = ''Jazz Night The Hall''\<rparr>]"
    by (simp add: scrapeJSON_def res_ok_def jazz_list and_then_def json_item_def jazz_draft
        emit_def f)
  then show "\<exists>r. scrapeJSON P c (Response 200 (Some jazz_body)) = Inr [r] \<and>
         title r = ''[Roswell] Jazz Night'' \<and> link r = u \<and>
         description r = ''The Hall'' @ dash_sep @ ''2024-05-01''"
    by (simp add: push_def l t)
next
  assume n: "c_map c = None"
  have "isArray jazz_body = False"
    by code_simp
  with n show "scrapeJSON P c (Response 200 (Some jazz_body)) = Inr []"
    by (simp add: scrapeJSON_def res_ok_def plain_list and_then_def)
next
  show "json_list_mjs data =
     (if isArray (opt_get data ''events'') then elems (opt_get data ''events'')
      else if isArray data then elems data else [])"
    by (simp add: json_list_mjs_def)
next
  show "scrapeJSON_mjs P c (Response 200 (Some data)) =
     collect (json_entry_mjs P c) (json_list_mjs data)"
    by (simp add: scrapeJSON_mjs_def res_ok_def)
next
  assume a: "c_town c = ''Roswell'' \<and> URL_href P ''/e/1'' (Some (c_api c)) = Some u"
  then have l: "toAbs P ''/e/1'' (c_api c) = u"
    by (simp add: toAbs_def)
  from a have t: "town_prefix c ''Jazz Night'' = ''[Roswell] Jazz Night''"
    by (simp add: town_prefix_def)
  have "scrapeJSON_mjs P c (Response 200 (Some jazz_body)) =
      Inr [\<lparr>title_mjs = town_prefix c ''Jazz Night'',
          link_mjs = toAbs P ''/e/1'' (c_api c),
          guid_mjs = guid_of (toAbs P ''/e/1'' (c_api c)) ''Jazz Night'' ''2024-05-01'',
          pubDate_mjs = rfc822 P ''2024-05-01'',
          description_mjs = ''The Hall'' @ dash_sep @ ''2024-05-01''\<rparr>]"
    by (simp add: scrapeJSON_mjs_def res_ok_def jazz_list_mjs jazz_entry_mjs and_then_def)
  then show "\<exists>r. scrapeJSON_mjs P c (Response 200 (Some jazz_body)) = Inr [r] \<and>
         title_mjs r = ''[Roswell] Jazz Night'' \<and> link_mjs r = u \<and>
         description_mjs r = ''The Hall'' @ dash_sep @ ''2024-05-01''"
    by (simp add: l t)
qed

theorem json_event_list_witness:
  "c_map (jazz_api\<lparr>c_map := Some (no_map\<lparr>map_path := ''events''\<rparr>)\<rparr>) =
     Some (no_map\<lparr>map_path := ''events''\<rparr>) \<and>
   URL_href (runtime 0) ''/e/1''
     (Some (c_api (jazz_api\<lparr>c_map := Some (no_map\<lparr>map_path := ''events''\<rparr>)\<rparr>))) =
     Some ''https://api.example/e/1'' \<and>
   (\<exists>r. scrapeJSON (runtime 0) (jazz_api\<lparr>c_map := Some (no_map\<lparr>map_path := ''events''\<rparr>)\<rparr>)
      (Response 200 (Some jazz_body)) = Inr [r] \<and>
      title r = ''[Roswell] Jazz Night'' \<and> link r = ''https://api.example/e/1'' \<and>
      description r = ''The Hall'' @ dash_sep @ ''2024-05-01'') \<and>
   c_map jazz_api = None \<and>
   scrapeJSON (runtime 0) jazz_api (Response 200 (Some jazz_body)) = Inr [] \<and>
   pick (Arr [jazz_event]) (map_field jazz_api map_path) = Inr Undefined \<and>
   json_list jazz_api (Arr [jazz_event]) = Inr [jazz_event] \<and>
   pick (Obj [(''events'', Str ''none'')])
     (map_field (jazz_api\<lparr>c_map := Some (no_map\<lparr>map_path := ''events.items''\<rparr>)\<rparr>) map_path) =
     Inl TypeError \<and>
   scrapeJSON (runtime 0) (jazz_api\<lparr>c_map := Some (no_map\<lparr>map_path := ''events.items''\<rparr>)\<rparr>)
     (Response 200 (Some (Obj [(''events'', Str ''none'')]))) = Inl TypeError \<and>
   c_town jazz_api = ''Roswell'' \<and>
   URL_href (runtime 0) ''/e/1'' (Some (c_api jazz_api)) = Some ''https://api.example/e/1'' \<and>
   (\<exists>r. scrapeJSON_mjs (runtime 0) jazz_api (Response 200 (Some jazz_body)) = Inr [r] \<and>
      title_mjs r = ''[Roswell] Jazz Night'' \<and> link_mjs r = ''https://api.example/e/1'' \<and>
      description_mjs r = ''The Hall'' @ dash_sep @ ''2024-05-01'')"
proof -
  have m: "c_map (jazz_api\<lparr>c_map := Some (no_map\<lparr>map_path := ''events''\<rparr>)\<rparr>) =
      Some (no_map\<lparr>map_path := ''events''\<rparr>)"
    by simp
  have h: "c_town (jazz_api\<lparr>c_map := Some (no_map\<lparr>map_path := ''events''\<rparr>)\<rparr>) = ''Roswell''"
    "c_filters (jazz_api\<lparr>c_map := Some (no_map\<lparr>map_path := ''events''\<rparr>)\<rparr>) = None"
    "c_map jazz_api = None"
    by (simp_all add: jazz_api_def site_def)
  have u: "URL_href (runtime 0) ''/e/1''
      (Some (c_api (jazz_api\<lparr>c_map := Some (no_map\<lparr>map_path := ''events''\<rparr>)\<rparr>))) =
      Some ''https://api.example/e/1''"
    by code_simp
  have p: "pick (Arr [jazz_event]) (map_field jazz_api map_path) = Inr Undefined"
    by code_simp
  have e: "(if isArray Undefined then elems Undefined
      else if isArray (Arr [jazz_event]) then elems (Arr [jazz_event]) else []) = [jazz_event]"
    by (simp add: isArray_def elems_def)
  from json_event_list [where P = "runtime 0"
      and c = "jazz_api\<lparr>c_map := Some (no_map\<lparr>map_path := ''events''\<rparr>)\<rparr>"
      and u = "''https://api.example/e/1''"] m h(1,2) u
  have 1: "\<exists>r. scrapeJSON (runtime 0) (jazz_api\<lparr>c_map := Some (no_map\<lparr>map_path := ''events''\<rparr>)\<rparr>)
      (Response 200 (Some jazz_body)) = Inr [r] \<and>
      title r = ''[Roswell] Jazz Night'' \<and> link r = ''https://api.example/e/1'' \<and>
      description r = ''The Hall'' @ dash_sep @ ''2024-05-01''"
    by blast
  from json_event_list [where P = "runtime 0" and c = jazz_api] h(3)
  have 2: "scrapeJSON (runtime 0) jazz_api (Response 200 (Some jazz_body)) = Inr []"
    by blast
  from json_event_list [where c = jazz_api and data = "Arr [jazz_event]"] p
  have "json_list jazz_api (Arr [jazz_event]) =
      Inr (if isArray Undefined then elems Undefined
        else if isArray (Arr [jazz_event]) then elems (Arr [jazz_event]) else [])"
    by blast
  then have 3: "json_list jazz_api (Arr [jazz_event]) = Inr [jazz_event]"
    by (simp only: e)
  have pe: "pick (Obj [(''events'', Str ''none'')])
     (map_field (jazz_api\<lparr>c_map := Some (no_map\<lparr>map_path := ''events.items''\<rparr>)\<rparr>) map_path) =
     Inl TypeError"
    by code_simp
  from json_event_list [where P = "runtime 0"
      and c = "jazz_api\<lparr>c_map := Some (no_map\<lparr>map_path := ''events.items''\<rparr>)\<rparr>"
      and data = "Obj [(''events'', Str ''none'')]"] pe
  have 4: "scrapeJSON (runtime 0) (jazz_api\<lparr>c_map := Some (no_map\<lparr>map_path := ''events.items''\<rparr>)\<rparr>)
     (Response 200 (Some (Obj [(''events'', Str ''none'')]))) = Inl TypeError"
    by blast
  have tw: "c_town jazz_api = ''Roswell''"
    by (simp add: jazz_api_def site_def)
  have u2: "URL_href (runtime 0) ''/e/1'' (Some (c_api jazz_api)) = Some ''https://api.example/e/1''"
    by code_simp
  from json_event_list [where P = "runtime 0" and c = jazz_api
      and u = "''https://api.example/e/1''"] tw u2
  have 5: "\<exists>r. scrapeJSON_mjs (runtime 0) jazz_api (Response 200 (Some jazz_body)) = Inr [r] \<and>
      title_mjs r = ''[Roswell] Jazz Night'' \<and> link_mjs r = ''https://api.example/e/1'' \<and>
      description_mjs r = ''The Hall'' @ dash_sep @ ''2024-05-01''"
    by blast
  show ?thesis
    by (intro conjI m u 1 h(3) 2 p 3 pe 4 tw u2 5)
qed

text \<open>
  The claim as the specification has it fails in either revision. In the extractor with
  \<^verbatim>\<open>map.path\<close> it fails on its own scenario: without \<^verbatim>\<open>map\<close>, the body is an object, not a
  list, and the extractor emits no record. In the earlier revision the rule of the list
  fails: a body that holds its events under \<^verbatim>\<open>results\<close>, with that path configured, gives
  no record there, where the path resolves to the list of one event.
\<close>

theorem json_event_list_counterexample:
  "c_map jazz_api = None \<and>
   scrapeJSON (runtime 0) jazz_api (Response 200 (Some jazz_body)) = Inr [] \<and>
   pick (Obj [(''results'', Arr [jazz_event])])
     (map_field (jazz_api\<lparr>c_map := Some (no_map\<lparr>map_path := ''results''\<rparr>)\<rparr>) map_path) =
     Inr (Arr [jazz_event]) \<and>
   scrapeJSON_mjs (runtime 0) (jazz_api\<lparr>c_map := Some (no_map\<lparr>map_path := ''results''\<rparr>)\<rparr>)
     (Response 200 (Some (Obj [(''results'', Arr [jazz_event])]))) = Inr []"
  by code_simp


section \<open>Resolution of the item selector\<close>

lemma poll_match:
  "find (matches pg r) list = Some sel \<Longrightarrow> poll pg list t r = Some (Some sel)"
  by (subst poll.simps) simp

lemma poll_timeout:
  "find (matches pg r) list = None \<Longrightarrow> elapsed pg r > t \<Longrightarrow> poll pg list t r = Some None"
  by (subst poll.simps) simp

lemma poll_next:
  "find (matches pg r) list = None \<Longrightarrow> elapsed pg r \<le> t \<Longrightarrow>
     poll pg list t r = poll pg list t (Suc r)"
  by (subst poll.simps) simp

lemma poll_skip:
  "(\<forall>i<n. find (matches pg (r + i)) list = None \<and> elapsed pg (r + i) \<le> t) \<Longrightarrow>
     poll pg list t r = poll pg list t (r + n)"
proof (induction n)
  case 0
  show ?case by simp
next
  case (Suc n)
  then have "poll pg list t r = poll pg list t (r + n)"
    by simp
  also from Suc.prems have "\<dots> = poll pg list t (Suc (r + n))"
    by (intro poll_next) simp_all
  finally show ?case by simp
qed

lemma poll_same_aux:
  assumes "poll pg list t r = Some y"
  shows "\<forall>pg'. matches pg' = matches pg \<and> elapsed pg' = elapsed pg \<longrightarrow>
     poll pg' list t r = Some y"
proof (rule poll.raw_induct [where P = "\<lambda>pg list t r y.
    \<forall>pg'. matches pg' = matches pg \<and> elapsed pg' = elapsed pg \<longrightarrow> poll pg' list t r = Some y",
    OF _ assms])
  fix f pg list t r y
  assume IH: "\<And>pg list t r y. f pg list t r = Some y \<Longrightarrow>
      \<forall>pg'. matches pg' = matches pg \<and> elapsed pg' = elapsed pg \<longrightarrow> poll pg' list t r = Some y"
    and step: "(case find (matches pg r) list of
        None \<Rightarrow> if t < elapsed pg r then Some None else f pg list t (Suc r)
      | Some sel \<Rightarrow> Some (Some sel)) = Some y"
  show "\<forall>pg'. matches pg' = matches pg \<and> elapsed pg' = elapsed pg \<longrightarrow>
      poll pg' list t r = Some y"
  proof (intro allI impI)
    fix pg' assume same: "matches pg' = matches pg \<and> elapsed pg' = elapsed pg"
    show "poll pg' list t r = Some y"
    proof (cases "find (matches pg r) list")
      case (Some sel)
      with step have "y = Some sel"
        by simp
      moreover from Some same have "find (matches pg' r) list = Some sel"
        by simp
      ultimately show ?thesis
        by (simp add: poll_match)
    next
      case None
      with same have none: "find (matches pg' r) list = None"
        by simp
      show ?thesis
      proof (cases "t < elapsed pg r")
        case True
        with None step have "y = None"
          by simp
        moreover from True same have "t < elapsed pg' r"
          by simp
        ultimately show ?thesis
          using none by (simp add: poll_timeout)
      next
        case False
        with None step have "f pg list t (Suc r) = Some y"
          by simp
        from IH [OF this] same have "poll pg' list t (Suc r) = Some y"
          by blast
        moreover from False same have "elapsed pg' r \<le> t"
          by simp
        ultimately show ?thesis
          using none by (simp add: poll_next)
      qed
    qed
  qed
qed

lemma poll_same:
  assumes "matches pg' = matches pg" and "elapsed pg' = elapsed pg"
  shows "poll pg' list t r = poll pg list t r"
proof (cases "poll pg list t r")
  case (Some y)
  with poll_same_aux [OF Some] assms show ?thesis
    by simp
next
  case None
  show ?thesis
  proof (cases "poll pg' list t r")
    case inner: None
    with None show ?thesis by simp
  next
    case (Some y)
    from poll_same_aux [OF Some] assms have "poll pg list t r = Some y"
      by simp
    with None show ?thesis by simp
  qed
qed

lemma poll_null:
  assumes "poll pg list t r = Some None"
  shows "\<exists>n\<ge>r. elapsed pg n > t \<and>
     (\<forall>i. r \<le> i \<and> i \<le> n \<longrightarrow> find (matches pg i) list = None)"
proof -
  have "(None :: string option) = None \<longrightarrow> (\<exists>n\<ge>r. elapsed pg n > t \<and>
     (\<forall>i. r \<le> i \<and> i \<le> n \<longrightarrow> find (matches pg i) list = None))"
  proof (rule poll.raw_induct [where P = "\<lambda>pg list t r y.
      y = None \<longrightarrow> (\<exists>n\<ge>r. elapsed pg n > t \<and>
        (\<forall>i. r \<le> i \<and> i \<le> n \<longrightarrow> find (matches pg i) list = None))", OF _ assms])
    fix f pg list t r and y :: "string option"
    assume IH: "\<And>pg list t r y. f pg list t r = Some y \<Longrightarrow>
        y = None \<longrightarrow> (\<exists>n\<ge>r. elapsed pg n > t \<and>
          (\<forall>i. r \<le> i \<and> i \<le> n \<longrightarrow> find (matches pg i) list = None))"
      and step: "(case find (matches pg r) list of
          None \<Rightarrow> if t < elapsed pg r then Some None else f pg list t (Suc r)
        | Some sel \<Rightarrow> Some (Some sel)) = Some y"
    show "y = None \<longrightarrow> (\<exists>n\<ge>r. elapsed pg n > t \<and>
        (\<forall>i. r \<le> i \<and> i \<le> n \<longrightarrow> find (matches pg i) list = None))"
    proof
      assume y: "y = None"
      show "\<exists>n\<ge>r. elapsed pg n > t \<and>
          (\<forall>i. r \<le> i \<and> i \<le> n \<longrightarrow> find (matches pg i) list = None)"
      proof (cases "find (matches pg r) list")
        case (Some sel)
        with step y show ?thesis by simp
      next
        case None
        show ?thesis
        proof (cases "t < elapsed pg r")
          case True
          with None show ?thesis
            by (intro exI [of _ r]) auto
        next
          case False
          with None step have "f pg list t (Suc r) = Some y"
            by simp
          from IH [OF this] y obtain n where n: "Suc r \<le> n" "elapsed pg n > t"
            "\<forall>i. Suc r \<le> i \<and> i \<le> n \<longrightarrow> find (matches pg i) list = None"
            by blast
          have "\<forall>i. r \<le> i \<and> i \<le> n \<longrightarrow> find (matches pg i) list = None"
          proof (intro allI impI)
            fix i assume "r \<le> i \<and> i \<le> n"
            then show "find (matches pg i) list = None"
              using None n(3) by (cases "i = r") auto
          qed
          with n show ?thesis
            by (intro exI [of _ n]) auto
        qed
      qed
    qed
  qed
  then show ?thesis by simp
qed

lemma last_dropWhile: "dropWhile Q xs \<noteq> [] \<Longrightarrow> last (dropWhile Q xs) = last xs"
  by (induction xs) (auto split: if_splits)

lemma trim_ends:
  assumes "trim x \<noteq> []"
  shows "\<not> is_ws (hd (trim x)) \<and> \<not> is_ws (last (trim x))"
proof -
  let ?y = "dropWhile is_ws x"
  let ?z = "dropWhile is_ws (rev ?y)"
  from assms have z: "?z \<noteq> []" by (simp add: trim_def)
  have y: "?y \<noteq> []"
  proof
    assume "?y = []"
    with z show False
      by (metis dropWhile.simps(1) rev.simps(1))
  qed
  have "last (trim x) = hd ?z"
    using z by (simp add: trim_def last_rev)
  moreover have "\<not> is_ws (hd ?z)"
    using z by (rule hd_dropWhile)
  moreover have "hd (trim x) = last ?z"
    using z by (simp add: trim_def hd_rev)
  moreover have "last ?z = hd ?y"
    using z y by (simp add: last_dropWhile last_rev)
  moreover have "\<not> is_ws (hd ?y)"
    using y by (rule hd_dropWhile)
  ultimately show ?thesis by simp
qed


lemma matches_quiet: "matches (quiet pg) = matches pg"
  by (auto simp: matches_def quiet_def fun_eq_iff split: option.splits)

lemma candidates_trimmed:
  "s \<in> set (candidate_list cs) \<Longrightarrow> s \<noteq> [] \<and> \<not> is_ws (hd s) \<and> \<not> is_ws (last s)"
  by (auto simp: candidate_list_def dest: trim_ends)

lemma poll_from_start:
  "(\<forall>i<n. find (matches pg i) list = None \<and> elapsed pg i \<le> t) \<Longrightarrow>
     poll pg list t 0 = poll pg list t n"
  using poll_skip [of n pg 0 list t] by simp

text \<open>The resolver of the earlier revision.\<close>

lemma poll_mjs_raise:
  "probe_all pg r list = Inl e \<Longrightarrow> poll_mjs pg list t r = Some (Inl e)"
  by (subst poll_mjs.simps) simp

lemma poll_mjs_found:
  "probe_all pg r list = Inr (Some sel) \<Longrightarrow> poll_mjs pg list t r = Some (Inr (Some sel))"
  by (subst poll_mjs.simps) simp

lemma poll_mjs_next:
  "probe_all pg r list = Inr None \<Longrightarrow> elapsed pg r \<le> t \<Longrightarrow>
     poll_mjs pg list t r = poll_mjs pg list t (Suc r)"
  by (subst poll_mjs.simps) simp

lemma poll_mjs_skip:
  "(\<forall>i<n. probe_all pg (r + i) list = Inr None \<and> elapsed pg (r + i) \<le> t) \<Longrightarrow>
     poll_mjs pg list t r = poll_mjs pg list t (r + n)"
proof (induction n)
  case 0
  show ?case by simp
next
  case (Suc n)
  then have "poll_mjs pg list t r = poll_mjs pg list t (r + n)"
    by simp
  also from Suc.prems have "\<dots> = poll_mjs pg list t (Suc (r + n))"
    by (intro poll_mjs_next) simp_all
  finally show ?case by simp
qed

lemma probe_all_raise:
  "probe_all pg r list = Inl e \<longleftrightarrow>
     e = LocatorError \<and>
     (\<exists>pre sel post. list = pre @ sel # post \<and> probe pg r sel = None \<and>
        (\<forall>s\<in>set pre. probe pg r s = Some 0))"
proof (induction list)
  case Nil
  show ?case by simp
next
  case (Cons a list)
  show ?case
  proof (cases "probe pg r a")
    case None
    have "a # list = [] @ a # list \<and> probe pg r a = None \<and> (\<forall>s\<in>set []. probe pg r s = Some 0)"
      using None by simp
    then have "\<exists>pre sel post. a # list = pre @ sel # post \<and> probe pg r sel = None \<and>
        (\<forall>s\<in>set pre. probe pg r s = Some 0)"
      by blast
    with None show ?thesis by auto
  next
    case (Some count)
    show ?thesis
    proof (cases "0 < count")
      case True
      have "\<not> (\<exists>pre sel post. a # list = pre @ sel # post \<and> probe pg r sel = None \<and>
        (\<forall>s\<in>set pre. probe pg r s = Some 0))"
      proof
        assume "\<exists>pre sel post. a # list = pre @ sel # post \<and> probe pg r sel = None \<and>
          (\<forall>s\<in>set pre. probe pg r s = Some 0)"
        then obtain pre sel post where d: "a # list = pre @ sel # post"
          and n: "probe pg r sel = None" and z: "\<forall>s\<in>set pre. probe pg r s = Some 0"
          by blast
        show False
        proof (cases pre)
          case Nil
          with d n Some show False by simp
        next
          case (Cons p ps)
          with d z Some True show False by simp
        qed
      qed
      with Some True show ?thesis by simp
    next
      case False
      then have c0: "count = 0" by simp
      have "(\<exists>pre sel post. a # list = pre @ sel # post \<and> probe pg r sel = None \<and>
          (\<forall>s\<in>set pre. probe pg r s = Some 0)) \<longleftrightarrow>
        (\<exists>pre sel post. list = pre @ sel # post \<and> probe pg r sel = None \<and>
          (\<forall>s\<in>set pre. probe pg r s = Some 0))"
      proof
        assume "\<exists>pre sel post. a # list = pre @ sel # post \<and> probe pg r sel = None \<and>
          (\<forall>s\<in>set pre. probe pg r s = Some 0)"
        then obtain pre sel post where d: "a # list = pre @ sel # post"
          and n: "probe pg r sel = None" and z: "\<forall>s\<in>set pre. probe pg r s = Some 0"
          by blast
        show "\<exists>pre sel post. list = pre @ sel # post \<and> probe pg r sel = None \<and>
          (\<forall>s\<in>set pre. probe pg r s = Some 0)"
        proof (cases pre)
          case Nil
          with d n Some show ?thesis by simp
        next
          case (Cons p ps)
          with d have "list = ps @ sel # post" by simp
          moreover from z Cons have "\<forall>s\<in>set ps. probe pg r s = Some 0" by simp
          ultimately show ?thesis using n by blast
        qed
      next
        assume "\<exists>pre sel post. list = pre @ sel # post \<and> probe pg r sel = None \<and>
          (\<forall>s\<in>set pre. probe pg r s = Some 0)"
        then obtain pre sel post where d: "list = pre @ sel # post"
          and n: "probe pg r sel = None" and z: "\<forall>s\<in>set pre. probe pg r s = Some 0"
          by blast
        from d have "a # list = (a # pre) @ sel # post" by simp
        moreover from z Some c0 have "\<forall>s\<in>set (a # pre). probe pg r s = Some 0" by simp
        ultimately show "\<exists>pre sel post. a # list = pre @ sel # post \<and> probe pg r sel = None \<and>
          (\<forall>s\<in>set pre. probe pg r s = Some 0)"
          using n by blast
      qed
      with Some c0 Cons.IH show ?thesis by simp
    qed
  qed
qed

lemma probe_all_find:
  "(\<forall>s\<in>set list. probe pg r s \<noteq> None) \<Longrightarrow> probe_all pg r list = Inr (find (matches pg r) list)"
  by (induction list) (auto simp: matches_def)

lemma poll_mjs_of_poll:
  assumes "poll pg list t r = Some y"
  shows "(\<forall>r. \<forall>s\<in>set list. probe pg r s \<noteq> None) \<longrightarrow> poll_mjs pg list t r = Some (Inr y)"
proof (rule poll.raw_induct [where P = "\<lambda>pg list t r y.
    (\<forall>r. \<forall>s\<in>set list. probe pg r s \<noteq> None) \<longrightarrow> poll_mjs pg list t r = Some (Inr y)",
    OF _ assms])
  fix f pg list t r y
  assume IH: "\<And>pg list t r y. f pg list t r = Some y \<Longrightarrow>
      (\<forall>r. \<forall>s\<in>set list. probe pg r s \<noteq> None) \<longrightarrow> poll_mjs pg list t r = Some (Inr y)"
    and step: "(case find (matches pg r) list of
        None \<Rightarrow> if t < elapsed pg r then Some None else f pg list t (Suc r)
      | Some sel \<Rightarrow> Some (Some sel)) = Some y"
  show "(\<forall>r. \<forall>s\<in>set list. probe pg r s \<noteq> None) \<longrightarrow> poll_mjs pg list t r = Some (Inr y)"
  proof
    assume ok: "\<forall>r. \<forall>s\<in>set list. probe pg r s \<noteq> None"
    then have pa: "probe_all pg r list = Inr (find (matches pg r) list)"
      by (intro probe_all_find) simp
    show "poll_mjs pg list t r = Some (Inr y)"
    proof (cases "find (matches pg r) list")
      case (Some sel)
      with step have "y = Some sel" by simp
      with pa Some show ?thesis
        by (subst poll_mjs.simps) simp
    next
      case None
      show ?thesis
      proof (cases "t < elapsed pg r")
        case True
        with step None have "y = None" by simp
        with pa None True show ?thesis
          by (subst poll_mjs.simps) simp
      next
        case False
        with step None have "f pg list t (Suc r) = Some y" by simp
        from IH [OF this] ok have "poll_mjs pg list t (Suc r) = Some (Inr y)" by blast
        with pa None False show ?thesis
          by (subst poll_mjs.simps) simp
      qed
    qed
  qed
qed

lemma poll_of_poll_mjs:
  assumes "poll_mjs pg list t r = Some z"
  shows "(\<forall>r. \<forall>s\<in>set list. probe pg r s \<noteq> None) \<longrightarrow> (\<exists>y. z = Inr y \<and> poll pg list t r = Some y)"
proof (rule poll_mjs.raw_induct [where P = "\<lambda>pg list t r z.
    (\<forall>r. \<forall>s\<in>set list. probe pg r s \<noteq> None) \<longrightarrow> (\<exists>y. z = Inr y \<and> poll pg list t r = Some y)",
    OF _ assms])
  fix f pg list t r z
  assume IH: "\<And>pg list t r z. f pg list t r = Some z \<Longrightarrow>
      (\<forall>r. \<forall>s\<in>set list. probe pg r s \<noteq> None) \<longrightarrow> (\<exists>y. z = Inr y \<and> poll pg list t r = Some y)"
    and step: "(case probe_all pg r list of
        Inl e \<Rightarrow> Some (Inl e)
      | Inr found \<Rightarrow>
          if found \<noteq> None then Some (Inr found)
          else if t < elapsed pg r then Some (Inr None) else f pg list t (Suc r)) = Some z"
  show "(\<forall>r. \<forall>s\<in>set list. probe pg r s \<noteq> None) \<longrightarrow> (\<exists>y. z = Inr y \<and> poll pg list t r = Some y)"
  proof
    assume ok: "\<forall>r. \<forall>s\<in>set list. probe pg r s \<noteq> None"
    then have pa: "probe_all pg r list = Inr (find (matches pg r) list)"
      by (intro probe_all_find) simp
    show "\<exists>y. z = Inr y \<and> poll pg list t r = Some y"
    proof (cases "find (matches pg r) list")
      case (Some sel)
      with step pa have "z = Inr (Some sel)" by simp
      moreover from Some have "poll pg list t r = Some (Some sel)"
        by (subst poll.simps) simp
      ultimately show ?thesis by simp
    next
      case None
      show ?thesis
      proof (cases "t < elapsed pg r")
        case True
        with step pa None have "z = Inr None" by simp
        moreover from None True have "poll pg list t r = Some None"
          by (subst poll.simps) simp
        ultimately show ?thesis by simp
      next
        case False
        with step pa None have "f pg list t (Suc r) = Some z" by simp
        from IH [OF this] ok obtain y where "z = Inr y" and "poll pg list t (Suc r) = Some y"
          by blast
        moreover from None False have "poll pg list t r = poll pg list t (Suc r)"
          by (subst poll.simps) simp
        ultimately show ?thesis by simp
      qed
    qed
  qed
qed

lemma poll_mjs_agrees:
  assumes "\<forall>r. \<forall>s\<in>set list. probe pg r s \<noteq> None"
  shows "poll_mjs pg list t r = map_option Inr (poll pg list t r)"
proof (cases "poll pg list t r")
  case (Some y)
  from poll_mjs_of_poll [OF this] assms show ?thesis
    using Some by simp
next
  case None
  have "poll_mjs pg list t r = None"
  proof (rule ccontr)
    assume "poll_mjs pg list t r \<noteq> None"
    then obtain z where "poll_mjs pg list t r = Some z" by blast
    from poll_of_poll_mjs [OF this] assms None show False by simp
  qed
  with None show ?thesis by simp
qed

text \<open>
  C9. The resolver's candidates are the pieces of the candidate string between commas,
  trimmed, the empty ones left out. With rounds counted from 0: if no candidate matches
  and the timeout has not elapsed in the rounds before round \<open>n\<close>, and a candidate matches
  in round \<open>n\<close>, the resolver returns the first candidate in list order that matches in
  that round; if no candidate matches up to round \<open>n\<close> and the timeout elapses first at
  the end of round \<open>n\<close>, it returns \<^verbatim>\<open>null\<close>, and it returns \<^verbatim>\<open>null\<close> only so. An empty
  candidate string gives \<^verbatim>\<open>null\<close> at once. A candidate whose probe raises does not match,
  and the resolver answers as if that probe had counted zero: it has no error result.

  The resolver of the earlier revision \<^verbatim>\<open>src/scraper.mjs\<close> does raise. It gives the same
  answer on a non-empty candidate string none of whose probes ever raises; but a probe
  that raises in a round, after probes that count zero in that round and rounds without
  a match before the timeout, ends it with the error of the locator, and an absent
  candidate string ends it with a type error. For the candidates \<^verbatim>\<open>li[, h2\<close> on a page
  where the probe of \<^verbatim>\<open>li[\<close> raises and \<^verbatim>\<open>h2\<close> appears in the third round, it raises in the
  first round, where the guarded resolver returns \<^verbatim>\<open>h2\<close>.
\<close>

theorem selector_resolution:
  "candidate_list cs = filter (\<lambda>s. s \<noteq> []) (map trim (split_str cs '','')) \<and>
   (\<forall>s\<in>set (candidate_list cs). s \<noteq> [] \<and> \<not> is_ws (hd s) \<and> \<not> is_ws (last s)) \<and>
   (cs = [] \<longrightarrow> firstExistingSelector pg cs t = Some None) \<and>
   (cs \<noteq> [] \<and>
    (\<forall>i<n. find (matches pg i) (candidate_list cs) = None \<and> elapsed pg i \<le> t) \<and>
    find (matches pg n) (candidate_list cs) = Some sel \<longrightarrow>
      firstExistingSelector pg cs t = Some (Some sel) \<and>
      (\<exists>k<length (candidate_list cs). candidate_list cs ! k = sel \<and> matches pg n sel \<and>
         (\<forall>j<k. \<not> matches pg n (candidate_list cs ! j)))) \<and>
   (cs \<noteq> [] \<and> (\<forall>i\<le>n. find (matches pg i) (candidate_list cs) = None) \<and>
    (\<forall>i<n. elapsed pg i \<le> t) \<and> t < elapsed pg n \<longrightarrow>
      firstExistingSelector pg cs t = Some None) \<and>
   (cs \<noteq> [] \<and> firstExistingSelector pg cs t = Some None \<longrightarrow>
      (\<exists>n. t < elapsed pg n \<and> (\<forall>i\<le>n. find (matches pg i) (candidate_list cs) = None))) \<and>
   (probe pg r s = None \<longrightarrow> \<not> matches pg r s) \<and>
   firstExistingSelector (quiet pg) cs t = firstExistingSelector pg cs t \<and>
   (cs \<noteq> [] \<and> (\<forall>i. \<forall>x\<in>set (candidate_list cs). probe pg i x \<noteq> None) \<longrightarrow>
      firstExistingSelector_mjs pg (Some cs) t = map_option Inr (firstExistingSelector pg cs t)) \<and>
   ((\<forall>i<n. probe_all pg i (candidate_list cs) = Inr None \<and> elapsed pg i \<le> t) \<and>
    probe_all pg n (candidate_list cs) = Inl e \<longrightarrow>
      firstExistingSelector_mjs pg (Some cs) t = Some (Inl e)) \<and>
   (probe_all pg r list = Inl e \<longleftrightarrow>
      e = LocatorError \<and>
      (\<exists>pre x post. list = pre @ x # post \<and> probe pg r x = None \<and>
         (\<forall>y\<in>set pre. probe pg r y = Some 0))) \<and>
   firstExistingSelector_mjs pg None t = Some (Inl TypeError) \<and>
   firstExistingSelector_mjs slow_page (Some ''li[, h2'') 8000 = Some (Inl LocatorError) \<and>
   firstExistingSelector slow_page ''li[, h2'' 8000 = Some (Some ''h2'')"
proof -
  have 1: "candidate_list cs = filter (\<lambda>s. s \<noteq> []) (map trim (split_str cs '',''))"
    by (simp add: candidate_list_def)
  have 2: "\<forall>s\<in>set (candidate_list cs). s \<noteq> [] \<and> \<not> is_ws (hd s) \<and> \<not> is_ws (last s)"
    using candidates_trimmed by blast
  have 3: "cs = [] \<longrightarrow> firstExistingSelector pg cs t = Some None"
    by (simp add: firstExistingSelector_def)
  have 4: "cs \<noteq> [] \<and>
    (\<forall>i<n. find (matches pg i) (candidate_list cs) = None \<and> elapsed pg i \<le> t) \<and>
    find (matches pg n) (candidate_list cs) = Some sel \<longrightarrow>
      firstExistingSelector pg cs t = Some (Some sel) \<and>
      (\<exists>k<length (candidate_list cs). candidate_list cs ! k = sel \<and> matches pg n sel \<and>
         (\<forall>j<k. \<not> matches pg n (candidate_list cs ! j)))"
  proof
    assume a: "cs \<noteq> [] \<and>
      (\<forall>i<n. find (matches pg i) (candidate_list cs) = None \<and> elapsed pg i \<le> t) \<and>
      find (matches pg n) (candidate_list cs) = Some sel"
    then have "poll pg (candidate_list cs) t 0 = poll pg (candidate_list cs) t n"
      by (intro poll_from_start) simp
    with a have "firstExistingSelector pg cs t = Some (Some sel)"
      by (simp add: firstExistingSelector_def poll_match)
    moreover from a have "\<exists>k<length (candidate_list cs). candidate_list cs ! k = sel \<and>
        matches pg n sel \<and> (\<forall>j<k. \<not> matches pg n (candidate_list cs ! j))"
      by (auto simp: find_Some_iff)
    ultimately show "firstExistingSelector pg cs t = Some (Some sel) \<and>
      (\<exists>k<length (candidate_list cs). candidate_list cs ! k = sel \<and> matches pg n sel \<and>
         (\<forall>j<k. \<not> matches pg n (candidate_list cs ! j)))"
      by blast
  qed
  have 5: "cs \<noteq> [] \<and> (\<forall>i\<le>n. find (matches pg i) (candidate_list cs) = None) \<and>
    (\<forall>i<n. elapsed pg i \<le> t) \<and> t < elapsed pg n \<longrightarrow>
      firstExistingSelector pg cs t = Some None"
  proof
    assume a: "cs \<noteq> [] \<and> (\<forall>i\<le>n. find (matches pg i) (candidate_list cs) = None) \<and>
      (\<forall>i<n. elapsed pg i \<le> t) \<and> t < elapsed pg n"
    then have "poll pg (candidate_list cs) t 0 = poll pg (candidate_list cs) t n"
      by (intro poll_from_start) simp
    with a show "firstExistingSelector pg cs t = Some None"
      by (simp add: firstExistingSelector_def poll_timeout)
  qed
  have 6: "cs \<noteq> [] \<and> firstExistingSelector pg cs t = Some None \<longrightarrow>
      (\<exists>n. t < elapsed pg n \<and> (\<forall>i\<le>n. find (matches pg i) (candidate_list cs) = None))"
  proof
    assume "cs \<noteq> [] \<and> firstExistingSelector pg cs t = Some None"
    then have "poll pg (candidate_list cs) t 0 = Some None"
      by (auto simp: firstExistingSelector_def)
    from poll_null [OF this]
    show "\<exists>n. t < elapsed pg n \<and> (\<forall>i\<le>n. find (matches pg i) (candidate_list cs) = None)"
      by auto
  qed
  have 7: "probe pg r s = None \<longrightarrow> \<not> matches pg r s"
    by (simp add: matches_def)
  have "elapsed (quiet pg) = elapsed pg"
    by (simp add: quiet_def)
  from poll_same [OF matches_quiet this]
  have 8: "firstExistingSelector (quiet pg) cs t = firstExistingSelector pg cs t"
    by (simp add: firstExistingSelector_def)
  have 9: "cs \<noteq> [] \<and> (\<forall>i. \<forall>x\<in>set (candidate_list cs). probe pg i x \<noteq> None) \<longrightarrow>
      firstExistingSelector_mjs pg (Some cs) t = map_option Inr (firstExistingSelector pg cs t)"
  proof
    assume a: "cs \<noteq> [] \<and> (\<forall>i. \<forall>x\<in>set (candidate_list cs). probe pg i x \<noteq> None)"
    then have "poll_mjs pg (candidate_list cs) t 0 = map_option Inr (poll pg (candidate_list cs) t 0)"
      by (intro poll_mjs_agrees) simp
    with a show "firstExistingSelector_mjs pg (Some cs) t =
        map_option Inr (firstExistingSelector pg cs t)"
      by (simp add: firstExistingSelector_mjs_def firstExistingSelector_def)
  qed
  have 10: "(\<forall>i<n. probe_all pg i (candidate_list cs) = Inr None \<and> elapsed pg i \<le> t) \<and>
    probe_all pg n (candidate_list cs) = Inl e \<longrightarrow>
      firstExistingSelector_mjs pg (Some cs) t = Some (Inl e)"
  proof
    assume a: "(\<forall>i<n. probe_all pg i (candidate_list cs) = Inr None \<and> elapsed pg i \<le> t) \<and>
      probe_all pg n (candidate_list cs) = Inl e"
    then have "poll_mjs pg (candidate_list cs) t 0 = poll_mjs pg (candidate_list cs) t (0 + n)"
      by (intro poll_mjs_skip) simp
    with a show "firstExistingSelector_mjs pg (Some cs) t = Some (Inl e)"
      by (simp add: firstExistingSelector_mjs_def poll_mjs_raise)
  qed
  have 11: "probe_all pg r list = Inl e \<longleftrightarrow>
      e = LocatorError \<and>
      (\<exists>pre x post. list = pre @ x # post \<and> probe pg r x = None \<and>
         (\<forall>y\<in>set pre. probe pg r y = Some 0))"
    by (rule probe_all_raise)
  have 12: "firstExistingSelector_mjs pg None t = Some (Inl TypeError)"
    by (simp add: firstExistingSelector_mjs_def)
  have 13: "firstExistingSelector_mjs slow_page (Some ''li[, h2'') 8000 = Some (Inl LocatorError)"
    by code_simp
  have 14: "firstExistingSelector slow_page ''li[, h2'' 8000 = Some (Some ''h2'')"
    by code_simp
  show ?thesis
    by (intro conjI; fact)
qed

theorem selector_resolution_witness:
  "candidate_list '' .x , li[, h2,, h3 '' = [''.x'', ''li['', ''h2'', ''h3''] \<and>
   probe slow_page 2 ''li['' = None \<and>
   find (matches slow_page 0) [''.x'', ''li['', ''h2'', ''h3''] = None \<and>
   find (matches slow_page 1) [''.x'', ''li['', ''h2'', ''h3''] = None \<and>
   find (matches slow_page 2) [''.x'', ''li['', ''h2'', ''h3''] = Some ''h2'' \<and>
   firstExistingSelector slow_page '' .x , li[, h2,, h3 '' 8000 = Some (Some ''h2'') \<and>
   elapsed slow_page 2 \<le> 600 \<and> 600 < elapsed slow_page 3 \<and>
   firstExistingSelector slow_page ''.x, li[, h3'' 600 = Some None \<and>
   firstExistingSelector slow_page [] 8000 = Some None \<and>
   probe_all slow_page 0 (candidate_list ''li[, h2'') = Inl LocatorError \<and>
   firstExistingSelector_mjs slow_page (Some ''li[, h2'') 8000 = Some (Inl LocatorError) \<and>
   firstExistingSelector slow_page ''h2, h3'' 8000 = Some (Some ''h2'') \<and>
   firstExistingSelector_mjs slow_page (Some ''h2, h3'') 8000 = Some (Inr (Some ''h2''))"
proof -
  have c: "candidate_list '' .x , li[, h2,, h3 '' = [''.x'', ''li['', ''h2'', ''h3'']"
    by code_simp
  have p: "probe slow_page 2 ''li['' = None"
    by code_simp
  have f: "find (matches slow_page 0) [''.x'', ''li['', ''h2'', ''h3''] = None"
    "find (matches slow_page 1) [''.x'', ''li['', ''h2'', ''h3''] = None"
    "find (matches slow_page 2) [''.x'', ''li['', ''h2'', ''h3''] = Some ''h2''"
    by code_simp+
  have e: "elapsed slow_page 0 \<le> 8000" "elapsed slow_page 1 \<le> 8000"
    by code_simp+
  have before: "\<forall>i<2. find (matches slow_page i) (candidate_list '' .x , li[, h2,, h3 '') = None \<and>
      elapsed slow_page i \<le> 8000"
  proof (intro allI impI)
    fix i :: nat assume "i < 2"
    then have "i = 0 \<or> i = 1" by auto
    then show "find (matches slow_page i) (candidate_list '' .x , li[, h2,, h3 '') = None \<and>
        elapsed slow_page i \<le> 8000"
      unfolding c using f(1,2) e by blast
  qed
  have now: "find (matches slow_page 2) (candidate_list '' .x , li[, h2,, h3 '') = Some ''h2''"
    by (simp only: c f)
  have ne: "'' .x , li[, h2,, h3 '' \<noteq> []"
    by simp
  from selector_resolution [where pg = slow_page and cs = "'' .x , li[, h2,, h3 ''"
      and t = 8000 and n = 2 and sel = "''h2''"] ne before now
  have 1: "firstExistingSelector slow_page '' .x , li[, h2,, h3 '' 8000 = Some (Some ''h2'')"
    by blast
  have c2: "candidate_list ''.x, li[, h3'' = [''.x'', ''li['', ''h3'']"
    by code_simp
  have g: "find (matches slow_page 0) [''.x'', ''li['', ''h3''] = None"
    "find (matches slow_page 1) [''.x'', ''li['', ''h3''] = None"
    "find (matches slow_page 2) [''.x'', ''li['', ''h3''] = None"
    "find (matches slow_page 3) [''.x'', ''li['', ''h3''] = None"
    by code_simp+
  have h: "elapsed slow_page 0 \<le> 600" "elapsed slow_page 1 \<le> 600" "elapsed slow_page 2 \<le> 600"
    "600 < elapsed slow_page 3"
    by code_simp+
  have none: "\<forall>i\<le>3. find (matches slow_page i) (candidate_list ''.x, li[, h3'') = None"
  proof (intro allI impI)
    fix i :: nat assume "i \<le> 3"
    then have "i = 0 \<or> i = 1 \<or> i = 2 \<or> i = 3" by auto
    then show "find (matches slow_page i) (candidate_list ''.x, li[, h3'') = None"
      unfolding c2 using g by blast
  qed
  have early: "\<forall>i<3. elapsed slow_page i \<le> 600"
  proof (intro allI impI)
    fix i :: nat assume "i < 3"
    then have "i = 0 \<or> i = 1 \<or> i = 2" by auto
    then show "elapsed slow_page i \<le> 600"
      using h(1,2,3) by blast
  qed
  have ne2: "''.x, li[, h3'' \<noteq> []"
    by simp
  from selector_resolution [where pg = slow_page and cs = "''.x, li[, h3''" and t = 600
      and n = 3] ne2 none early h(4)
  have 2: "firstExistingSelector slow_page ''.x, li[, h3'' 600 = Some None"
    by blast
  from selector_resolution [where pg = slow_page and cs = "[]" and t = 8000]
  have 3: "firstExistingSelector slow_page [] 8000 = Some None"
    by blast
  have r: "probe_all slow_page 0 (candidate_list ''li[, h2'') = Inl LocatorError"
    by code_simp
  have "\<forall>i<0. probe_all slow_page i (candidate_list ''li[, h2'') = Inr None \<and>
      elapsed slow_page i \<le> 8000"
    by simp
  with selector_resolution [where pg = slow_page and cs = "''li[, h2''" and t = 8000
      and n = 0 and e = LocatorError] r
  have 4: "firstExistingSelector_mjs slow_page (Some ''li[, h2'') 8000 = Some (Inl LocatorError)"
    by blast
  have c3: "candidate_list ''h2, h3'' = [''h2'', ''h3'']"
    by code_simp
  have q: "\<forall>i. \<forall>x\<in>set (candidate_list ''h2, h3''). probe slow_page i x \<noteq> None"
    unfolding c3 by (simp add: slow_page_def)
  have 5: "firstExistingSelector slow_page ''h2, h3'' 8000 = Some (Some ''h2'')"
    by code_simp
  have ne3: "''h2, h3'' \<noteq> []"
    by simp
  from selector_resolution [where pg = slow_page and cs = "''h2, h3''" and t = 8000] ne3 q
  have "firstExistingSelector_mjs slow_page (Some ''h2, h3'') 8000 =
      map_option Inr (firstExistingSelector slow_page ''h2, h3'' 8000)"
    by blast
  then have 6: "firstExistingSelector_mjs slow_page (Some ''h2, h3'') 8000 =
      Some (Inr (Some ''h2''))"
    by (simp only: 5 option.map)
  show ?thesis
    by (intro conjI c p f 1 h(3,4) 2 3 r 4 5 6)
qed

end
